(* ===== verification/Prelude.thy ===== *)
theory Prelude
  imports Main "HOL-Library.Word"
begin

text \<open>
  What every theory of the development shares: the Rust integer types as words, the Rust
  \<open>Result\<close> type with its combinators, the bounded suffix of a list (the contents of a
  bounded log), and the facts about words and lists that the component theories use through
  the collections \<open>result_simps\<close> and \<open>last_n_simps\<close>.
\<close>

named_theorems result_simps "unfolding rules of the Result combinators"
named_theorems last_n_simps "facts about the bounded suffix of a list"

section \<open>Rust's integer types\<close>

type_synonym u8 = "8 word"
type_synonym u16 = "16 word"
type_synonym u32 = "32 word"
type_synonym u64 = "64 word"
type_synonym u128 = "128 word"
type_synonym usize = "64 word"

section \<open>Results\<close>

text \<open>
  \<open>Result<T, E>\<close>: every early return, \<open>?\<close> and \<open>ensure!\<close> of the source is a branch
  that ends in \<open>Err\<close>.
\<close>

datatype ('a, 'e) result = Ok (the_ok: 'a) | Err (the_err: 'e)

definition and_then :: "('a, 'e) result \<Rightarrow> ('a \<Rightarrow> ('b, 'e) result) \<Rightarrow> ('b, 'e) result" where
  "and_then r k = (case r of Ok x \<Rightarrow> k x | Err e \<Rightarrow> Err e)"

definition map_ok :: "('a \<Rightarrow> 'b) \<Rightarrow> ('a, 'e) result \<Rightarrow> ('b, 'e) result" where
  "map_ok f r = (case r of Ok x \<Rightarrow> Ok (f x) | Err e \<Rightarrow> Err e)"

definition map_err :: "('e \<Rightarrow> 'f) \<Rightarrow> ('a, 'e) result \<Rightarrow> ('a, 'f) result" where
  "map_err f r = (case r of Ok x \<Rightarrow> Ok x | Err e \<Rightarrow> Err (f e))"

definition ok_or :: "'e \<Rightarrow> 'a option \<Rightarrow> ('a, 'e) result" where
  "ok_or e x = (case x of Some a \<Rightarrow> Ok a | None \<Rightarrow> Err e)"

definition is_ok :: "('a, 'e) result \<Rightarrow> bool" where
  "is_ok r = (case r of Ok _ \<Rightarrow> True | Err _ \<Rightarrow> False)"

lemma and_then_simps [simp, result_simps]:
  "and_then (Ok x) k = k x"
  "and_then (Err e) k = Err e"
  by (simp_all add: and_then_def)

lemma map_ok_simps [simp, result_simps]:
  "map_ok f (Ok x) = Ok (f x)"
  "map_ok f (Err e) = Err e"
  by (simp_all add: map_ok_def)

lemma map_err_simps [simp, result_simps]:
  "map_err f (Ok x) = Ok x"
  "map_err f (Err e) = Err (f e)"
  by (simp_all add: map_err_def)

lemma map_err_map_err [simp, result_simps]: "map_err f (map_err g r) = map_err (\<lambda>e. f (g e)) r"
  by (cases r) simp_all

lemma ok_or_simps [simp, result_simps]:
  "ok_or e (Some a) = Ok a"
  "ok_or e None = Err e"
  by (simp_all add: ok_or_def)

lemma is_ok_simps [simp, result_simps]:
  "is_ok (Ok x)"
  "\<not> is_ok (Err e)"
  by (simp_all add: is_ok_def)

lemma and_then_eq_Ok: "and_then r k = Ok y \<longleftrightarrow> (\<exists>x. r = Ok x \<and> k x = Ok y)"
  by (cases r) simp_all

lemma and_then_eq_Err: "and_then r k = Err e \<longleftrightarrow> r = Err e \<or> (\<exists>x. r = Ok x \<and> k x = Err e)"
  by (cases r) simp_all

lemma and_then_assoc: "and_then (and_then r k) h = and_then r (\<lambda>x. and_then (k x) h)"
  by (cases r) simp_all

section \<open>Strings\<close>

text \<open>The bytes of a string: of a literal, and \<open>str::as_bytes\<close>.\<close>

definition bytes_of :: "string \<Rightarrow> u8 list" where
  "bytes_of text = map of_char text"

section \<open>The last elements of a list\<close>

definition last_n :: "nat \<Rightarrow> 'a list \<Rightarrow> 'a list" where
  "last_n n xs = drop (length xs - n) xs"

lemma length_last_n [simp, last_n_simps]: "length (last_n n xs) = min n (length xs)"
  by (simp add: last_n_def)

lemma last_n_short [last_n_simps]: "length xs \<le> n \<Longrightarrow> last_n n xs = xs"
  by (simp add: last_n_def)

lemma last_n_0 [simp, last_n_simps]: "last_n 0 xs = []"
  by (simp add: last_n_def)

lemma last_n_Nil [simp, last_n_simps]: "last_n n [] = []"
  by (simp add: last_n_def)

lemma last_n_map: "last_n n (map f xs) = map f (last_n n xs)"
  by (simp add: last_n_def drop_map)

lemma set_last_n: "set (last_n n xs) \<subseteq> set xs"
  by (simp add: last_n_def set_drop_subset)

lemma last_n_full: "length xs = n \<Longrightarrow> last_n n (xs @ [x]) = tl (xs @ [x])"
  by (cases xs) (auto simp: last_n_def)

lemma last_n_append_last_n: "last_n n (last_n n xs @ ys) = last_n n (xs @ ys)"
  by (cases "length xs \<le> n") (simp_all add: last_n_def add.commute)

lemma last_n_snoc: "0 < n \<Longrightarrow> last_n n (xs @ [x]) = last_n (n - 1) xs @ [x]"
  by (cases "length xs < n") (auto simp: last_n_def)

lemma last_n_append: "last_n n (xs @ ys) = last_n (n - length ys) xs @ last_n n ys"
  by (cases "length ys \<le> n") (simp_all add: last_n_def)

section \<open>Words read as naturals\<close>

lemma unat_plus_one_less:
  fixes v :: "'w::len word"
  assumes "unat v + 1 < 2 ^ LENGTH('w)"
  shows "unat (v + 1) = unat v + 1"
  using assms by (simp add: unat_word_ariths)

lemma unat_plus_one:
  fixes v :: "'w::len word"
  shows "unat (v + 1) = (unat v + 1) mod 2 ^ LENGTH('w)"
  by (simp add: unat_word_ariths)

lemma unat_lt_64: "unat (v :: u64) < 18446744073709551616"
  using unsigned_less [of v] by simp

lemma unat_of_nat_64: "n < 18446744073709551616 \<Longrightarrow> unat (of_nat n :: u64) = n"
  by (simp add: unat_of_nat take_bit_nat_eq_self_iff)

lemma unat_mult_exact:
  fixes x y :: "'w::len word"
  assumes "unat x * unat y < 2 ^ LENGTH('w)"
  shows "unat (x * y) = unat x * unat y"
  using assms by (simp add: unat_word_ariths)

lemma unat_add_exact:
  fixes x y :: "'w::len word"
  assumes "unat x + unat y < 2 ^ LENGTH('w)"
  shows "unat (x + y) = unat x + unat y"
  using assms by (simp add: unat_word_ariths)

lemma word_eq_unat_iff: "x = y \<longleftrightarrow> unat x = unat y"
  by (rule word_unat_eq_iff)

lemma unat_lt_32: "unat (v :: u32) < 4294967296"
  using unsigned_less [of v] by simp

lemma unat_lt_128: "unat (v :: u128) < 340282366920938463463374607431768211456"
  using unsigned_less [of v] by simp

lemma unat_ucast_mod: "unat (ucast (w :: 'v::len word) :: 'w::len word) = unat w mod 2 ^ LENGTH('w)"
  by (simp add: unsigned_ucast_eq take_bit_eq_mod)

lemma unat_ucast_wide:
  assumes "LENGTH('v) \<le> LENGTH('w)"
  shows "unat (ucast (w :: 'v::len word) :: 'w::len word) = unat w"
proof -
  have "unat w < 2 ^ LENGTH('v)"
    by (rule unsigned_less)
  also have "\<dots> \<le> 2 ^ LENGTH('w)"
    using assms by simp
  finally show ?thesis
    by (simp add: unat_ucast_mod)
qed

end
