(* ===== verification/Rpc.thy ===== *)
theory Rpc
  imports Prelude
begin

text \<open>
  The RPC extensions of \<open>node/rpc/src/lib.rs\<close>: the dependencies handed over, and the handlers
  \<open>create_full\<close> and \<open>create_light\<close> extend the IO handler with, in order. A handler of
  Substrate is a constructor with its arguments; the IO handler is the list of them.
\<close>

datatype deny_unsafe = Deny_Yes | Deny_No

record ('client, 'fetcher, 'pool, 'remote) LightDeps =
  light_client :: 'client
  light_pool :: 'pool
  light_remote_blockchain :: 'remote
  light_fetcher :: 'fetcher

record ('config, 'epochs, 'keystore) BabeDeps =
  deps_babe_config :: 'config
  deps_shared_epoch_changes :: 'epochs
  deps_keystore :: 'keystore

record ('voter, 'set, 'stream, 'executor, 'provider) GrandpaDeps =
  deps_shared_voter_state :: 'voter
  deps_shared_authority_set :: 'set
  deps_justification_stream :: 'stream
  deps_subscription_executor :: 'executor
  deps_finality_provider :: 'provider

record ('client, 'pool, 'select, 'babe, 'grandpa) FullDeps =
  deps_client :: 'client
  deps_pool :: 'pool
  deps_select_chain :: 'select
  deps_deny_unsafe :: deny_unsafe
  deps_babe :: 'babe
  deps_grandpa :: 'grandpa

datatype ('client, 'pool, 'select, 'config, 'epochs, 'keystore, 'voter, 'set, 'stream, 'executor, 'provider) delegate =
    FullSystem 'client 'pool deny_unsafe
  | TransactionPayment 'client
  | BabeRpcHandler 'client 'epochs 'keystore 'config 'select deny_unsafe
  | GrandpaRpcHandler 'set 'voter 'stream 'executor 'provider

datatype ('client, 'fetcher, 'pool, 'remote) light_delegate =
    LightSystem 'client 'remote 'fetcher 'pool

definition create_full ::
  "('client, 'pool, 'select, ('config, 'epochs, 'keystore) BabeDeps,
    ('voter, 'set, 'stream, 'executor, 'provider) GrandpaDeps) FullDeps
   \<Rightarrow> ('client, 'pool, 'select, 'config, 'epochs, 'keystore, 'voter, 'set, 'stream, 'executor, 'provider) delegate list" where
  "create_full deps =
     (let babe = deps_babe deps;
          grandpa = deps_grandpa deps;
          io = [];
          io = io @ [FullSystem (deps_client deps) (deps_pool deps) (deps_deny_unsafe deps)];
          io = io @ [TransactionPayment (deps_client deps)];
          io = io @ [BabeRpcHandler
                       (deps_client deps)
                       (deps_shared_epoch_changes babe)
                       (deps_keystore babe)
                       (deps_babe_config babe)
                       (deps_select_chain deps)
                       (deps_deny_unsafe deps)];
          io = io @ [GrandpaRpcHandler
                       (deps_shared_authority_set grandpa)
                       (deps_shared_voter_state grandpa)
                       (deps_justification_stream grandpa)
                       (deps_subscription_executor grandpa)
                       (deps_finality_provider grandpa)]
      in io)"

definition create_light ::
  "('client, 'fetcher, 'pool, 'remote) LightDeps \<Rightarrow> ('client, 'fetcher, 'pool, 'remote) light_delegate list" where
  "create_light deps =
     [LightSystem (light_client deps) (light_remote_blockchain deps) (light_fetcher deps) (light_pool deps)]"

end
