(* ===== verification/Service.thy ===== *)
theory Service
  imports Rpc
begin

text \<open>
  The node services of \<open>node/cli/src/service.rs\<close> as programs of calls to Substrate. Every
  call is an \<open>action\<close> with the arguments the code chooses; \<open>Try\<close> marks a call whose failure
  the code returns with \<open>?\<close>. Which calls are made depends on the configuration alone, so a
  service is a list of steps, run against an environment that says which calls fail. The
  trace of a run holds the calls made, the failing one included. Making the closure that
  builds a full node's RPC extensions is an action too, for what it captures.
\<close>

section \<open>Configurations\<close>

datatype role =
    Role_Full
  | Role_Light
  | Role_Sentry "string list"
  | Role_Authority "string list"

record configuration =
  config_role :: role
  force_authoring :: bool
  disable_grandpa :: bool
  offchain_worker_enabled :: bool
  node_name :: string

text \<open>
  The two predicates on roles are methods of \<open>sc_service\<close>, with their documented behaviour:
  an authority is an authority, a network authority is an authority or its sentry.
\<close>

record role_api =
  is_authority :: "role \<Rightarrow> bool"
  is_network_authority :: "role \<Rightarrow> bool"

definition role_documented :: "role_api \<Rightarrow> bool" where
  "role_documented R \<longleftrightarrow>
     (\<forall>r. is_authority R r = (\<exists>nodes. r = Role_Authority nodes)) \<and>
     (\<forall>r. is_network_authority R r = ((\<exists>nodes. r = Role_Authority nodes) \<or> (\<exists>nodes. r = Role_Sentry nodes)))"

text \<open>The type aliases of the services, by name.\<close>

definition service_types :: "(string \<times> string) list" where
  "service_types =
     [(''FullClient'', ''sc_service::TFullClient<Block, RuntimeApi, Executor>''),
      (''FullBackend'', ''sc_service::TFullBackend<Block>''),
      (''FullSelectChain'', ''sc_consensus::LongestChain<FullBackend, Block>''),
      (''FullGrandpaBlockImport'', ''grandpa::GrandpaBlockImport<FullBackend, Block, FullClient, FullSelectChain>''),
      (''LightClient'', ''sc_service::TLightClient<Block, RuntimeApi, Executor>'')]"

section \<open>Actions\<close>

record grandpa_config =
  gossip_duration_millis :: nat
  justification_period :: nat
  grandpa_name :: string
  observer_enabled :: bool
  grandpa_keystore :: bool
  grandpa_is_authority :: bool

datatype can_author = CanAuthorWithNativeVersion | NeverCanAuthor

datatype discovery_role = Discovery_Authority | Discovery_Sentry

datatype action =
    New_full_parts
  | New_light_parts
  | New_longest_chain
  | New_full_pool
  | New_light_pool
  | Grandpa_block_import
  | Grandpa_light_block_import
  | Create_finality_proof_request_builder
  | Babe_config_get_or_compute
  | Babe_block_import
  | New_inherent_data_providers
  | Babe_import_queue (justification_import: bool) (finality_proof_import: bool) can_author
  | Empty_shared_voter_state
  | New_finality_proof_provider
  | Make_rpc_extensions_builder
  | Build_network (on_demand: bool) (proof_request_builder: bool) (proof_provider: bool)
  | Build_offchain_workers
  | Create_light_rpc
  | Spawn_tasks (tasks_on_demand: bool) (tasks_remote_blockchain: bool)
  | With_startup_data
  | New_proposer_factory
  | Start_babe (babe_force_authoring: bool)
  | Network_event_stream string
  | New_authority_discovery "string list" discovery_role
  | Spawn string
  | Spawn_essential_blocking string
  | Run_grandpa_voter grandpa_config
  | Setup_disabled_grandpa
  | Start_network

datatype step = Do action | Try action

fun action_of :: "step \<Rightarrow> action" where
  "action_of (Do a) = a"
| "action_of (Try a) = a"

fun run_steps :: "(action \<Rightarrow> (unit, 'e) result) \<Rightarrow> step list \<Rightarrow> action list \<times> (unit, 'e) result" where
  "run_steps env [] = ([], Ok ())"
| "run_steps env (Do a # steps) = (let (trace, r) = run_steps env steps in (a # trace, r))"
| "run_steps env (Try a # steps) =
     (case env a of
        Err e \<Rightarrow> ([a], Err e)
      | Ok _ \<Rightarrow> (let (trace, r) = run_steps env steps in (a # trace, r)))"

section \<open>Full nodes\<close>

definition new_partial :: "step list" where
  "new_partial =
     [Try New_full_parts,
      Do New_longest_chain,
      Do New_full_pool,
      Try Grandpa_block_import,
      Try Babe_config_get_or_compute,
      Try Babe_block_import,
      Do New_inherent_data_providers,
      Try (Babe_import_queue True False CanAuthorWithNativeVersion),
      Do Empty_shared_voter_state,
      Do New_finality_proof_provider,
      Do Make_rpc_extensions_builder]"

text \<open>The closure \<open>new_partial\<close> builds the RPC extensions with, from what it captured.\<close>

definition rpc_extensions_builder where
  "rpc_extensions_builder client pool select_chain babe_config shared_epoch_changes keystore
     shared_voter_state shared_authority_set justification_stream finality_proof_provider
     deny_unsafe subscription_executor =
     create_full
       \<lparr>deps_client = client,
        deps_pool = pool,
        deps_select_chain = select_chain,
        deps_deny_unsafe = deny_unsafe,
        deps_babe =
          \<lparr>deps_babe_config = babe_config,
           deps_shared_epoch_changes = shared_epoch_changes,
           deps_keystore = keystore\<rparr>,
        deps_grandpa =
          \<lparr>deps_shared_voter_state = shared_voter_state,
           deps_shared_authority_set = shared_authority_set,
           deps_justification_stream = justification_stream,
           deps_subscription_executor = subscription_executor,
           deps_finality_provider = finality_proof_provider\<rparr>\<rparr>"

definition babe_steps :: "configuration \<Rightarrow> step list" where
  "babe_steps config =
     (case config_role config of
        Role_Authority _ \<Rightarrow>
          [Do New_proposer_factory,
           Try (Start_babe (force_authoring config)),
           Do (Spawn_essential_blocking ''babe-proposer'')]
      | _ \<Rightarrow> [])"

definition discovery_steps :: "configuration \<Rightarrow> step list" where
  "discovery_steps config =
     (let start = (\<lambda>sentries discovery.
        [Do (Network_event_stream ''authority-discovery''),
         Do (New_authority_discovery sentries discovery),
         Do (Spawn ''authority-discovery-worker'')])
      in (case config_role config of
            Role_Authority sentry_nodes \<Rightarrow> start sentry_nodes Discovery_Authority
          | Role_Sentry _ \<Rightarrow> start [] Discovery_Sentry
          | _ \<Rightarrow> []))"

definition grandpa_config_of :: "role_api \<Rightarrow> configuration \<Rightarrow> grandpa_config" where
  "grandpa_config_of R config =
     \<lparr>gossip_duration_millis = 333,
      justification_period = 512,
      grandpa_name = node_name config,
      observer_enabled = False,
      grandpa_keystore = is_authority R (config_role config),
      grandpa_is_authority = is_network_authority R (config_role config)\<rparr>"

definition grandpa_steps :: "role_api \<Rightarrow> configuration \<Rightarrow> step list" where
  "grandpa_steps R config =
     (if \<not> disable_grandpa config
      then [Try (Run_grandpa_voter (grandpa_config_of R config)), Do (Spawn_essential_blocking ''grandpa-voter'')]
      else [Try Setup_disabled_grandpa])"

definition new_full_base :: "role_api \<Rightarrow> configuration \<Rightarrow> step list" where
  "new_full_base R config =
     new_partial
     @ [Try (Build_network False False True)]
     @ (if offchain_worker_enabled config then [Do Build_offchain_workers] else [])
     @ [Try (Spawn_tasks False False), Do With_startup_data]
     @ babe_steps config
     @ discovery_steps config
     @ grandpa_steps R config
     @ [Do Start_network]"

definition new_full ::
  "role_api \<Rightarrow> (action \<Rightarrow> (unit, 'e) result) \<Rightarrow> configuration \<Rightarrow> action list \<times> (unit, 'e) result" where
  "new_full R env config = run_steps env (new_full_base R config)"

section \<open>Light nodes\<close>

definition new_light_base :: "configuration \<Rightarrow> step list" where
  "new_light_base config =
     [Try New_light_parts,
      Do New_longest_chain,
      Do New_light_pool,
      Try Grandpa_light_block_import,
      Do Create_finality_proof_request_builder,
      Try Babe_config_get_or_compute,
      Try Babe_block_import,
      Do New_inherent_data_providers,
      Try (Babe_import_queue False True NeverCanAuthor),
      Do New_finality_proof_provider,
      Try (Build_network True True True),
      Do Start_network]
     @ (if offchain_worker_enabled config then [Do Build_offchain_workers] else [])
     @ [Do Create_light_rpc, Try (Spawn_tasks True True)]"

definition new_light ::
  "(action \<Rightarrow> (unit, 'e) result) \<Rightarrow> configuration \<Rightarrow> action list \<times> (unit, 'e) result" where
  "new_light env config = run_steps env (new_light_base config)"

section \<open>Running steps\<close>

fun fallible :: "step \<Rightarrow> bool" where
  "fallible (Do a) = False"
| "fallible (Try a) = True"

text \<open>A run makes the calls of the steps in order, up to and including the first that fails.\<close>

lemma run_steps_append:
  "run_steps env (xs @ ys) =
     (case run_steps env xs of
        (trace, Err e) \<Rightarrow> (trace, Err e)
      | (trace, Ok _) \<Rightarrow> (trace @ fst (run_steps env ys), snd (run_steps env ys)))"
  by (induction env xs rule: run_steps.induct) (auto split: result.splits prod.splits)

lemma run_steps_Ok_iff:
  "snd (run_steps env steps) = Ok () \<longleftrightarrow> (\<forall>s\<in>set steps. fallible s \<longrightarrow> is_ok (env (action_of s)))"
proof (induction env steps rule: run_steps.induct)
  case (3 env a steps)
  then show ?case
    by (cases "env a") (auto split: prod.splits)
qed (auto split: prod.splits)

lemma run_steps_Ok_trace: "snd (run_steps env steps) = Ok () \<Longrightarrow> fst (run_steps env steps) = map action_of steps"
  by (induction env steps rule: run_steps.induct) (auto split: result.splits prod.splits)

lemma run_steps_Err:
  "run_steps env steps = (trace, Err e) \<longleftrightarrow>
     (\<exists>before a after. steps = before @ Try a # after \<and> env a = Err e \<and> trace = map action_of before @ [a]
        \<and> (\<forall>s\<in>set before. fallible s \<longrightarrow> is_ok (env (action_of s))))" (is "?run \<longleftrightarrow> ?fails steps trace")
proof
  assume ?run
  then show "?fails steps trace"
  proof (induction env steps arbitrary: trace rule: run_steps.induct)
    case (2 env a steps)
    then obtain trace' where "run_steps env steps = (trace', Err e)" "trace = a # trace'"
      by (auto split: prod.splits)
    with "2.IH" [of trace'] obtain before b after where "steps = before @ Try b # after" "env b = Err e"
      "trace = map action_of (Do a # before) @ [b]" "\<forall>s\<in>set (Do a # before). fallible s \<longrightarrow> is_ok (env (action_of s))"
      by auto
    then show ?case
      by (metis append_Cons)
  next
    case (3 env a steps)
    show ?case
    proof (cases "env a")
      case (Ok u)
      with "3.prems" obtain trace' where "run_steps env steps = (trace', Err e)" "trace = a # trace'"
        by (auto split: prod.splits)
      with "3.IH" [OF Ok, of trace'] Ok obtain before b after where "steps = before @ Try b # after" "env b = Err e"
        "trace = map action_of (Try a # before) @ [b]" "\<forall>s\<in>set (Try a # before). fallible s \<longrightarrow> is_ok (env (action_of s))"
        by auto
      then show ?thesis
        by (metis append_Cons)
    next
      case (Err e')
      with "3.prems" show ?thesis
        by (intro exI [of _ "[]"]) auto
    qed
  qed simp
next
  assume "?fails steps trace"
  then obtain before a after where steps: "steps = before @ Try a # after" "env a = Err e"
    "trace = map action_of before @ [a]" "\<forall>s\<in>set before. fallible s \<longrightarrow> is_ok (env (action_of s))"
    by auto
  from steps(4) have ok: "snd (run_steps env before) = Ok ()"
    by (simp add: run_steps_Ok_iff)
  with run_steps_Ok_trace [OF ok] have "run_steps env before = (map action_of before, Ok ())"
    by (metis prod.collapse)
  with steps(1-3) show ?run
    by (simp add: run_steps_append)
qed

lemma run_steps_Err_last:
  assumes "snd (run_steps env steps) = Err e"
  shows "env (last (fst (run_steps env steps))) = Err e"
proof -
  have "run_steps env steps = (fst (run_steps env steps), Err e)"
    using assms by (metis prod.collapse)
  then show ?thesis
    unfolding run_steps_Err by auto
qed

lemma run_steps_prefix:
  "\<exists>rest. map action_of steps = fst (run_steps env steps) @ rest"
  by (induction env steps rule: run_steps.induct) (auto split: result.splits prod.splits)

end
