(* ===== verification/Rust_Int.thy ===== *)
theory Rust_Int
  imports Prelude
begin

text \<open>
  The integer operations of Rust's standard library the sources call, on words of any
  width: saturating and checked arithmetic, casts, and \<open>checked_next_power_of_two\<close>.
\<close>

definition saturating_add :: "'w::len word \<Rightarrow> 'w word \<Rightarrow> 'w word" where
  "saturating_add x y = (if unat x + unat y < 2 ^ LENGTH('w) then x + y else - 1)"

definition saturating_sub :: "'w::len word \<Rightarrow> 'w word \<Rightarrow> 'w word" where
  "saturating_sub x y = (if y \<le> x then x - y else 0)"

definition checked_mul :: "'w::len word \<Rightarrow> 'w word \<Rightarrow> 'w word option" where
  "checked_mul x y = (if unat x * unat y < 2 ^ LENGTH('w) then Some (x * y) else None)"

definition checked_add :: "'w::len word \<Rightarrow> 'w word \<Rightarrow> 'w word option" where
  "checked_add x y = (if unat x + unat y < 2 ^ LENGTH('w) then Some (x + y) else None)"

text \<open>Division and remainder panic on a zero divisor: \<open>None\<close>.\<close>

definition checked_div :: "'w::len word \<Rightarrow> 'w word \<Rightarrow> 'w word option" where
  "checked_div x y = (if y = 0 then None else Some (x div y))"

definition checked_rem :: "'w::len word \<Rightarrow> 'w word \<Rightarrow> 'w word option" where
  "checked_rem x y = (if y = 0 then None else Some (x mod y))"

text \<open>The least power of two that is at least \<open>x\<close>, unless it overflows the type.\<close>

fun pow2_from :: "nat \<Rightarrow> nat \<Rightarrow> nat \<Rightarrow> nat option" where
  "pow2_from 0 p n = None"
| "pow2_from (Suc k) p n = (if n \<le> p then Some p else pow2_from k (2 * p) n)"

definition checked_next_power_of_two :: "'w::len word \<Rightarrow> 'w word option" where
  "checked_next_power_of_two x = map_option of_nat (pow2_from LENGTH('w) 1 (unat x))"

section \<open>Saturating arithmetic\<close>

lemma unat_minus_one_word: "unat (- 1 :: 'w::len word) = 2 ^ LENGTH('w) - 1"
  by (simp add: unsigned_minus_1_eq_mask mask_eq_exp_minus_1)

lemma unat_saturating_add:
  fixes x y :: "'w::len word"
  shows "unat (saturating_add x y) = min (unat x + unat y) (2 ^ LENGTH('w) - 1)"
proof -
  have "(0::nat) < 2 ^ LENGTH('w)"
    by simp
  then have "unat x + unat y < 2 ^ LENGTH('w) \<longleftrightarrow> unat x + unat y \<le> 2 ^ LENGTH('w) - 1"
    by linarith
  then show ?thesis
    by (simp add: saturating_add_def unat_add_exact unat_minus_one_word min_def)
qed

lemma saturating_add_mono:
  "x \<le> x' \<Longrightarrow> y \<le> y' \<Longrightarrow> saturating_add x y \<le> saturating_add x' y'"
  by (auto simp: word_le_nat_alt unat_saturating_add)

lemma saturating_add_assoc:
  "saturating_add (saturating_add x y) z = saturating_add x (saturating_add y z)"
  by (simp add: word_eq_unat_iff unat_saturating_add)

lemma saturating_add_ge: "x \<le> saturating_add x y" "y \<le> saturating_add x y"
proof -
  have le: "unat z \<le> 2 ^ LENGTH('a) - 1" for z :: "'a word"
  proof -
    have "unat z < 2 ^ LENGTH('a)"
      by (rule unsigned_less)
    then show ?thesis by linarith
  qed
  show "x \<le> saturating_add x y" "y \<le> saturating_add x y"
    using le by (auto simp: word_le_nat_alt unat_saturating_add)
qed

lemma unat_saturating_sub: "unat (saturating_sub x y) = unat x - unat y"
  by (auto simp: saturating_sub_def word_le_nat_alt unat_sub)

section \<open>Powers of two\<close>

lemma pow2_from_Some:
  assumes "pow2_from k p n = Some q"
  shows "\<exists>j<k. q = p * 2 ^ j \<and> n \<le> q \<and> (j = 0 \<or> p * 2 ^ (j - 1) < n)"
  using assms
proof (induction k arbitrary: p)
  case 0
  then show ?case by simp
next
  case (Suc k)
  show ?case
  proof (cases "n \<le> p")
    case True
    with Suc.prems show ?thesis by (intro exI [of _ 0]) simp
  next
    case False
    with Suc.prems have "pow2_from k (2 * p) n = Some q" by simp
    from Suc.IH [OF this] obtain j where j: "j < k" "q = 2 * p * 2 ^ j" "n \<le> q"
      "j = 0 \<or> 2 * p * 2 ^ (j - 1) < n"
      by auto
    have "p * 2 ^ j < n"
      using j(4) False by (cases j) auto
    with j show ?thesis
      by (intro exI [of _ "Suc j"]) simp
  qed
qed

lemma pow2_from_enough: "n \<le> p * 2 ^ k \<Longrightarrow> \<exists>q. pow2_from (Suc k) p n = Some q"
  by (induction k arbitrary: p) (auto simp: mult.assoc)

lemma pow2_from_None: "pow2_from k p n = None \<Longrightarrow> k = 0 \<or> p * 2 ^ (k - 1) < n"
  using pow2_from_enough [of n p "k - 1"]
  by (cases k; cases "n \<le> p * 2 ^ (k - 1)") (auto simp del: pow2_from.simps(2))

end
