(* ===== verification/Inspect_Address.thy ===== *)
theory Inspect_Address
  imports Rust_Int
begin

text \<open>
  The addresses of \<open>node/inspect/src/lib.rs\<close>: \<open>BlockAddress\<close> and \<open>ExtrinsicAddress\<close> with
  their \<open>FromStr\<close> implementations, on the standard library's \<open>u32::from_str\<close>,
  \<open>usize::from_str\<close> and \<open>str::split\<close>, which are modelled here on the bytes of the string
  (every separator and digit is a single byte of UTF-8). The parsers of hashes and of
  hex-encoded bytes are Substrate's, the fields of the record \<open>address_env\<close>. The contract
  of a textual form, shared by block numbers and indices, is the locale \<open>textual\<close>.
\<close>

section \<open>Decimal numbers of the standard library\<close>

datatype int_error_kind = Empty | InvalidDigit | PosOverflow

fun int_error_text :: "int_error_kind \<Rightarrow> string" where
  "int_error_text Empty = ''cannot parse integer from empty string''"
| "int_error_text InvalidDigit = ''invalid digit found in string''"
| "int_error_text PosOverflow = ''number too large to fit in target type''"

definition to_digit :: "char \<Rightarrow> nat option" where
  "to_digit c = (let n = of_char c :: nat in if 48 \<le> n \<and> n \<le> 57 then Some (n - 48) else None)"

fun parse_digits :: "'w::len word \<Rightarrow> string \<Rightarrow> ('w word, int_error_kind) result" where
  "parse_digits acc [] = Ok acc"
| "parse_digits acc (c # cs) =
     (case to_digit c of
        None \<Rightarrow> Err InvalidDigit
      | Some d \<Rightarrow>
          (case checked_mul acc 10 of
             None \<Rightarrow> Err PosOverflow
           | Some m \<Rightarrow>
               (case checked_add m (of_nat d) of
                  None \<Rightarrow> Err PosOverflow
                | Some acc' \<Rightarrow> parse_digits acc' cs)))"

definition uint_from_str :: "string \<Rightarrow> ('w::len word, int_error_kind) result" where
  "uint_from_str s =
     (if s = [] then Err Empty
      else if s = ''+'' then Err InvalidDigit
      else if hd s = CHR ''+'' then parse_digits 0 (tl s)
      else parse_digits 0 s)"

definition digit_char :: "nat \<Rightarrow> char" where
  "digit_char d = char_of (48 + d)"

fun show_nat :: "nat \<Rightarrow> string" where
  "show_nat n = (if n < 10 then [digit_char n] else show_nat (n div 10) @ [digit_char (n mod 10)])"

declare show_nat.simps [simp del]

definition show_word :: "'w::len word \<Rightarrow> string" where
  "show_word w = show_nat (unat w)"

section \<open>Splitting\<close>

fun split_on :: "(char \<Rightarrow> bool) \<Rightarrow> string \<Rightarrow> string list" where
  "split_on p [] = [[]]"
| "split_on p (c # cs) =
     (if p c then [] # split_on p cs
      else (c # hd (split_on p cs)) # tl (split_on p cs))"

text \<open>The separators between a block and an index.\<close>

definition separator :: "char \<Rightarrow> bool" where
  "separator c \<longleftrightarrow> c = CHR ''.'' \<or> c = CHR '':'' \<or> c = CHR '' ''"

section \<open>Addresses\<close>

datatype ('hash, 'number) BlockAddress =
    BlockAddress_Hash 'hash
  | BlockAddress_Number 'number
  | BlockAddress_Bytes "u8 list"

datatype ('hash, 'number) ExtrinsicAddress =
    ExtrinsicAddress_Block "('hash, 'number) BlockAddress" usize
  | ExtrinsicAddress_Bytes "u8 list"

record 'hash address_env =
  hash_from_str :: "string \<Rightarrow> 'hash option"
  from_hex :: "string \<Rightarrow> (u8 list, string) result"

definition BlockAddress_from_str ::
  "'hash address_env \<Rightarrow> string \<Rightarrow> (('hash, 'w::len word) BlockAddress, string) result" where
  "BlockAddress_from_str env s =
     (case hash_from_str env s of
        Some hash \<Rightarrow> Ok (BlockAddress_Hash hash)
      | None \<Rightarrow>
          (case uint_from_str s of
             Ok number \<Rightarrow> Ok (BlockAddress_Number number)
           | Err _ \<Rightarrow>
               map_err (\<lambda>e. ''Given string does not look like hash or number. It could not be parsed as bytes either: '' @ e)
                 (map_ok BlockAddress_Bytes (from_hex env s))))"

definition ExtrinsicAddress_from_str ::
  "'hash address_env \<Rightarrow> string \<Rightarrow> (('hash, 'w::len word) ExtrinsicAddress, string) result" where
  "ExtrinsicAddress_from_str env s =
     (case map_ok ExtrinsicAddress_Bytes (from_hex env s) of
        Ok bytes \<Rightarrow> Ok bytes
      | Err _ \<Rightarrow>
          (let it = split_on separator s in
           and_then (BlockAddress_from_str env (hd it)) (\<lambda>block.
           and_then (ok_or ''Extrinsic index missing: example \"5:0\"''
              (case tl it of [] \<Rightarrow> None | part # _ \<Rightarrow> Some part)) (\<lambda>part.
           and_then (map_err (\<lambda>e. ''Invalid index format: '' @ int_error_text e) (uint_from_str part)) (\<lambda>index.
           Ok (ExtrinsicAddress_Block block index))))))"

text \<open>
  Documented behaviour of the parsers: bytes in hex need the prefix \<open>0x\<close> and hold no
  separator, and the text of a hash is hex digits only, more than any number's digits.
\<close>

definition hex_documented :: "'hash address_env \<Rightarrow> bool" where
  "hex_documented env \<longleftrightarrow>
     (\<forall>s bytes. from_hex env s = Ok bytes \<longrightarrow> take 2 s = ''0x'' \<and> (\<forall>c\<in>set s. \<not> separator c))"

definition hash_documented :: "'hash address_env \<Rightarrow> bool" where
  "hash_documented env \<longleftrightarrow>
     (\<forall>s hash. hash_from_str env s = Some hash \<longrightarrow> 20 < length s \<and> (\<forall>c\<in>set s. \<not> separator c \<and> c \<noteq> CHR ''x''))"

section \<open>Facts about decimals\<close>

definition decimal_value :: "nat \<Rightarrow> string \<Rightarrow> nat" where
  "decimal_value acc cs = foldl (\<lambda>n c. 10 * n + the (to_digit c)) acc cs"

lemma decimal_value_simps [simp]:
  "decimal_value acc [] = acc"
  "decimal_value acc (c # cs) = decimal_value (10 * acc + the (to_digit c)) cs"
  "decimal_value acc (cs @ cs') = decimal_value (decimal_value acc cs) cs'"
  by (simp_all add: decimal_value_def)

lemma decimal_value_ge: "acc \<le> decimal_value acc cs"
proof (induction cs arbitrary: acc)
  case (Cons c cs)
  then have "10 * acc + the (to_digit c) \<le> decimal_value acc (c # cs)" by simp
  then show ?case by linarith
qed simp

lemma to_digit_less: "to_digit c = Some d \<Longrightarrow> d < 10"
  by (auto simp: to_digit_def Let_def split: if_splits)

lemma to_digit_char [simp]: "d < 10 \<Longrightarrow> to_digit (digit_char d) = Some d"
  by (simp add: to_digit_def digit_char_def take_bit_nat_eq_self)

text \<open>Parsing digits is evaluating them, with the overflow where the value leaves the type.\<close>

lemma parse_digits_value:
  fixes acc :: "'w::len word"
  assumes "4 \<le> LENGTH('w)" and "\<forall>c\<in>set cs. to_digit c \<noteq> None"
  shows "parse_digits acc cs =
    (if decimal_value (unat acc) cs < 2 ^ LENGTH('w) then Ok (of_nat (decimal_value (unat acc) cs))
     else Err PosOverflow)"
  using assms(2)
proof (induction cs arbitrary: acc)
  case Nil
  then show ?case
    by (simp add: unsigned_less)
next
  case (Cons c cs)
  then obtain d where d: "to_digit c = Some d"
    by auto
  have "(2::nat) ^ 4 \<le> 2 ^ LENGTH('w)"
    using assms(1) by (intro power_increasing) simp_all
  then have small: "n < 2 ^ LENGTH('w)" if "n \<le> 10" for n :: nat
    using that by simp
  have ud: "take_bit LENGTH('w) d = d" and u10: "take_bit LENGTH('w) (10 :: nat) = 10"
    using small [of d] small [of 10] to_digit_less [OF d]
    by (simp_all add: take_bit_nat_eq_self_iff)
  have ge: "10 * unat acc + d \<le> decimal_value (10 * unat acc + d) cs"
    by (rule decimal_value_ge)
  show ?case
  proof (cases "10 * unat acc + d < 2 ^ LENGTH('w)")
    case True
    then have m: "unat (acc * 10) = 10 * unat acc"
      by (subst unat_mult_exact) (simp_all add: u10)
    with True have "unat (acc * 10 + of_nat d) = 10 * unat acc + d"
      by (subst unat_add_exact) (simp_all add: ud unat_of_nat)
    with True m Cons show ?thesis
      by (simp add: d checked_mul_def checked_add_def u10 ud unat_of_nat mult.commute)
  next
    case False
    with ge have "\<not> decimal_value (unat acc) (c # cs) < 2 ^ LENGTH('w)"
      by (simp add: d)
    moreover have "unat (acc * 10) = 10 * unat acc" if "unat acc * 10 < 2 ^ LENGTH('w)"
      using that by (subst unat_mult_exact) (simp_all add: u10)
    ultimately show ?thesis
      using False by (auto simp: d checked_mul_def checked_add_def u10 ud ud [unfolded take_bit_eq_mod] unat_of_nat mult.commute)
  qed
qed

lemma parse_digits_invalid:
  assumes "\<exists>c\<in>set cs. to_digit c = None"
  shows "\<exists>e. parse_digits acc cs = Err e"
  using assms by (induction cs arbitrary: acc) (auto split: option.splits)

lemma show_nat_digits: "c \<in> set (show_nat n) \<Longrightarrow> \<exists>d<10. c = digit_char d"
proof (induction n rule: show_nat.induct)
  case (1 n)
  then show ?case
    by (cases "n < 10") (auto simp: show_nat.simps [of n] intro: exI [of _ "n mod 10"])
qed

lemma show_nat_value: "decimal_value 0 (show_nat n) = n"
proof (induction n rule: show_nat.induct)
  case (1 n)
  then show ?case
    by (cases "n < 10") (simp_all add: show_nat.simps [of n])
qed

lemma show_nat_not_Nil [simp]: "show_nat n \<noteq> []"
  by (simp add: show_nat.simps [of n])

lemma length_show_nat: "n < 10 ^ k \<Longrightarrow> 0 < k \<Longrightarrow> length (show_nat n) \<le> k"
proof (induction n arbitrary: k rule: show_nat.induct)
  case (1 n)
  show ?case
  proof (cases "n < 10")
    case True
    then show ?thesis using 1(3) by (simp add: show_nat.simps [of n])
  next
    case False
    then obtain j where j: "k = Suc j" "0 < j"
      using 1(2,3) by (cases k; cases "k - 1") auto
    then have "n div 10 < 10 ^ j"
      using 1(2) by (simp add: less_mult_imp_div_less mult.commute)
    then show ?thesis
      using 1(1) [OF False] j by (simp add: show_nat.simps [of n] False)
  qed
qed

lemma digit_char_facts:
  assumes "d < 10"
  shows "digit_char d \<noteq> CHR ''+''" "digit_char d \<noteq> CHR ''x''" "\<not> separator (digit_char d)"
proof -
  have "to_digit CHR ''+'' = None" "to_digit CHR ''x'' = None" "to_digit CHR ''.'' = None"
    "to_digit CHR '':'' = None" "to_digit CHR '' '' = None"
    by (simp_all add: to_digit_def)
  with to_digit_char [OF assms] show "digit_char d \<noteq> CHR ''+''" "digit_char d \<noteq> CHR ''x''"
    "\<not> separator (digit_char d)"
    by (auto simp: separator_def)
qed

lemma uint_from_str_show:
  fixes w :: "'w::len word"
  assumes "4 \<le> LENGTH('w)"
  shows "uint_from_str (show_word w) = Ok w"
proof -
  have digits: "\<forall>c\<in>set (show_nat (unat w)). to_digit c \<noteq> None"
    using show_nat_digits by fastforce
  have "hd (show_nat (unat w)) \<in> set (show_nat (unat w))"
    by simp
  then have "hd (show_nat (unat w)) \<noteq> CHR ''+''"
    using show_nat_digits digit_char_facts(1) by metis
  moreover from this have "show_nat (unat w) \<noteq> ''+''"
    by (metis list.sel(1))
  ultimately show ?thesis
    using parse_digits_value [OF assms digits, of 0]
    by (simp add: uint_from_str_def show_word_def show_nat_value unsigned_less)
qed

text \<open>The texts that parse are the nonempty decimals that fit, with an optional plus sign.\<close>

lemma uint_from_str_Ok_iff:
  fixes w :: "'w::len word"
  assumes "4 \<le> LENGTH('w)"
  shows "uint_from_str s = Ok w \<longleftrightarrow>
    (\<exists>cs. (s = cs \<or> s = CHR ''+'' # cs) \<and> cs \<noteq> [] \<and> (\<forall>c\<in>set cs. to_digit c \<noteq> None) \<and> decimal_value 0 cs = unat w)"
proof -
  have plus: "to_digit CHR ''+'' = None"
    by (simp add: to_digit_def)
  have body: "parse_digits 0 cs = Ok w \<longleftrightarrow> (\<forall>c\<in>set cs. to_digit c \<noteq> None) \<and> decimal_value 0 cs = unat w" for cs
  proof (cases "\<forall>c\<in>set cs. to_digit c \<noteq> None")
    case True
    have "of_nat n = w \<longleftrightarrow> n = unat w" if "n < 2 ^ LENGTH('w)" for n
      using that by (auto simp: unat_of_nat take_bit_nat_eq_self)
    moreover have "unat w < 2 ^ LENGTH('w)"
      by (rule unsigned_less)
    ultimately show ?thesis
      using True parse_digits_value [OF assms True, of 0] by auto
  next
    case False
    then show ?thesis
      using parse_digits_invalid [of cs "0 :: 'w word"] by auto
  qed
  show ?thesis
  proof (cases s)
    case (Cons c cs)
    then show ?thesis
      using plus by (cases "c = CHR ''+''"; cases "cs = []") 
        (auto simp: uint_from_str_def body simp del: parse_digits.simps)
  qed (simp add: uint_from_str_def)
qed

lemma show_word_plain: "c \<in> set (show_word w) \<Longrightarrow> \<not> separator c \<and> c \<noteq> CHR ''x''"
  using show_nat_digits digit_char_facts unfolding show_word_def by metis

section \<open>Textual forms\<close>

lemma split_on_not_Nil [simp]: "split_on p cs \<noteq> []"
  by (cases cs) simp_all

lemma split_on_plain: "\<forall>c\<in>set cs. \<not> p c \<Longrightarrow> split_on p cs = [cs]"
  by (induction cs) simp_all

lemma split_on_sep: "\<forall>c\<in>set cs. \<not> p c \<Longrightarrow> p c \<Longrightarrow> split_on p (cs @ c # rest) = cs # split_on p rest"
  by (induction cs) simp_all

lemma split_on_parts: "w \<in> set (split_on p cs) \<Longrightarrow> c \<in> set w \<Longrightarrow> \<not> p c"
proof (induction cs arbitrary: w)
  case (Cons a cs)
  have parts: "hd (split_on p cs) \<in> set (split_on p cs)" "v \<in> set (split_on p cs)"
    if "v \<in> set (tl (split_on p cs)) \<or> v = hd (split_on p cs)" for v
    using that by (auto simp: list.set_sel(2))
  show ?case
  proof (cases "p a")
    case True
    with Cons show ?thesis by auto
  next
    case False
    with Cons.prems have "w = a # hd (split_on p cs) \<or> w \<in> set (tl (split_on p cs))" by simp
    with False Cons.IH [of "hd (split_on p cs)"] Cons.IH [of w] Cons.prems(2) parts show ?thesis by auto
  qed
qed simp

text \<open>
  What a component of an address promises: its text parses back to it and holds none of
  the separators, so that it can be cut out of a longer text.
\<close>

locale textual =
  fixes parse :: "string \<Rightarrow> ('v, 'e) result"
    and render :: "'v \<Rightarrow> string"
    and sep :: "char \<Rightarrow> bool"
  assumes parse_render: "parse (render v) = Ok v"
    and render_plain: "c \<in> set (render v) \<Longrightarrow> \<not> sep c"
begin

lemma split_one: "split_on sep (render v) = [render v]"
  using render_plain by (intro split_on_plain) blast

lemma split_first: "sep c \<Longrightarrow> split_on sep (render v @ c # rest) = render v # split_on sep rest"
  using render_plain by (intro split_on_sep) blast+

lemma parse_first: "sep c \<Longrightarrow> parse (hd (split_on sep (render v @ c # rest))) = Ok v"
  by (simp add: split_first parse_render)

lemma parse_next:
  "\<forall>c\<in>set pre. \<not> sep c \<Longrightarrow> sep c \<Longrightarrow> sep c' \<Longrightarrow>
   parse (split_on sep (pre @ c # render v @ c' # rest) ! 1) = Ok v"
  by (simp add: split_on_sep split_first parse_render)

lemma render_inj: "render v = render v' \<Longrightarrow> v = v'"
  by (metis parse_render result.inject(1))

end

interpretation number_text: textual "uint_from_str :: string \<Rightarrow> (u32, int_error_kind) result" show_word separator
  by unfold_locales (simp_all add: uint_from_str_show show_word_plain)

interpretation index_text: textual "uint_from_str :: string \<Rightarrow> (usize, int_error_kind) result" show_word separator
  by unfold_locales (simp_all add: uint_from_str_show show_word_plain)

section \<open>Splitting at the first separators\<close>

lemma split_on_single: "split_on p s = [w] \<longleftrightarrow> s = w \<and> (\<forall>c\<in>set s. \<not> p c)"
proof (induction s arbitrary: w)
  case (Cons a s)
  show ?case
  proof (cases "p a")
    case False
    obtain x xs where split: "split_on p s = x # xs"
      by (cases "split_on p s") simp_all
    then show ?thesis
      using False Cons.IH [of x] split_on_plain [of s p] by auto
  qed simp
qed auto

lemma split_on_Cons:
  "split_on p s = w # v # ws \<longleftrightarrow>
     (\<exists>c rest. s = w @ c # rest \<and> (\<forall>c\<in>set w. \<not> p c) \<and> p c \<and> split_on p rest = v # ws)"
proof (induction s arbitrary: w)
  case (Cons a s)
  show ?case
  proof (cases "p a")
    case True
    then show ?thesis by (auto simp: Cons_eq_append_conv)
  next
    case False
    obtain x xs where split: "split_on p s = x # xs"
      by (cases "split_on p s") simp_all
    have "split_on p (a # s) = w # v # ws \<longleftrightarrow> (\<exists>w'. w = a # w' \<and> split_on p s = w' # v # ws)"
      using False by (auto simp: split)
    also have "\<dots> \<longleftrightarrow> (\<exists>c rest. a # s = w @ c # rest \<and> (\<forall>c\<in>set w. \<not> p c) \<and> p c \<and> split_on p rest = v # ws)"
      using False by (auto simp: Cons.IH Cons_eq_append_conv)
    finally show ?thesis .
  qed
qed simp

lemma first_separator_unique:
  assumes "w @ c # r = w' @ c' # r'" "\<forall>c\<in>set w. \<not> p c" "p c" "\<forall>c\<in>set w'. \<not> p c" "p c'"
  shows "w' = w \<and> r' = r"
  using assms
proof (induction w arbitrary: w')
  case Nil
  then show ?case by (cases w') auto
next
  case (Cons a w)
  then show ?case by (cases w') auto
qed

lemma hd_split_on: "split_on p s \<noteq> [] \<and> hd (split_on p s) = takeWhile (\<lambda>c. \<not> p c) s"
  by (induction s) auto

lemma uint_from_str_no_x: "CHR ''x'' \<in> set s \<Longrightarrow> \<exists>e. uint_from_str s = Err e"
proof -
  assume x: "CHR ''x'' \<in> set s"
  have "to_digit CHR ''x'' = None"
    by (simp add: to_digit_def)
  then have invalid: "\<exists>e. parse_digits 0 cs = Err e" if "CHR ''x'' \<in> set cs" for cs
    using that by (intro parse_digits_invalid) blast
  with x show ?thesis
    by (cases s) (auto simp: uint_from_str_def simp del: parse_digits.simps)
qed

end
