(* ===== verification/Inspector.thy ===== *)
theory Inspector
  imports Inspect_Address
begin

text \<open>
  The inspector of \<open>node/inspect/src/lib.rs\<close> and its command, \<open>node/inspect/src/command.rs\<close>:
  \<open>DebugPrinter\<close>, \<open>Inspector::get_block\<close>, \<open>block\<close>, \<open>extrinsic\<close> and \<open>InspectCmd::run\<close>.
  The block type (its codec, parts and \<open>Debug\<close> texts) and the chain the inspector reads are
  Substrate's, the fields of the records \<open>block_type\<close> and \<open>chain_access\<close>. The trait
  \<open>PrettyPrinter\<close> is the locale \<open>pretty_printer\<close>, with the law of a formatter: printing
  appends to the buffer and does not look at it.
\<close>

section \<open>The parameters\<close>

datatype ('hash, 'number) block_id = BlockId_Hash 'hash | BlockId_Number 'number

record ('block, 'header, 'ext) block_type =
  block_decode :: "u8 list \<Rightarrow> ('block, string) result"
  block_encode :: "'block \<Rightarrow> u8 list"
  block_new :: "'header \<Rightarrow> 'ext list \<Rightarrow> 'block"
  block_header :: "'block \<Rightarrow> 'header"
  block_extrinsics :: "'block \<Rightarrow> 'ext list"
  block_debug :: "'block \<Rightarrow> string"
  header_debug :: "'header \<Rightarrow> string"
  ext_decode :: "u8 list \<Rightarrow> ('ext, string) result"
  ext_encode :: "'ext \<Rightarrow> u8 list"
  ext_debug :: "'ext \<Rightarrow> string"
  hex_display :: "u8 list \<Rightarrow> string"

record ('hash, 'number, 'header, 'ext) chain_access =
  chain_block_body :: "('hash, 'number) block_id \<Rightarrow> ('ext list option, string) result"
  chain_header :: "('hash, 'number) block_id \<Rightarrow> ('header option, string) result"
  block_id_debug :: "('hash, 'number) block_id \<Rightarrow> string"

section \<open>Printers\<close>

text \<open>A formatter is the text written so far; \<open>fmt::Result\<close> carries no error data.\<close>

type_synonym fmt_result = "(string, unit) result"

record ('block, 'ext) printer =
  fmt_block :: "'block \<Rightarrow> string \<Rightarrow> fmt_result"
  fmt_extrinsic :: "'ext \<Rightarrow> string \<Rightarrow> fmt_result"

definition newline :: string where
  "newline = [char_of (10 :: nat)]"

definition writeln :: "string \<Rightarrow> string \<Rightarrow> fmt_result" where
  "writeln text buf = Ok (buf @ text @ newline)"

text \<open>\<open>format!\<close> of a \<open>Display\<close>: a fresh string, and a panic (\<open>None\<close>) if the formatting fails.\<close>

definition format_display :: "(string \<Rightarrow> fmt_result) \<Rightarrow> string option" where
  "format_display display = (case display [] of Ok text \<Rightarrow> Some text | Err _ \<Rightarrow> None)"

definition debug_fmt_extrinsic :: "('block, 'header, 'ext) block_type \<Rightarrow> 'ext \<Rightarrow> string \<Rightarrow> fmt_result" where
  "debug_fmt_extrinsic B ext buf =
     and_then (writeln ('' '' @ ext_debug B ext) buf) (\<lambda>buf.
     and_then (writeln ('' Bytes: '' @ hex_display B (ext_encode B ext)) buf) (\<lambda>buf.
     Ok buf))"

fun debug_fmt_extrinsics :: "('block, 'header, 'ext) block_type \<Rightarrow> nat \<Rightarrow> 'ext list \<Rightarrow> string \<Rightarrow> fmt_result" where
  "debug_fmt_extrinsics B idx [] buf = Ok buf"
| "debug_fmt_extrinsics B idx (ex # exs) buf =
     and_then (writeln (''- '' @ show_nat idx @ '':'') buf) (\<lambda>buf.
     and_then (debug_fmt_extrinsic B ex buf) (\<lambda>buf.
     debug_fmt_extrinsics B (Suc idx) exs buf))"

definition debug_fmt_block :: "('block, 'header, 'ext) block_type \<Rightarrow> 'block \<Rightarrow> string \<Rightarrow> fmt_result" where
  "debug_fmt_block B block buf =
     and_then (writeln ''Header:'' buf) (\<lambda>buf.
     and_then (writeln (header_debug B (block_header B block)) buf) (\<lambda>buf.
     and_then (writeln (''Block bytes: '' @ hex_display B (block_encode B block)) buf) (\<lambda>buf.
     and_then (writeln (''Extrinsics ('' @ show_nat (length (block_extrinsics B block)) @ '')'') buf) (\<lambda>buf.
     debug_fmt_extrinsics B 0 (block_extrinsics B block) buf))))"

definition DebugPrinter :: "('block, 'header, 'ext) block_type \<Rightarrow> ('block, 'ext) printer" where
  "DebugPrinter B = \<lparr>fmt_block = debug_fmt_block B, fmt_extrinsic = debug_fmt_extrinsic B\<rparr>"

section \<open>The inspector\<close>

datatype inspect_error = Codec string | Blockchain string | NotFound string

text \<open>\<open>Error::source\<close>: the error a variant wraps, here its text.\<close>

fun inspect_error_source :: "inspect_error \<Rightarrow> string option" where
  "inspect_error_source (Codec e) = Some e"
| "inspect_error_source (Blockchain e) = Some e"
| "inspect_error_source (NotFound _) = None"

definition get_block ::
  "('block, 'header, 'ext) block_type \<Rightarrow> ('hash, 'number, 'header, 'ext) chain_access
   \<Rightarrow> ('hash, 'number) BlockAddress \<Rightarrow> ('block, inspect_error) result" where
  "get_block B chain input =
     (case input of
        BlockAddress_Bytes bytes \<Rightarrow> map_err Codec (block_decode B bytes)
      | BlockAddress_Number number \<Rightarrow>
          (let bid = BlockId_Number number;
               not_found = ''Could not find block '' @ block_id_debug chain bid
           in and_then (map_err Blockchain (chain_block_body chain bid)) (\<lambda>found.
              and_then (ok_or (NotFound not_found) found) (\<lambda>body.
              and_then (map_err Blockchain (chain_header chain bid)) (\<lambda>found.
              and_then (ok_or (NotFound not_found) found) (\<lambda>header.
              Ok (block_new B header body))))))
      | BlockAddress_Hash hash \<Rightarrow>
          (let bid = BlockId_Hash hash;
               not_found = ''Could not find block '' @ block_id_debug chain bid
           in and_then (map_err Blockchain (chain_block_body chain bid)) (\<lambda>found.
              and_then (ok_or (NotFound not_found) found) (\<lambda>body.
              and_then (map_err Blockchain (chain_header chain bid)) (\<lambda>found.
              and_then (ok_or (NotFound not_found) found) (\<lambda>header.
              Ok (block_new B header body)))))))"

text \<open>\<open>block\<close> and \<open>extrinsic\<close> return \<open>None\<close> where \<open>format!\<close> panics.\<close>

definition inspect_block ::
  "('block, 'header, 'ext) block_type \<Rightarrow> ('block, 'ext) printer \<Rightarrow> ('hash, 'number, 'header, 'ext) chain_access
   \<Rightarrow> ('hash, 'number) BlockAddress \<Rightarrow> (string, inspect_error) result option" where
  "inspect_block B printer chain input =
     (case get_block B chain input of
        Err e \<Rightarrow> Some (Err e)
      | Ok block \<Rightarrow> map_option Ok (format_display (fmt_block printer block)))"

definition find_extrinsic ::
  "('block, 'header, 'ext) block_type \<Rightarrow> ('hash, 'number, 'header, 'ext) chain_access
   \<Rightarrow> ('hash, 'number) ExtrinsicAddress \<Rightarrow> ('ext, inspect_error) result" where
  "find_extrinsic B chain input =
     (case input of
        ExtrinsicAddress_Block block index \<Rightarrow>
          and_then (get_block B chain block) (\<lambda>block.
          ok_or (NotFound (''Could not find extrinsic '' @ show_word index @ '' in block '' @ block_debug B block))
            (if unat index < length (block_extrinsics B block)
             then Some (block_extrinsics B block ! unat index) else None))
      | ExtrinsicAddress_Bytes bytes \<Rightarrow> map_err Codec (ext_decode B bytes))"

definition inspect_extrinsic ::
  "('block, 'header, 'ext) block_type \<Rightarrow> ('block, 'ext) printer \<Rightarrow> ('hash, 'number, 'header, 'ext) chain_access
   \<Rightarrow> ('hash, 'number) ExtrinsicAddress \<Rightarrow> (string, inspect_error) result option" where
  "inspect_extrinsic B printer chain input =
     (case find_extrinsic B chain input of
        Err e \<Rightarrow> Some (Err e)
      | Ok ext \<Rightarrow> map_option Ok (format_display (fmt_extrinsic printer ext)))"

section \<open>The struct\<close>

text \<open>\<open>Inspector\<close>: its printer and its chain. \<open>new\<close> takes the default printer.\<close>

record ('block, 'hash, 'number, 'header, 'ext) inspector =
  inspector_printer :: "('block, 'ext) printer"
  inspector_chain :: "('hash, 'number, 'header, 'ext) chain_access"

definition with_printer ::
  "('hash, 'number, 'header, 'ext) chain_access \<Rightarrow> ('block, 'ext) printer
   \<Rightarrow> ('block, 'hash, 'number, 'header, 'ext) inspector" where
  "with_printer chain printer = \<lparr>inspector_printer = printer, inspector_chain = chain\<rparr>"

definition inspector_new ::
  "('block, 'header, 'ext) block_type \<Rightarrow> ('hash, 'number, 'header, 'ext) chain_access
   \<Rightarrow> ('block, 'hash, 'number, 'header, 'ext) inspector" where
  "inspector_new B chain = with_printer chain (DebugPrinter B)"

lemma inspector_new_fields [simp]:
  "inspector_printer (inspector_new B chain) = DebugPrinter B"
  "inspector_chain (inspector_new B chain) = chain"
  by (simp_all add: inspector_new_def with_printer_def)

section \<open>The command\<close>

datatype InspectSubCmd = InspectSubCmd_Block string | InspectSubCmd_Extrinsic string

text \<open>
  \<open>InspectCmd\<close>: the subcommand and the two groups of options that \<open>sc_cli\<close> parses, opaque here,
  with its \<open>CliConfiguration\<close>.
\<close>

record ('shared, 'import) InspectCmd =
  inspect_command :: InspectSubCmd
  inspect_shared_params :: 'shared
  inspect_import_params :: 'import

definition cmd_shared_params :: "('shared, 'import) InspectCmd \<Rightarrow> 'shared" where
  "cmd_shared_params self = inspect_shared_params self"

definition cmd_import_params :: "('shared, 'import) InspectCmd \<Rightarrow> 'import option" where
  "cmd_import_params self = Some (inspect_import_params self)"

text \<open>The texts of the errors: \<open>derive_more::Display\<close> prints the one field of each variant.\<close>

fun inspect_error_text :: "inspect_error \<Rightarrow> string" where
  "inspect_error_text (Codec e) = e"
| "inspect_error_text (Blockchain e) = e"
| "inspect_error_text (NotFound e) = e"

text \<open>
  \<open>InspectCmd::run\<close> with the client it opened (opening may fail): what it prints to the
  standard output, or the error it returns, and \<open>None\<close> for a panic.
\<close>

definition inspect_run ::
  "('block, 'header, 'ext) block_type \<Rightarrow> 'hash address_env
   \<Rightarrow> (('hash, 'w::len word, 'header, 'ext) chain_access, string) result \<Rightarrow> InspectSubCmd
   \<Rightarrow> (string, string) result option" where
  "inspect_run B env new_full_client command =
     (case new_full_client of
        Err e \<Rightarrow> Some (Err e)
      | Ok client \<Rightarrow>
          (let inspect = inspector_new B client in
           case command of
             InspectSubCmd_Block input \<Rightarrow>
               (case BlockAddress_from_str env input of
                  Err e \<Rightarrow> Some (Err e)
                | Ok input \<Rightarrow>
                    map_option (\<lambda>res. map_ok (\<lambda>text. text @ newline) (map_err inspect_error_text res))
                      (inspect_block B (inspector_printer inspect) (inspector_chain inspect) input))
           | InspectSubCmd_Extrinsic input \<Rightarrow>
               (case ExtrinsicAddress_from_str env input of
                  Err e \<Rightarrow> Some (Err e)
                | Ok input \<Rightarrow>
                    map_option (\<lambda>res. map_ok (\<lambda>text. text @ newline) (map_err inspect_error_text res))
                      (inspect_extrinsic B (inspector_printer inspect) (inspector_chain inspect) input))))"

section \<open>The law of printers\<close>

locale pretty_printer =
  fixes printer :: "('block, 'ext) printer"
  assumes block_appends:
      "fmt_block printer block buf = map_ok (\<lambda>text. buf @ text) (fmt_block printer block [])"
    and extrinsic_appends:
      "fmt_extrinsic printer ext buf = map_ok (\<lambda>text. buf @ text) (fmt_extrinsic printer ext [])"
begin

lemma block_text:
  "format_display (fmt_block printer block) = Some text \<Longrightarrow> fmt_block printer block buf = Ok (buf @ text)"
  using block_appends [of block buf] by (auto simp: format_display_def split: result.splits)

lemma extrinsic_text:
  "format_display (fmt_extrinsic printer ext) = Some text \<Longrightarrow> fmt_extrinsic printer ext buf = Ok (buf @ text)"
  using extrinsic_appends [of ext buf] by (auto simp: format_display_def split: result.splits)

lemma block_never_stops:
  "format_display (fmt_block printer block) \<noteq> None \<Longrightarrow> is_ok (fmt_block printer block buf)"
  using block_text by fastforce

end

text \<open>The text of an extrinsic and of the numbered list, as the printer writes them.\<close>

definition extrinsic_lines :: "('block, 'header, 'ext) block_type \<Rightarrow> 'ext \<Rightarrow> string" where
  "extrinsic_lines B ext =
     '' '' @ ext_debug B ext @ newline @ '' Bytes: '' @ hex_display B (ext_encode B ext) @ newline"

definition numbered_lines :: "('block, 'header, 'ext) block_type \<Rightarrow> nat \<times> 'ext \<Rightarrow> string" where
  "numbered_lines B entry = ''- '' @ show_nat (fst entry) @ '':'' @ newline @ extrinsic_lines B (snd entry)"

lemma debug_fmt_extrinsic_lines: "debug_fmt_extrinsic B ext buf = Ok (buf @ extrinsic_lines B ext)"
  by (simp add: debug_fmt_extrinsic_def writeln_def extrinsic_lines_def)

lemma debug_fmt_extrinsics_lines:
  "debug_fmt_extrinsics B idx exs buf = Ok (buf @ concat (map (numbered_lines B) (enumerate idx exs)))"
  by (induction exs arbitrary: idx buf)
    (simp_all add: debug_fmt_extrinsic_lines writeln_def numbered_lines_def)

definition block_lines :: "('block, 'header, 'ext) block_type \<Rightarrow> 'block \<Rightarrow> string" where
  "block_lines B block =
     ''Header:'' @ newline @ header_debug B (block_header B block) @ newline
     @ ''Block bytes: '' @ hex_display B (block_encode B block) @ newline
     @ ''Extrinsics ('' @ show_nat (length (block_extrinsics B block)) @ '')'' @ newline
     @ concat (map (numbered_lines B) (enumerate 0 (block_extrinsics B block)))"

lemma debug_fmt_block_lines: "debug_fmt_block B block buf = Ok (buf @ block_lines B block)"
  by (simp add: debug_fmt_block_def debug_fmt_extrinsics_lines writeln_def block_lines_def)

interpretation debug_printer: pretty_printer "DebugPrinter B" for B
  by unfold_locales (simp_all add: DebugPrinter_def debug_fmt_block_lines debug_fmt_extrinsic_lines)

lemma debug_display:
  "format_display (fmt_block (DebugPrinter B) block) = Some (block_lines B block)"
  "format_display (fmt_extrinsic (DebugPrinter B) ext) = Some (extrinsic_lines B ext)"
  by (simp_all add: format_display_def DebugPrinter_def debug_fmt_block_lines debug_fmt_extrinsic_lines)

section \<open>Looking blocks up\<close>

text \<open>A chain that answers an id with this header and body.\<close>

definition chain_has ::
  "('hash, 'number, 'header, 'ext) chain_access \<Rightarrow> ('hash, 'number) block_id \<Rightarrow> 'header \<Rightarrow> 'ext list \<Rightarrow> bool" where
  "chain_has chain bid header body \<longleftrightarrow>
     chain_block_body chain bid = Ok (Some body) \<and> chain_header chain bid = Ok (Some header)"

text \<open>The id of an address that is not raw bytes.\<close>

fun address_id :: "('hash, 'number) BlockAddress \<Rightarrow> ('hash, 'number) block_id option" where
  "address_id (BlockAddress_Hash hash) = Some (BlockId_Hash hash)"
| "address_id (BlockAddress_Number number) = Some (BlockId_Number number)"
| "address_id (BlockAddress_Bytes bytes) = None"

definition lookup_block ::
  "('block, 'header, 'ext) block_type \<Rightarrow> ('hash, 'number, 'header, 'ext) chain_access
   \<Rightarrow> ('hash, 'number) block_id \<Rightarrow> ('block, inspect_error) result" where
  "lookup_block B chain bid =
     (case (chain_block_body chain bid, chain_header chain bid) of
        (Err e, _) \<Rightarrow> Err (Blockchain e)
      | (Ok None, _) \<Rightarrow> Err (NotFound (''Could not find block '' @ block_id_debug chain bid))
      | (Ok (Some _), Err e) \<Rightarrow> Err (Blockchain e)
      | (Ok (Some _), Ok None) \<Rightarrow> Err (NotFound (''Could not find block '' @ block_id_debug chain bid))
      | (Ok (Some body), Ok (Some header)) \<Rightarrow> Ok (block_new B header body))"

lemma get_block_lookup: "address_id input = Some bid \<Longrightarrow> get_block B chain input = lookup_block B chain bid"
  by (cases input)
    (auto simp: get_block_def lookup_block_def Let_def split: result.splits option.splits)

lemma lookup_block_Ok:
  "lookup_block B chain bid = Ok block \<longleftrightarrow>
     (\<exists>header body. chain_has chain bid header body \<and> block = block_new B header body)"
  by (auto simp: lookup_block_def chain_has_def split: result.splits option.splits)

lemma inspect_run_returns: "inspect_run B env opened command \<noteq> None"
  by (simp add: inspect_run_def Let_def inspect_block_def inspect_extrinsic_def debug_display
      split: result.split InspectSubCmd.split)

end
