(* ===== verification/Runtime_Constants.thy ===== *)
theory Runtime_Constants
  imports Complex_Main Rust_Int
begin

text \<open>
  The node's primitive types (\<open>node/primitives/src/lib.rs\<close>), the money and time constants
  of \<open>node/runtime/src/constants.rs\<close> and the runtime parameters of
  \<open>node/runtime/src/lib.rs\<close>, each at its declared width. The per-billion arithmetic of
  \<open>sp_runtime\<close> is the record \<open>perbill_api\<close>, an argument.
\<close>

section \<open>Primitive types\<close>

type_synonym block_number = u32
type_synonym account_index = u32
type_synonym balance = u128
type_synonym moment = u64
type_synonym tx_index = u32
type_synonym weight = u64

section \<open>Currency\<close>

definition U_MITO :: balance where "U_MITO = 1000000"

definition MITO :: balance where "MITO = 1000000 * U_MITO"

definition deposit :: "u32 \<Rightarrow> u32 \<Rightarrow> balance" where
  "deposit items bytes = ucast items * 15 * MITO div 100 + ucast bytes * 6 * MITO div 100"

section \<open>Time\<close>

definition MILLISECS_PER_BLOCK :: moment where "MILLISECS_PER_BLOCK = 3000"

definition SECS_PER_BLOCK :: moment where "SECS_PER_BLOCK = MILLISECS_PER_BLOCK div 1000"

definition SLOT_DURATION :: moment where "SLOT_DURATION = MILLISECS_PER_BLOCK"

definition PRIMARY_PROBABILITY :: "u64 \<times> u64" where "PRIMARY_PROBABILITY = (1, 4)"

definition MINUTES :: block_number where "MINUTES = 60 div ucast SECS_PER_BLOCK"

definition HOURS :: block_number where "HOURS = MINUTES * 60"

definition DAYS :: block_number where "DAYS = HOURS * 24"

definition EPOCH_DURATION_IN_BLOCKS :: block_number where "EPOCH_DURATION_IN_BLOCKS = 10 * MINUTES"

text \<open>The \<open>f64\<close> computation is exact on these values: rationals stand for the floats.\<close>

definition SLOT_FILL_RATE :: rat where
  "SLOT_FILL_RATE = of_nat (unat MILLISECS_PER_BLOCK) / of_nat (unat SLOT_DURATION)"

definition EPOCH_DURATION_IN_SLOTS :: u64 where
  "EPOCH_DURATION_IN_SLOTS = of_int \<lfloor>of_nat (unat EPOCH_DURATION_IN_BLOCKS) * SLOT_FILL_RATE\<rfloor>"

section \<open>Per-billion arithmetic\<close>

text \<open>
  \<open>Perbill\<close> of \<open>sp_runtime\<close>. \<open>perbill_documented\<close> is its documented behaviour on exact
  cases: percentages, saturating subtraction, and products of at most one that are whole.
\<close>

record 'p perbill_api =
  from_percent :: "u32 \<Rightarrow> 'p"
  from_rational_approximation :: "balance \<Rightarrow> balance \<Rightarrow> 'p"
  deconstruct :: "'p \<Rightarrow> u32"
  perbill_saturating_sub :: "'p \<Rightarrow> 'p \<Rightarrow> 'p"
  perbill_mul :: "'p \<Rightarrow> weight \<Rightarrow> weight"

definition perbill_documented :: "'p perbill_api \<Rightarrow> bool" where
  "perbill_documented P \<longleftrightarrow>
     (\<forall>x. unat x \<le> 100 \<longrightarrow> unat (deconstruct P (from_percent P x)) = unat x * 10000000) \<and>
     (\<forall>p q. unat (deconstruct P (perbill_saturating_sub P p q)) = unat (deconstruct P p) - unat (deconstruct P q)) \<and>
     (\<forall>p w. unat (deconstruct P p) \<le> 1000000000 \<longrightarrow> 1000000000 dvd unat (deconstruct P p) * unat w \<longrightarrow>
        unat (perbill_mul P p w) = unat (deconstruct P p) * unat w div 1000000000)"

section \<open>Runtime parameters\<close>

definition AVERAGE_ON_INITIALIZE_WEIGHT :: "'p perbill_api \<Rightarrow> 'p" where
  "AVERAGE_ON_INITIALIZE_WEIGHT P = from_percent P 10"

definition BlockHashCount :: block_number where "BlockHashCount = 2400"

text \<open>The weight of a second of compute is a constant of \<open>frame_support\<close>.\<close>

definition MaximumBlockWeight :: "weight \<Rightarrow> weight" where
  "MaximumBlockWeight WEIGHT_PER_SECOND = 2 * WEIGHT_PER_SECOND"

definition AvailableBlockRatio :: "'p perbill_api \<Rightarrow> 'p" where
  "AvailableBlockRatio P = from_percent P 75"

definition MaximumExtrinsicWeight :: "'p perbill_api \<Rightarrow> weight \<Rightarrow> weight" where
  "MaximumExtrinsicWeight P WEIGHT_PER_SECOND =
     perbill_mul P (perbill_saturating_sub P (AvailableBlockRatio P) (AVERAGE_ON_INITIALIZE_WEIGHT P))
       (MaximumBlockWeight WEIGHT_PER_SECOND)"

definition MaximumBlockLength :: u32 where "MaximumBlockLength = 5 * 1024 * 1024"

definition runtime_const_assert :: "'p perbill_api \<Rightarrow> bool" where
  "runtime_const_assert P \<longleftrightarrow>
     deconstruct P (AVERAGE_ON_INITIALIZE_WEIGHT P) \<le> deconstruct P (AvailableBlockRatio P)"

definition DepositBase :: balance where "DepositBase = deposit 1 88"

definition DepositFactor :: balance where "DepositFactor = deposit 0 32"

definition MaxSignatories :: u16 where "MaxSignatories = 100"

definition EpochDuration :: u64 where "EpochDuration = EPOCH_DURATION_IN_SLOTS"

definition ExpectedBlockTime :: moment where "ExpectedBlockTime = MILLISECS_PER_BLOCK"

definition IndexDeposit :: balance where "IndexDeposit = 1 * U_MITO"

definition ExistentialDeposit :: balance where "ExistentialDeposit = 50000 * U_MITO"

definition MaxLocks :: u32 where "MaxLocks = 50"

definition TransactionByteFee :: balance where "TransactionByteFee = 1 * U_MITO"

text \<open>
  The parameters of the fee adjustment: \<open>Perquintill::from_percent\<close> and
  \<open>Multiplier::saturating_from_rational\<close> are Substrate's, arguments.
\<close>

definition TargetBlockFullness :: "(u64 \<Rightarrow> 'q) \<Rightarrow> 'q" where
  "TargetBlockFullness perquintill_from_percent = perquintill_from_percent 25"

definition AdjustmentVariable :: "(u128 \<Rightarrow> u128 \<Rightarrow> 'm) \<Rightarrow> 'm" where
  "AdjustmentVariable saturating_from_rational = saturating_from_rational 3 100000"

definition MinimumMultiplier :: "(u128 \<Rightarrow> u128 \<Rightarrow> 'm) \<Rightarrow> 'm" where
  "MinimumMultiplier saturating_from_rational = saturating_from_rational 1 1000000000"

definition MinimumPeriod :: moment where "MinimumPeriod = SLOT_DURATION div 2"

definition UncleGenerations :: block_number where "UncleGenerations = 5"

definition DisabledValidatorsThreshold :: "'p perbill_api \<Rightarrow> 'p" where
  "DisabledValidatorsThreshold P = from_percent P 17"

text \<open>The arguments of \<open>curve!\<close>, in millionths but for the number of pieces.\<close>

record reward_curve =
  min_inflation :: u32
  max_inflation :: u32
  ideal_stake :: u32
  falloff :: u32
  max_piece_count :: u32
  test_precision :: u32

definition REWARD_CURVE :: reward_curve where
  "REWARD_CURVE =
     \<lparr>min_inflation = 50000,
      max_inflation = 150000,
      ideal_stake = 666666,
      falloff = 50000,
      max_piece_count = 100,
      test_precision = 5000\<rparr>"

definition RewardCurve :: reward_curve where "RewardCurve = REWARD_CURVE"

definition SessionsPerEra :: u32 where "SessionsPerEra = 10"

definition BondingDuration :: u32 where "BondingDuration = 24 * 28"

definition SlashDeferDuration :: u32 where "SlashDeferDuration = 24 * 7"

definition MaxNominatorRewardedPerValidator :: u32 where "MaxNominatorRewardedPerValidator = 64"

definition ElectionLookahead :: block_number where "ElectionLookahead = 25"

definition MaxIterations :: u32 where "MaxIterations = 5"

definition MinSolutionScoreBump :: "'p perbill_api \<Rightarrow> 'p" where
  "MinSolutionScoreBump P = from_rational_approximation P 5 10000"

definition BasicDeposit :: balance where "BasicDeposit = 10 * MITO"

definition FieldDeposit :: balance where "FieldDeposit = 250 * U_MITO"

definition SubAccountDeposit :: balance where "SubAccountDeposit = 2 * MITO"

definition MaxSubAccounts :: u32 where "MaxSubAccounts = 100"

definition MaxAdditionalFields :: u32 where "MaxAdditionalFields = 100"

definition MaxRegistrars :: u32 where "MaxRegistrars = 20"

definition SessionDuration :: block_number where "SessionDuration = ucast EPOCH_DURATION_IN_SLOTS"

definition ImOnlineUnsignedPriority :: u64 where "ImOnlineUnsignedPriority = - 1"

definition StakingUnsignedPriority :: u64 where "StakingUnsignedPriority = - 1 div 2"

definition OffencesWeightSoftLimit :: "'p perbill_api \<Rightarrow> weight \<Rightarrow> weight" where
  "OffencesWeightSoftLimit P WEIGHT_PER_SECOND =
     perbill_mul P (from_percent P 60) (MaximumBlockWeight WEIGHT_PER_SECOND)"

definition WindowSize :: block_number where "WindowSize = 101"

definition ReportLatency :: block_number where "ReportLatency = 1000"

definition DatalogWindowSize :: u64 where "DatalogWindowSize = 128"

definition DatalogMaximumMessageSize :: usize where "DatalogMaximumMessageSize = 512"

section \<open>Values\<close>

lemma U_MITO_value: "unat U_MITO = 1000000"
  by (simp add: U_MITO_def)

lemma MITO_value: "unat MITO = 1000000000000"
  by (simp add: MITO_def U_MITO_def)

lemma Perbill_percents:
  assumes "perbill_documented P"
  shows "unat (deconstruct P (DisabledValidatorsThreshold P)) = 170000000"
  using assms by (simp add: perbill_documented_def DisabledValidatorsThreshold_def)

text \<open>
  The ranges the macro documents for its arguments: the inflation grows up to the ideal
  stake, which leaves room on both sides, and the curve has at least two pieces.
\<close>

lemma reward_curve_ranges:
  "0 < min_inflation RewardCurve" "min_inflation RewardCurve < max_inflation RewardCurve"
  "max_inflation RewardCurve \<le> 1000000"
  "100000 \<le> ideal_stake RewardCurve" "ideal_stake RewardCurve \<le> 900000"
  "10000 \<le> falloff RewardCurve" "falloff RewardCurve \<le> 1000000"
  "2 \<le> max_piece_count RewardCurve" "max_piece_count RewardCurve \<le> 1000"
  "test_precision RewardCurve \<le> 1000000"
  by (simp_all add: RewardCurve_def REWARD_CURVE_def)

lemma time_values:
  "unat SECS_PER_BLOCK = 3" "unat SLOT_DURATION = 3000" "unat MINUTES = 20" "unat HOURS = 1200"
  "unat DAYS = 28800" "unat EPOCH_DURATION_IN_BLOCKS = 200" "EPOCH_DURATION_IN_SLOTS = 200"
  by (simp_all add: SECS_PER_BLOCK_def SLOT_DURATION_def MINUTES_def HOURS_def DAYS_def
      EPOCH_DURATION_IN_BLOCKS_def EPOCH_DURATION_IN_SLOTS_def SLOT_FILL_RATE_def MILLISECS_PER_BLOCK_def)

end
