(* ===== verification/Chain_Spec.thy ===== *)
theory Chain_Spec
  imports Runtime_Constants
begin

text \<open>
  The chain specifications of \<open>node/cli/src/chain_spec.rs\<close>: the derivation of development
  keys and the genesis configuration of a test network. Deriving a key pair from a secret
  string is Substrate's (\<open>Pair::from_string\<close>), a field of the record \<open>key_env\<close> per key type;
  it fails for an invalid string, where the code panics: \<open>None\<close>.
\<close>

section \<open>Keys\<close>

record ('sr, 'account, 'grandpa, 'babe, 'im_online, 'discovery) key_env =
  sr25519_from_string :: "string \<Rightarrow> 'sr option"
  grandpa_from_string :: "string \<Rightarrow> 'grandpa option"
  babe_from_string :: "string \<Rightarrow> 'babe option"
  im_online_from_string :: "string \<Rightarrow> 'im_online option"
  discovery_from_string :: "string \<Rightarrow> 'discovery option"
  into_account :: "'sr \<Rightarrow> 'account"

text \<open>The tuple of an authority: stash, controller and the keys of the four protocols.\<close>

type_synonym ('account, 'grandpa, 'babe, 'im_online, 'discovery) authority =
  "'account \<times> 'account \<times> 'grandpa \<times> 'babe \<times> 'im_online \<times> 'discovery"

definition get_from_seed :: "(string \<Rightarrow> 'public option) \<Rightarrow> string \<Rightarrow> 'public option" where
  "get_from_seed from_string seed = from_string (''//'' @ seed)"

definition get_account_id_from_seed ::
  "('sr, 'account, 'grandpa, 'babe, 'im_online, 'discovery) key_env \<Rightarrow> string \<Rightarrow> 'account option" where
  "get_account_id_from_seed K seed = map_option (into_account K) (get_from_seed (sr25519_from_string K) seed)"

definition authority_keys_from_seed ::
  "('sr, 'account, 'grandpa, 'babe, 'im_online, 'discovery) key_env \<Rightarrow> string
   \<Rightarrow> ('account, 'grandpa, 'babe, 'im_online, 'discovery) authority option" where
  "authority_keys_from_seed K seed =
     Option.bind (get_account_id_from_seed K (seed @ ''//stash'')) (\<lambda>stash.
     Option.bind (get_account_id_from_seed K seed) (\<lambda>controller.
     Option.bind (get_from_seed (grandpa_from_string K) seed) (\<lambda>grandpa.
     Option.bind (get_from_seed (babe_from_string K) seed) (\<lambda>babe.
     Option.bind (get_from_seed (im_online_from_string K) seed) (\<lambda>im_online.
     Option.bind (get_from_seed (discovery_from_string K) seed) (\<lambda>authority_discovery.
     Some (stash, controller, grandpa, babe, im_online, authority_discovery)))))))"

record ('grandpa, 'babe, 'im_online, 'discovery) SessionKeys =
  key_grandpa :: 'grandpa
  key_babe :: 'babe
  key_im_online :: 'im_online
  key_authority_discovery :: 'discovery

definition session_keys ::
  "'grandpa \<Rightarrow> 'babe \<Rightarrow> 'im_online \<Rightarrow> 'discovery \<Rightarrow> ('grandpa, 'babe, 'im_online, 'discovery) SessionKeys" where
  "session_keys grandpa babe im_online authority_discovery =
     \<lparr>key_grandpa = grandpa,
      key_babe = babe,
      key_im_online = im_online,
      key_authority_discovery = authority_discovery\<rparr>"

section \<open>The genesis configuration\<close>

datatype staker_status = StakerStatus_Validator | StakerStatus_Idle

text \<open>The fields of \<open>StakingConfig\<close> that the code sets; the rest are the pallet's defaults.\<close>

record ('account, 'perbill) StakingConfig =
  validator_count :: u32
  minimum_validator_count :: u32
  stakers :: "('account \<times> 'account \<times> balance \<times> staker_status) list"
  invulnerables :: "'account list"
  slash_reward_fraction :: 'perbill

record ('account, 'perbill, 'grandpa, 'babe, 'im_online, 'discovery) GenesisConfig =
  genesis_system :: "u8 list option"
  genesis_indices :: "(account_index \<times> 'account) list option"
  genesis_balances :: "('account \<times> balance) list option"
  genesis_babe :: "('babe \<times> u64) list option"
  genesis_grandpa :: "('grandpa \<times> u64) list option"
  genesis_session :: "('account \<times> 'account \<times> ('grandpa, 'babe, 'im_online, 'discovery) SessionKeys) list option"
  genesis_staking :: "('account, 'perbill) StakingConfig option"
  genesis_sudo :: "'account option"
  genesis_im_online :: "'im_online list option"
  genesis_authority_discovery :: "'discovery list option"

definition ENDOWMENT :: balance where "ENDOWMENT = 10000000 * MITO"

definition STAKE :: balance where "STAKE = 500000 * MITO"

definition endowed_seeds :: "string list" where
  "endowed_seeds =
     [''Alice'', ''Bob'', ''Charlie'', ''Dave'', ''Eve'', ''Ferdie'',
      ''Alice//stash'', ''Bob//stash'', ''Charlie//stash'', ''Dave//stash'', ''Eve//stash'', ''Ferdie//stash'']"

text \<open>A \<open>vec!\<close> of fallible elements: the first failure is the panic.\<close>

fun collect_some :: "'a option list \<Rightarrow> 'a list option" where
  "collect_some [] = Some []"
| "collect_some (x # xs) = Option.bind x (\<lambda>x. map_option ((#) x) (collect_some xs))"

text \<open>
  \<open>wasm_binary_unwrap\<close> of the runtime: the embedded binary, which is absent (\<open>None\<close>) in builds
  made without it; the function panics then.
\<close>

definition wasm_binary_unwrap :: "u8 list option \<Rightarrow> u8 list option" where
  "wasm_binary_unwrap WASM_BINARY = (case WASM_BINARY of None \<Rightarrow> None | Some wasm \<Rightarrow> Some wasm)"

lemma wasm_binary_unwrap_simp [simp]: "wasm_binary_unwrap WASM_BINARY = WASM_BINARY"
  by (simp add: wasm_binary_unwrap_def split: option.split)

text \<open>
  \<open>testnet_genesis\<close>. The lengths are cast to \<open>u32\<close> and doubled at that width.
\<close>

definition testnet_genesis ::
  "'perbill perbill_api \<Rightarrow> ('sr, 'account, 'grandpa, 'babe, 'im_online, 'discovery) key_env \<Rightarrow> u8 list option
   \<Rightarrow> ('account, 'grandpa, 'babe, 'im_online, 'discovery) authority list \<Rightarrow> 'account \<Rightarrow> 'account list option
   \<Rightarrow> bool \<Rightarrow> ('account, 'perbill, 'grandpa, 'babe, 'im_online, 'discovery) GenesisConfig option" where
  "testnet_genesis P K wasm_binary initial_authorities root_key endowed_accounts enable_println =
     Option.bind
       (case endowed_accounts of
          Some accounts \<Rightarrow> Some accounts
        | None \<Rightarrow> collect_some (map (get_account_id_from_seed K) endowed_seeds)) (\<lambda>endowed_accounts.
     Option.bind (wasm_binary_unwrap wasm_binary) (\<lambda>code.
     Some
       \<lparr>genesis_system = Some code,
        genesis_indices = Some [],
        genesis_balances = Some
          (map (\<lambda>k. (k, ENDOWMENT)) endowed_accounts @ map (\<lambda>x. (fst x, STAKE)) initial_authorities),
        genesis_babe = Some [],
        genesis_grandpa = Some [],
        genesis_session = Some
          (map (\<lambda>(stash, controller, grandpa, babe, im_online, authority_discovery).
             (stash, stash, session_keys grandpa babe im_online authority_discovery)) initial_authorities),
        genesis_staking = Some
          \<lparr>validator_count = of_nat (length initial_authorities) * 2,
           minimum_validator_count = of_nat (length initial_authorities),
           stakers = map (\<lambda>x. (fst x, fst (snd x), STAKE, StakerStatus_Validator)) initial_authorities,
           invulnerables = map fst initial_authorities,
           slash_reward_fraction = from_percent P 10\<rparr>,
        genesis_sudo = Some root_key,
        genesis_im_online = Some [],
        genesis_authority_discovery = Some []\<rparr>))"

definition development_config_genesis ::
  "'perbill perbill_api \<Rightarrow> ('sr, 'account, 'grandpa, 'babe, 'im_online, 'discovery) key_env \<Rightarrow> u8 list option
   \<Rightarrow> ('account, 'perbill, 'grandpa, 'babe, 'im_online, 'discovery) GenesisConfig option" where
  "development_config_genesis P K wasm_binary =
     Option.bind (authority_keys_from_seed K ''Alice'') (\<lambda>alice.
     Option.bind (get_account_id_from_seed K ''Alice'') (\<lambda>root_key.
     testnet_genesis P K wasm_binary [alice] root_key None True))"

section \<open>Specifications\<close>

datatype property_value = Num nat | Text string

definition properties :: "string \<rightharpoonup> property_value" where
  "properties =
     [''ss58Format'' \<mapsto> Num 32,
      ''tokenDecimals'' \<mapsto> Num 12,
      ''tokenSymbol'' \<mapsto> Text ''MITO'']"

datatype chain_type = ChainType_Development | ChainType_Local | ChainType_Live

text \<open>
  \<open>Extensions\<close>: the known forks and the known bad blocks of a chain, both optional; its derived
  default has neither.
\<close>

record ('forks, 'bad) Extensions =
  fork_blocks :: "'forks option"
  bad_blocks :: "'bad option"

definition extensions_default :: "('forks, 'bad) Extensions" where
  "extensions_default = \<lparr>fork_blocks = None, bad_blocks = None\<rparr>"

text \<open>
  The arguments of \<open>ChainSpec::from_genesis\<close>, with the genesis as a function that may panic.
\<close>

record ('genesis, 'extensions) chain_spec =
  spec_name :: string
  spec_id :: string
  spec_chain_type :: chain_type
  spec_genesis :: "'genesis option"
  spec_boot_nodes :: "string list"
  spec_telemetry_endpoints :: "string list option"
  spec_protocol_id :: "string option"
  spec_properties :: "(string \<rightharpoonup> property_value) option"
  spec_extensions :: 'extensions

definition development_config ::
  "'perbill perbill_api \<Rightarrow> ('sr, 'account, 'grandpa, 'babe, 'im_online, 'discovery) key_env \<Rightarrow> u8 list option
   \<Rightarrow> (('account, 'perbill, 'grandpa, 'babe, 'im_online, 'discovery) GenesisConfig, ('forks, 'bad) Extensions) chain_spec" where
  "development_config P K wasm_binary =
     \<lparr>spec_name = ''Development'',
      spec_id = ''dev'',
      spec_chain_type = ChainType_Development,
      spec_genesis = development_config_genesis P K wasm_binary,
      spec_boot_nodes = [],
      spec_telemetry_endpoints = None,
      spec_protocol_id = None,
      spec_properties = None,
      spec_extensions = extensions_default\<rparr>"

section \<open>Facts\<close>

lemma ENDOWMENT_value: "unat ENDOWMENT = 10000000000000000000"
  by (simp add: ENDOWMENT_def MITO_def U_MITO_def)

lemma endowed_seeds_length: "length endowed_seeds = 12"
  by (simp add: endowed_seeds_def)

lemma STAKE_value: "unat STAKE = 500000000000000000"
  by (simp add: STAKE_def MITO_def U_MITO_def)

lemma collect_some_eq_Some: "collect_some xs = Some ys \<longleftrightarrow> xs = map Some ys"
  by (induction xs arbitrary: ys) (auto simp: bind_eq_Some_conv)

lemma collect_some_map: "collect_some (map f xs) = Some ys \<longleftrightarrow> map f xs = map Some ys"
  by (rule collect_some_eq_Some)

lemma collect_some_eq_None: "collect_some xs = None \<longleftrightarrow> None \<in> set xs"
  by (induction xs) (auto simp: bind_eq_None_conv)

text \<open>The pallets a genesis configures, as \<open>construct_runtime!\<close> names their crates.\<close>

definition configured_pallets ::
  "('account, 'perbill, 'grandpa, 'babe, 'im_online, 'discovery) GenesisConfig \<Rightarrow> string set" where
  "configured_pallets g =
     set (map snd (filter fst
       [(genesis_system g \<noteq> None, ''frame_system''), (genesis_indices g \<noteq> None, ''pallet_indices''),
        (genesis_balances g \<noteq> None, ''pallet_balances''), (genesis_babe g \<noteq> None, ''pallet_babe''),
        (genesis_grandpa g \<noteq> None, ''pallet_grandpa''), (genesis_session g \<noteq> None, ''pallet_session''),
        (genesis_staking g \<noteq> None, ''pallet_staking''), (genesis_sudo g \<noteq> None, ''pallet_sudo''),
        (genesis_im_online g \<noteq> None, ''pallet_im_online''),
        (genesis_authority_discovery g \<noteq> None, ''pallet_authority_discovery'')]))"

definition total_issuance :: "('account \<times> balance) list \<Rightarrow> nat" where
  "total_issuance balances = sum_list (map (unat \<circ> snd) balances)"

lemma total_issuance_simps [simp]:
  "total_issuance [] = 0"
  "total_issuance (b # bs) = unat (snd b) + total_issuance bs"
  "total_issuance (bs @ bs') = total_issuance bs + total_issuance bs'"
  "total_issuance (map (\<lambda>x. (f x, c)) xs) = length xs * unat c"
  by (simp_all add: total_issuance_def o_def sum_list_triv)

lemma testnet_genesis_fields:
  assumes "testnet_genesis P K wasm auths key endowed p = Some g"
  obtains accounts code where "wasm = Some code"
    "case endowed of Some a \<Rightarrow> accounts = a | None \<Rightarrow> map (get_account_id_from_seed K) endowed_seeds = map Some accounts"
    "genesis_balances g = Some (map (\<lambda>k. (k, ENDOWMENT)) accounts @ map (\<lambda>x. (fst x, STAKE)) auths)"
  using assms
  by (cases endowed) (auto simp: testnet_genesis_def bind_eq_Some_conv collect_some_eq_Some)

lemma testnet_genesis_configures_all:
  assumes "testnet_genesis P K wasm auths key endowed p = Some g"
  shows "configured_pallets g =
      set [''frame_system'', ''pallet_indices'', ''pallet_balances'', ''pallet_babe'', ''pallet_grandpa'',
           ''pallet_session'', ''pallet_staking'', ''pallet_sudo'', ''pallet_im_online'', ''pallet_authority_discovery'']"
    and "genesis_babe g = Some [] \<and> genesis_grandpa g = Some [] \<and> genesis_im_online g = Some []
      \<and> genesis_authority_discovery g = Some []"
proof -
  obtain code balances keys staking where "g = \<lparr>genesis_system = Some code, genesis_indices = Some [],
      genesis_balances = Some balances, genesis_babe = Some [], genesis_grandpa = Some [],
      genesis_session = Some keys, genesis_staking = Some staking, genesis_sudo = Some key,
      genesis_im_online = Some [], genesis_authority_discovery = Some []\<rparr>"
    using assms by (auto simp: testnet_genesis_def bind_eq_Some_conv)
  then show "configured_pallets g =
      set [''frame_system'', ''pallet_indices'', ''pallet_balances'', ''pallet_babe'', ''pallet_grandpa'',
           ''pallet_session'', ''pallet_staking'', ''pallet_sudo'', ''pallet_im_online'', ''pallet_authority_discovery'']"
    "genesis_babe g = Some [] \<and> genesis_grandpa g = Some [] \<and> genesis_im_online g = Some []
      \<and> genesis_authority_discovery g = Some []"
    by (simp_all only: configured_pallets_def GenesisConfig.simps option.distinct simp_thms
        list.map filter.simps fst_conv snd_conv if_True not_False_eq_True)
qed

end
