(* ===== verification/Runtime_Config.thy ===== *)
theory Runtime_Config
  imports Prelude
begin

text \<open>
  The configuration of the pallets in \<open>node/runtime/src/lib.rs\<close>: every
  \<open>impl pallet_x::Trait for Runtime\<close> as the table of its associated types, in the order of the
  file, each type as the text of its path. The datalog pallet's parameters are used as values
  in \<open>Runtime_Pallets\<close> and the numeric parameters are in \<open>Runtime_Constants\<close>.
\<close>

type_synonym trait_config = "(string \<times> string) list"

definition frame_system_trait :: trait_config where
  "frame_system_trait =
     [(''BaseCallFilter'', ''()''),
      (''Origin'', ''Origin''),
      (''Call'', ''Call''),
      (''Index'', ''Index''),
      (''BlockNumber'', ''BlockNumber''),
      (''Hash'', ''Hash''),
      (''Hashing'', ''BlakeTwo256''),
      (''AccountId'', ''AccountId''),
      (''Lookup'', ''Indices''),
      (''Header'', ''generic::Header<BlockNumber, BlakeTwo256>''),
      (''Event'', ''Event''),
      (''BlockHashCount'', ''BlockHashCount''),
      (''MaximumBlockWeight'', ''MaximumBlockWeight''),
      (''DbWeight'', ''RocksDbWeight''),
      (''BlockExecutionWeight'', ''BlockExecutionWeight''),
      (''ExtrinsicBaseWeight'', ''ExtrinsicBaseWeight''),
      (''MaximumExtrinsicWeight'', ''MaximumExtrinsicWeight''),
      (''MaximumBlockLength'', ''MaximumBlockLength''),
      (''AvailableBlockRatio'', ''AvailableBlockRatio''),
      (''Version'', ''Version''),
      (''PalletInfo'', ''PalletInfo''),
      (''AccountData'', ''pallet_balances::AccountData<Balance>''),
      (''OnNewAccount'', ''()''),
      (''OnKilledAccount'', ''()''),
      (''SystemWeightInfo'', ''()'')]"

definition utility_trait :: trait_config where
  "utility_trait =
     [(''Event'', ''Event''),
      (''Call'', ''Call''),
      (''WeightInfo'', ''()'')]"

definition multisig_trait :: trait_config where
  "multisig_trait =
     [(''Event'', ''Event''),
      (''Call'', ''Call''),
      (''Currency'', ''Balances''),
      (''DepositBase'', ''DepositBase''),
      (''DepositFactor'', ''DepositFactor''),
      (''MaxSignatories'', ''MaxSignatories''),
      (''WeightInfo'', ''()'')]"

definition babe_trait :: trait_config where
  "babe_trait =
     [(''EpochDuration'', ''EpochDuration''),
      (''ExpectedBlockTime'', ''ExpectedBlockTime''),
      (''EpochChangeTrigger'', ''pallet_babe::ExternalTrigger''),
      (''KeyOwnerProofSystem'', ''Historical''),
      (''KeyOwnerProof'', ''<Self::KeyOwnerProofSystem as KeyOwnerProofSystem<(KeyTypeId, pallet_babe::AuthorityId)>>::Proof''),
      (''KeyOwnerIdentification'', ''<Self::KeyOwnerProofSystem as KeyOwnerProofSystem<(KeyTypeId, pallet_babe::AuthorityId)>>::IdentificationTuple''),
      (''HandleEquivocation'', ''pallet_babe::EquivocationHandler<Self::KeyOwnerIdentification, Offences>''),
      (''WeightInfo'', ''()'')]"

definition indices_trait :: trait_config where
  "indices_trait =
     [(''AccountIndex'', ''AccountIndex''),
      (''Currency'', ''Balances''),
      (''Deposit'', ''IndexDeposit''),
      (''Event'', ''Event''),
      (''WeightInfo'', ''()'')]"

definition balances_trait :: trait_config where
  "balances_trait =
     [(''MaxLocks'', ''MaxLocks''),
      (''Balance'', ''Balance''),
      (''DustRemoval'', ''()''),
      (''Event'', ''Event''),
      (''ExistentialDeposit'', ''ExistentialDeposit''),
      (''AccountStore'', ''frame_system::Module<Runtime>''),
      (''WeightInfo'', ''()'')]"

definition transaction_payment_trait :: trait_config where
  "transaction_payment_trait =
     [(''Currency'', ''Balances''),
      (''OnTransactionPayment'', ''()''),
      (''TransactionByteFee'', ''TransactionByteFee''),
      (''WeightToFee'', ''WeightToFee''),
      (''FeeMultiplierUpdate'', ''TargetedFeeAdjustment<Self, TargetBlockFullness, AdjustmentVariable, MinimumMultiplier>'')]"

definition timestamp_trait :: trait_config where
  "timestamp_trait =
     [(''Moment'', ''Moment''),
      (''OnTimestampSet'', ''Babe''),
      (''MinimumPeriod'', ''MinimumPeriod''),
      (''WeightInfo'', ''()'')]"

definition authorship_trait :: trait_config where
  "authorship_trait =
     [(''FindAuthor'', ''pallet_session::FindAccountFromAuthorIndex<Self, Babe>''),
      (''UncleGenerations'', ''UncleGenerations''),
      (''FilterUncle'', ''()''),
      (''EventHandler'', ''(Staking, ImOnline)'')]"

definition session_trait :: trait_config where
  "session_trait =
     [(''Event'', ''Event''),
      (''ValidatorId'', ''<Self as frame_system::Trait>::AccountId''),
      (''ValidatorIdOf'', ''pallet_staking::StashOf<Self>''),
      (''ShouldEndSession'', ''Babe''),
      (''NextSessionRotation'', ''Babe''),
      (''SessionManager'', ''pallet_session::historical::NoteHistoricalRoot<Self, Staking>''),
      (''SessionHandler'', ''<SessionKeys as OpaqueKeys>::KeyTypeIdProviders''),
      (''Keys'', ''SessionKeys''),
      (''DisabledValidatorsThreshold'', ''DisabledValidatorsThreshold''),
      (''WeightInfo'', ''()'')]"

definition session_historical_trait :: trait_config where
  "session_historical_trait =
     [(''FullIdentification'', ''pallet_staking::Exposure<AccountId, Balance>''),
      (''FullIdentificationOf'', ''pallet_staking::ExposureOf<Runtime>'')]"

definition staking_trait :: trait_config where
  "staking_trait =
     [(''Currency'', ''Balances''),
      (''UnixTime'', ''Timestamp''),
      (''CurrencyToVote'', ''CurrencyToVoteHandler''),
      (''RewardRemainder'', ''()''),
      (''Event'', ''Event''),
      (''Slash'', ''()''),
      (''Reward'', ''()''),
      (''SessionsPerEra'', ''SessionsPerEra''),
      (''BondingDuration'', ''BondingDuration''),
      (''SlashDeferDuration'', ''SlashDeferDuration''),
      (''SlashCancelOrigin'', ''frame_system::EnsureRoot<<Self as frame_system::Trait>::AccountId>''),
      (''SessionInterface'', ''Self''),
      (''RewardCurve'', ''RewardCurve''),
      (''NextNewSession'', ''Session''),
      (''ElectionLookahead'', ''ElectionLookahead''),
      (''Call'', ''Call''),
      (''MaxIterations'', ''MaxIterations''),
      (''MinSolutionScoreBump'', ''MinSolutionScoreBump''),
      (''MaxNominatorRewardedPerValidator'', ''MaxNominatorRewardedPerValidator''),
      (''UnsignedPriority'', ''StakingUnsignedPriority''),
      (''WeightInfo'', ''()'')]"

definition identity_trait :: trait_config where
  "identity_trait =
     [(''Event'', ''Event''),
      (''Currency'', ''Balances''),
      (''BasicDeposit'', ''BasicDeposit''),
      (''FieldDeposit'', ''FieldDeposit''),
      (''SubAccountDeposit'', ''SubAccountDeposit''),
      (''MaxSubAccounts'', ''MaxSubAccounts''),
      (''MaxAdditionalFields'', ''MaxAdditionalFields''),
      (''MaxRegistrars'', ''MaxRegistrars''),
      (''Slashed'', ''()''),
      (''ForceOrigin'', ''frame_system::EnsureRoot<<Self as frame_system::Trait>::AccountId>''),
      (''RegistrarOrigin'', ''frame_system::EnsureRoot<<Self as frame_system::Trait>::AccountId>''),
      (''WeightInfo'', ''()'')]"

definition sudo_trait :: trait_config where
  "sudo_trait =
     [(''Event'', ''Event''),
      (''Call'', ''Call'')]"

definition im_online_trait :: trait_config where
  "im_online_trait =
     [(''AuthorityId'', ''ImOnlineId''),
      (''Event'', ''Event''),
      (''SessionDuration'', ''SessionDuration''),
      (''ReportUnresponsiveness'', ''Offences''),
      (''UnsignedPriority'', ''ImOnlineUnsignedPriority''),
      (''WeightInfo'', ''()'')]"

definition offences_trait :: trait_config where
  "offences_trait =
     [(''Event'', ''Event''),
      (''IdentificationTuple'', ''pallet_session::historical::IdentificationTuple<Self>''),
      (''OnOffenceHandler'', ''Staking''),
      (''WeightSoftLimit'', ''OffencesWeightSoftLimit'')]"

definition authority_discovery_trait :: trait_config where
  "authority_discovery_trait =
     []"

definition grandpa_trait :: trait_config where
  "grandpa_trait =
     [(''Event'', ''Event''),
      (''Call'', ''Call''),
      (''KeyOwnerProofSystem'', ''Historical''),
      (''KeyOwnerProof'', ''<Self::KeyOwnerProofSystem as KeyOwnerProofSystem<(KeyTypeId, GrandpaId)>>::Proof''),
      (''KeyOwnerIdentification'', ''<Self::KeyOwnerProofSystem as KeyOwnerProofSystem<(KeyTypeId, GrandpaId)>>::IdentificationTuple''),
      (''HandleEquivocation'', ''pallet_grandpa::EquivocationHandler<Self::KeyOwnerIdentification, Offences>''),
      (''WeightInfo'', ''()'')]"

definition finality_tracker_trait :: trait_config where
  "finality_tracker_trait =
     [(''OnFinalizationStalled'', ''()''),
      (''WindowSize'', ''WindowSize''),
      (''ReportLatency'', ''ReportLatency'')]"

definition robonomics_datalog_trait :: trait_config where
  "robonomics_datalog_trait =
     [(''Time'', ''Timestamp''),
      (''Record'', ''Vec<u8>''),
      (''Event'', ''Event''),
      (''WindowSize'', ''DatalogWindowSize''),
      (''MaximumMessageSize'', ''DatalogMaximumMessageSize''),
      (''WeightInfo'', ''()'')]"

definition trait_impls :: "(string \<times> trait_config) list" where
  "trait_impls =
     [(''frame_system'', frame_system_trait),
      (''pallet_utility'', utility_trait),
      (''pallet_multisig'', multisig_trait),
      (''pallet_babe'', babe_trait),
      (''pallet_indices'', indices_trait),
      (''pallet_balances'', balances_trait),
      (''pallet_transaction_payment'', transaction_payment_trait),
      (''pallet_timestamp'', timestamp_trait),
      (''pallet_authorship'', authorship_trait),
      (''pallet_session'', session_trait),
      (''pallet_session_historical'', session_historical_trait),
      (''pallet_staking'', staking_trait),
      (''pallet_identity'', identity_trait),
      (''pallet_sudo'', sudo_trait),
      (''pallet_im_online'', im_online_trait),
      (''pallet_offences'', offences_trait),
      (''pallet_authority_discovery'', authority_discovery_trait),
      (''pallet_grandpa'', grandpa_trait),
      (''pallet_finality_tracker'', finality_tracker_trait),
      (''pallet_robonomics_datalog'', robonomics_datalog_trait)]"

section \<open>Queries\<close>

definition assigned :: "string \<Rightarrow> string \<Rightarrow> string option" where
  "assigned crate item = Option.bind (map_of trait_impls crate) (\<lambda>config. map_of config item)"

text \<open>The associated types that take the funds a pallet removes from accounts, or mints.\<close>

definition imbalance_handlers :: "(string \<times> string) list" where
  "imbalance_handlers =
     [(''pallet_balances'', ''DustRemoval''),
      (''pallet_transaction_payment'', ''OnTransactionPayment''),
      (''pallet_staking'', ''RewardRemainder''),
      (''pallet_staking'', ''Slash''),
      (''pallet_staking'', ''Reward''),
      (''pallet_identity'', ''Slashed'')]"

end
