(* ===== verification/Ring_Index.thy ===== *)
theory Ring_Index
  imports Prelude
begin

text \<open>
  \<open>RingBufferIndex\<close> of \<open>pallets/datalog/src/lib.rs\<close>: a pair of cursors over the slots of
  a ring of \<open>max\<close> slots, the wrapping increment \<open>next\<close>, the producer step \<open>add\<close>
  and the draining iterator. The ring always keeps one slot free, so it holds at most
  \<open>max - 1\<close> live slots. The loops over the iterator may run forever on cursors outside
  the ring, so they are partial functions; the theory says exactly when they return.

  The interface the pallet relies on is the locale \<open>ring_cursor\<close>; it is interpreted on
  \<open>ring_add\<close> for every window size.
\<close>

section \<open>The cursors and their operations\<close>

record ring_index =
  idx_start :: u64
  idx_end :: u64

definition ring_default :: ring_index where
  "ring_default = \<lparr>idx_start = 0, idx_end = 0\<rparr>"

text \<open>The increment wraps at \<open>u64\<close>, as the release build of the runtime does.\<close>

definition ring_next :: "u64 \<Rightarrow> u64 \<Rightarrow> u64" where
  "ring_next val win =
     (let val = val + 1
      in if val = win then 0 else val)"

definition ring_add :: "u64 \<Rightarrow> ring_index \<Rightarrow> u64 \<times> ring_index" where
  "ring_add win self =
     (let v = idx_end self;
          self = self\<lparr>idx_end := ring_next (idx_end self) win\<rparr>;
          self = (if idx_start self = idx_end self
                  then self\<lparr>idx_start := ring_next (idx_start self) win\<rparr>
                  else self)
      in (v, self))"

text \<open>One call of the iterator's \<open>next\<close>: the item, and the index it borrows, advanced.\<close>

definition ring_iter_next :: "u64 \<Rightarrow> ring_index \<Rightarrow> u64 option \<times> ring_index" where
  "ring_iter_next win self =
     (if idx_end self = idx_start self then (None, self)
      else (let u = idx_start self;
                self = self\<lparr>idx_start := ring_next (idx_start self) win\<rparr>
            in (Some u, self)))"

text \<open>A loop that drains \<open>idx.iter(max)\<close>, with a body \<open>f\<close> on a state.\<close>

partial_function (option) ring_for_each ::
  "u64 \<Rightarrow> (u64 \<Rightarrow> 's \<Rightarrow> 's) \<Rightarrow> ring_index \<Rightarrow> 's \<Rightarrow> 's option" where
  "ring_for_each win f self s =
     (case ring_iter_next win self of
        (None, self') \<Rightarrow> Some s
      | (Some u, self') \<Rightarrow> ring_for_each win f self' (f u s))"

section \<open>The ring the cursors walk\<close>

text \<open>
  The number of slots: the window size, or all of \<open>u64\<close> for the window size 0, where
  the increment never meets its bound and only the machine wraps it.
\<close>

definition ring_mod :: "u64 \<Rightarrow> nat" where
  "ring_mod win = (if win = 0 then 2 ^ 64 else unat win)"

definition ring_wf :: "u64 \<Rightarrow> ring_index \<Rightarrow> bool" where
  "ring_wf win self \<longleftrightarrow> unat (idx_start self) < ring_mod win \<and> unat (idx_end self) < ring_mod win"

definition ring_len :: "u64 \<Rightarrow> ring_index \<Rightarrow> nat" where
  "ring_len win self =
     (unat (idx_end self) + ring_mod win - unat (idx_start self)) mod ring_mod win"

definition ring_slot :: "u64 \<Rightarrow> nat \<Rightarrow> u64" where
  "ring_slot win k = of_nat (k mod ring_mod win)"

text \<open>The live slots, oldest first.\<close>

definition ring_slots :: "u64 \<Rightarrow> ring_index \<Rightarrow> u64 list" where
  "ring_slots win self = map (\<lambda>i. ring_slot win (unat (idx_start self) + i)) [0..<ring_len win self]"

definition ring_cap :: "u64 \<Rightarrow> nat" where
  "ring_cap win = ring_mod win - 1"

lemma ring_mod_pos: "0 < ring_mod win"
  by (simp add: ring_mod_def word_neq_0_conv unat_gt_0)

lemma ring_mod_le: "ring_mod win \<le> 2 ^ 64"
  using unat_lt_64 [of win] by (simp add: ring_mod_def)

lemma unat_ring_slot: "unat (ring_slot win k) = k mod ring_mod win"
proof -
  have "k mod ring_mod win < ring_mod win"
    by (rule mod_less_divisor [OF ring_mod_pos])
  also have "\<dots> \<le> 2 ^ 64"
    by (rule ring_mod_le)
  finally show ?thesis
    by (simp add: ring_slot_def unat_of_nat_64)
qed

lemma unat_ring_slot_less: "unat (ring_slot win k) < ring_mod win"
  by (simp add: unat_ring_slot ring_mod_pos)

lemma ring_next_unat:
  assumes "unat v < ring_mod win"
  shows "unat (ring_next v win) = (unat v + 1) mod ring_mod win"
proof (cases "v + 1 = win")
  case True
  then have "ring_next v win = 0"
    by (simp add: ring_next_def)
  moreover have "(unat v + 1) mod ring_mod win = 0"
  proof (cases "win = 0")
    case True
    with \<open>v + 1 = win\<close> show ?thesis
      using unat_plus_one [of v] by (simp add: ring_mod_def)
  next
    case False
    then have "unat (v + 1) \<noteq> 0"
      using \<open>v + 1 = win\<close> by (simp add: unat_eq_zero)
    then have "unat v + 1 \<noteq> 18446744073709551616"
      using unat_plus_one [of v] by auto
    with \<open>v + 1 = win\<close> have "unat v + 1 = unat win"
      using unat_lt_64 [of v] unat_plus_one_less [of v] by auto
    with False show ?thesis
      by (simp add: ring_mod_def)
  qed
  ultimately show ?thesis by simp
next
  case False
  then have eq: "ring_next v win = v + 1"
    by (simp add: ring_next_def)
  show ?thesis
  proof (cases "win = 0")
    case True
    then show ?thesis
      using unat_plus_one [of v] eq by (simp add: ring_mod_def)
  next
    case win: False
    have "unat v + 1 \<noteq> unat win"
      using False unat_lt_64 [of win] unat_plus_one_less [of v] by (auto simp: word_eq_unat_iff)
    with assms win have "unat v + 1 < unat win"
      by (simp add: ring_mod_def)
    moreover from this have "unat (v + 1) = unat v + 1"
      using unat_lt_64 [of win] by (intro unat_plus_one_less) simp
    ultimately show ?thesis
      using win by (simp add: eq ring_mod_def)
  qed
qed

lemma ring_next_slot: "ring_next (ring_slot win k) win = ring_slot win (Suc k)"
  by (simp add: word_eq_unat_iff ring_next_unat unat_ring_slot ring_mod_pos mod_Suc_eq)

lemma ring_next_less: "unat v < ring_mod win \<Longrightarrow> unat (ring_next v win) < ring_mod win"
  by (simp add: ring_next_unat ring_mod_pos)

lemma ring_wf_slot_start: "ring_wf win self \<Longrightarrow> ring_slot win (unat (idx_start self)) = idx_start self"
  by (simp add: word_eq_unat_iff unat_ring_slot ring_wf_def)

lemma ring_len_less: "ring_len win self < ring_mod win"
  by (simp add: ring_len_def ring_mod_pos)

lemma length_ring_slots [simp]: "length (ring_slots win self) = ring_len win self"
  by (simp add: ring_slots_def)

lemma ring_len_le_cap: "ring_len win self \<le> ring_cap win"
  using ring_len_less [of win self] by (simp add: ring_cap_def)

text \<open>The end cursor is the slot after the live ones.\<close>

lemma ring_slot_end:
  assumes "ring_wf win self"
  shows "ring_slot win (unat (idx_start self) + ring_len win self) = idx_end self"
proof -
  have "(unat (idx_start self) + ring_len win self) mod ring_mod win = unat (idx_end self)"
    using assms by (simp add: ring_len_def ring_wf_def mod_add_right_eq)
  then show ?thesis
    by (simp add: word_eq_unat_iff unat_ring_slot)
qed

lemma ring_slot_inj:
  assumes "ring_slot win (k + i) = ring_slot win (k + j)" "i < ring_mod win" "j < ring_mod win"
  shows "i = j"
proof -
  have "(k + i) mod ring_mod win = (k + j) mod ring_mod win"
    using assms(1) by (simp add: word_eq_unat_iff unat_ring_slot)
  then have "i mod ring_mod win = j mod ring_mod win"
    by (simp add: nat_mod_eq_iff add.assoc)
  with assms(2,3) show ?thesis by simp
qed

lemma ring_len_cases:
  assumes "ring_wf win self"
  shows "ring_len win self =
    (if unat (idx_start self) \<le> unat (idx_end self)
     then unat (idx_end self) - unat (idx_start self)
     else unat (idx_end self) + ring_mod win - unat (idx_start self))"
proof (cases "unat (idx_start self) \<le> unat (idx_end self)")
  case True
  then have "unat (idx_end self) + ring_mod win - unat (idx_start self)
      = (unat (idx_end self) - unat (idx_start self)) + ring_mod win"
    by simp
  moreover have "unat (idx_end self) - unat (idx_start self) < ring_mod win"
    using assms by (auto simp: ring_wf_def)
  ultimately show ?thesis
    using True by (simp only: ring_len_def mod_add_self2 mod_less if_True)
next
  case False
  then have "unat (idx_end self) + ring_mod win - unat (idx_start self) < ring_mod win"
    using assms by (auto simp: ring_wf_def)
  with False show ?thesis by (simp add: ring_len_def)
qed

lemma ring_len_0_iff: "ring_wf win self \<Longrightarrow> ring_len win self = 0 \<longleftrightarrow> idx_start self = idx_end self"
  by (auto simp: ring_len_cases word_eq_unat_iff ring_wf_def)

lemma ring_len_advance_start:
  assumes "ring_wf win self" "idx_start self \<noteq> idx_end self"
  shows "ring_len win self = Suc (ring_len win (self\<lparr>idx_start := ring_next (idx_start self) win\<rparr>))"
proof -
  let ?s = "unat (idx_start self)" and ?e = "unat (idx_end self)" and ?M = "ring_mod win"
  let ?self = "self\<lparr>idx_start := ring_next (idx_start self) win\<rparr>"
  have bounds: "?s < ?M" "?e < ?M" "?s \<noteq> ?e"
    using assms by (auto simp: ring_wf_def word_eq_unat_iff)
  have wf: "ring_wf win ?self"
    using assms by (simp add: ring_wf_def ring_next_less)
  have s': "unat (ring_next (idx_start self) win) = (if ?s + 1 = ?M then 0 else ?s + 1)"
    using bounds by (simp add: ring_next_unat)
  show ?thesis
    using bounds by (auto simp: ring_len_cases [OF wf] ring_len_cases [OF assms(1)] s')
qed

lemma ring_slots_advance_start:
  assumes "ring_wf win self" "idx_start self \<noteq> idx_end self"
  shows "ring_slots win self =
    idx_start self # ring_slots win (self\<lparr>idx_start := ring_next (idx_start self) win\<rparr>)"
proof -
  let ?self = "self\<lparr>idx_start := ring_next (idx_start self) win\<rparr>"
  have slot: "ring_slot win (unat (ring_next (idx_start self) win) + i)
      = ring_slot win (unat (idx_start self) + Suc i)" for i
    using assms(1)
    by (simp add: word_eq_unat_iff unat_ring_slot ring_next_unat ring_wf_def mod_add_left_eq)
  have "ring_slots win self =
      map (\<lambda>i. ring_slot win (unat (idx_start self) + i)) [0..<Suc (ring_len win ?self)]"
    unfolding ring_slots_def using ring_len_advance_start [OF assms] by simp
  also have "\<dots> = ring_slot win (unat (idx_start self))
      # map (\<lambda>i. ring_slot win (unat (idx_start self) + Suc i)) [0..<ring_len win ?self]"
    by (simp add: upt_conv_Cons map_Suc_upt [symmetric] del: upt_Suc)
  also have "\<dots> = idx_start self # ring_slots win ?self"
    using assms(1) by (simp add: ring_slots_def slot ring_wf_slot_start)
  finally show ?thesis .
qed

lemma ring_slots_Nil: "idx_start self = idx_end self \<Longrightarrow> ring_slots win self = []"
  by (simp add: ring_slots_def ring_len_def)

lemma ring_slots_distinct: "distinct (ring_slots win self)"
proof -
  have "inj_on (\<lambda>i. ring_slot win (unat (idx_start self) + i)) {0..<ring_len win self}"
    using ring_len_less [of win self] by (intro inj_onI) (auto dest: ring_slot_inj)
  then show ?thesis
    by (simp add: ring_slots_def distinct_map)
qed

lemma ring_slots_bound: "u \<in> set (ring_slots win self) \<Longrightarrow> unat u < ring_mod win"
  by (auto simp: ring_slots_def unat_ring_slot_less)

lemma ring_end_not_live:
  assumes "ring_wf win self"
  shows "idx_end self \<notin> set (ring_slots win self)"
proof
  assume "idx_end self \<in> set (ring_slots win self)"
  then obtain i where i: "i < ring_len win self"
    "ring_slot win (unat (idx_start self) + i) = idx_end self"
    by (auto simp: ring_slots_def)
  then have "i = ring_len win self"
    using ring_slot_end [OF assms] ring_len_less [of win self]
    by (intro ring_slot_inj [of win "unat (idx_start self)"]) auto
  with i show False by simp
qed

section \<open>The wrapping push\<close>

lemma ring_wf_default: "ring_wf win ring_default"
  using ring_mod_pos [of win] by (simp add: ring_wf_def ring_default_def)

lemma ring_slots_default: "ring_slots win ring_default = []"
  by (simp add: ring_slots_Nil ring_default_def)

lemma ring_add_wf: "ring_wf win self \<Longrightarrow> ring_wf win (snd (ring_add win self))"
  by (simp add: ring_add_def ring_wf_def ring_next_less Let_def)

lemma ring_add_slot: "fst (ring_add win self) = idx_end self"
  by (simp add: ring_add_def Let_def)

text \<open>Moving the end cursor alone appends its slot, unless that would make the ring look empty.\<close>

lemma ring_slots_advance_end:
  assumes wf: "ring_wf win self" and room: "ring_next (idx_end self) win \<noteq> idx_start self"
  shows "ring_slots win (self\<lparr>idx_end := ring_next (idx_end self) win\<rparr>) = ring_slots win self @ [idx_end self]"
    and "ring_len win self + 1 < ring_mod win"
proof -
  let ?s = "unat (idx_start self)" and ?e = "unat (idx_end self)" and ?M = "ring_mod win"
  let ?self = "self\<lparr>idx_end := ring_next (idx_end self) win\<rparr>"
  have bounds: "?s < ?M" "?e < ?M"
    using wf by (auto simp: ring_wf_def)
  have wf': "ring_wf win ?self"
    using wf by (simp add: ring_wf_def ring_next_less)
  have e': "unat (ring_next (idx_end self) win) = (if ?e + 1 = ?M then 0 else ?e + 1)"
    using bounds by (simp add: ring_next_unat)
  have neq: "unat (ring_next (idx_end self) win) \<noteq> ?s"
    using room by (simp add: word_eq_unat_iff)
  have len: "ring_len win ?self = Suc (ring_len win self)"
    using bounds neq by (auto simp: ring_len_cases [OF wf] ring_len_cases [OF wf'] e')
  then show "ring_len win self + 1 < ring_mod win"
    using ring_len_less [of win ?self] by simp
  show "ring_slots win ?self = ring_slots win self @ [idx_end self]"
    using ring_slot_end [OF wf] by (simp add: ring_slots_def len)
qed

lemma ring_len_full:
  assumes wf: "ring_wf win self" and full: "ring_next (idx_end self) win = idx_start self"
  shows "ring_len win self = ring_cap win"
proof -
  have "unat (idx_start self) = (unat (idx_end self) + 1) mod ring_mod win"
    using ring_next_unat [of "idx_end self" win] wf full by (simp add: ring_wf_def)
  then show ?thesis
    using wf by (auto simp: ring_len_cases [OF wf] ring_cap_def ring_wf_def mod_Suc split: if_splits)
qed

text \<open>The push appends the slot it returns and drops the oldest live slot when the ring is full.\<close>

lemma ring_add_slots:
  assumes wf: "ring_wf win self"
  shows "ring_slots win (snd (ring_add win self)) =
    last_n (ring_cap win) (ring_slots win self @ [fst (ring_add win self)])"
proof (cases "idx_start self = ring_next (idx_end self) win")
  case False
  then have room: "ring_next (idx_end self) win \<noteq> idx_start self"
    by simp
  have "length (ring_slots win self @ [idx_end self]) \<le> ring_cap win"
    using ring_slots_advance_end(2) [OF wf room] by (simp add: ring_cap_def)
  with False show ?thesis
    by (simp add: ring_add_def ring_slots_advance_end(1) [OF wf room] last_n_short)
next
  case full: True
  note len = ring_len_full [OF wf full [symmetric]]
  let ?adv = "self\<lparr>idx_start := ring_next (idx_start self) win\<rparr>"
  let ?new = "?adv\<lparr>idx_end := ring_next (idx_end self) win\<rparr>"
  have new: "snd (ring_add win self) = ?new"
    using full by (simp add: ring_add_def)
  show ?thesis
  proof (cases "ring_cap win = 0")
    case True
    then show ?thesis
      using ring_len_le_cap [of win ?new] by (simp add: new flip: length_0_conv)
  next
    case False
    then have ne: "idx_start self \<noteq> idx_end self"
      using len by (simp add: ring_len_0_iff [OF wf, symmetric])
    note slots = ring_slots_advance_start [OF wf ne]
    have wf': "ring_wf win ?adv"
      using wf by (simp add: ring_wf_def ring_next_less)
    have "unat (idx_start self) < ring_mod win" "1 < ring_mod win"
      using wf False by (simp_all add: ring_wf_def ring_cap_def)
    then have "ring_next (idx_start self) win \<noteq> idx_start self"
      by (auto simp: word_eq_unat_iff ring_next_unat mod_Suc)
    then have "ring_next (idx_end ?adv) win \<noteq> idx_start ?adv"
      using full by simp
    from ring_slots_advance_end(1) [OF wf' this]
    have "ring_slots win ?new = ring_slots win ?adv @ [idx_end self]"
      by simp
    moreover have "last_n (ring_cap win) (ring_slots win self @ [idx_end self])
        = tl (ring_slots win self @ [idx_end self])"
      by (rule last_n_full) (simp add: len)
    ultimately show ?thesis
      by (simp add: new ring_add_slot slots)
  qed
qed

section \<open>The interface the log relies on\<close>

text \<open>
  A bounded cursor: a push returns a slot that is not live, makes it the newest live slot
  and keeps the newest \<open>cap\<close> slots. A store written at the slots a cursor hands out is
  therefore a bounded log of the values pushed.
\<close>

locale ring_cursor =
  fixes wf :: "'i \<Rightarrow> bool"
    and cap :: nat
    and slots :: "'i \<Rightarrow> u64 list"
    and push :: "'i \<Rightarrow> u64 \<times> 'i"
    and fresh :: 'i
  assumes wf_fresh: "wf fresh"
    and slots_fresh: "slots fresh = []"
    and wf_push: "wf i \<Longrightarrow> wf (snd (push i))"
    and slots_push: "wf i \<Longrightarrow> slots (snd (push i)) = last_n cap (slots i @ [fst (push i)])"
    and push_not_live: "wf i \<Longrightarrow> fst (push i) \<notin> set (slots i)"
begin

text \<open>The values a store holds at the live slots after a push are a bounded log.\<close>

lemma contents_push:
  assumes "wf i"
  shows "map (get(fst (push i) := x)) (slots (snd (push i))) = last_n cap (map get (slots i) @ [x])"
proof -
  have "map (get(fst (push i) := x)) (slots i) = map get (slots i)"
    using push_not_live [OF assms] by auto
  then have "map (get(fst (push i) := x)) (slots i @ [fst (push i)]) = map get (slots i) @ [x]"
    by simp
  then show ?thesis
    by (simp only: slots_push [OF assms] last_n_map [symmetric])
qed

lemma length_slots_push: "wf i \<Longrightarrow> length (slots (snd (push i))) \<le> cap"
  by (simp add: slots_push)

end

interpretation ring: ring_cursor "ring_wf win" "ring_cap win" "ring_slots win" "ring_add win" ring_default
  for win
proof unfold_locales
  show "ring_wf win ring_default"
    by (rule ring_wf_default)
  show "ring_slots win ring_default = []"
    by (rule ring_slots_default)
  show "ring_wf win (snd (ring_add win i))" if "ring_wf win i" for i
    using that by (rule ring_add_wf)
  show "ring_slots win (snd (ring_add win i)) = last_n (ring_cap win) (ring_slots win i @ [fst (ring_add win i)])"
    if "ring_wf win i" for i
    using that by (rule ring_add_slots)
  show "fst (ring_add win i) \<notin> set (ring_slots win i)" if "ring_wf win i" for i
    using ring_end_not_live [OF that] by (simp add: ring_add_slot)
qed

section \<open>Loops over the iterator\<close>

lemma ring_for_each_step:
  "ring_for_each win f self s =
     (if idx_start self = idx_end self then Some s
      else ring_for_each win f (self\<lparr>idx_start := ring_next (idx_start self) win\<rparr>) (f (idx_start self) s))"
  by (subst ring_for_each.simps) (simp add: ring_iter_next_def)

text \<open>On cursors inside the ring the loop returns, and runs its body on the live slots in order.\<close>

lemma ring_for_each_wf:
  assumes "ring_wf win self"
  shows "ring_for_each win f self s = Some (fold f (ring_slots win self) s)"
  using assms
proof (induction "ring_len win self" arbitrary: self s)
  case 0
  then have "idx_start self = idx_end self"
    using ring_len_0_iff by metis
  then show ?case
    by (subst ring_for_each_step) (simp add: ring_slots_Nil)
next
  case (Suc n)
  let ?self = "self\<lparr>idx_start := ring_next (idx_start self) win\<rparr>"
  have ne: "idx_start self \<noteq> idx_end self"
    using Suc.hyps(2) ring_len_0_iff [OF Suc.prems] by auto
  have "n = ring_len win ?self"
    using Suc.hyps(2) ring_len_advance_start [OF Suc.prems ne] by simp
  moreover have "ring_wf win ?self"
    using Suc.prems by (simp add: ring_wf_def ring_next_less)
  ultimately have "ring_for_each win f ?self (f (idx_start self) s)
      = Some (fold f (ring_slots win ?self) (f (idx_start self) s))"
    by (rule Suc.hyps(1))
  with ne show ?case
    by (subst ring_for_each_step) (simp add: ring_slots_advance_start [OF Suc.prems ne])
qed

text \<open>In general it returns exactly when the start cursor reaches the end cursor.\<close>

lemma ring_for_each_reaches:
  assumes "ring_for_each win f self s = Some r"
  shows "\<exists>n. ((\<lambda>v. ring_next v win) ^^ n) (idx_start self) = idx_end self"
proof (rule ring_for_each.raw_induct
    [where P = "\<lambda>win f self s r. \<exists>n. ((\<lambda>v. ring_next v win) ^^ n) (idx_start self) = idx_end self", OF _ assms])
  fix loop :: "u64 \<Rightarrow> (u64 \<Rightarrow> 's \<Rightarrow> 's) \<Rightarrow> ring_index \<Rightarrow> 's \<Rightarrow> 's option"
  fix win f self s r
  let ?g = "\<lambda>v. ring_next v win"
  assume IH: "\<And>win f self s r. loop win f self s = Some r \<Longrightarrow>
      \<exists>n. ((\<lambda>v. ring_next v win) ^^ n) (idx_start self) = idx_end self"
    and eq: "(case ring_iter_next win self of
        (None, self') \<Rightarrow> Some s
      | (Some u, self') \<Rightarrow> loop win f self' (f u s)) = Some r"
  show "\<exists>n. (?g ^^ n) (idx_start self) = idx_end self"
  proof (cases "idx_end self = idx_start self")
    case True
    then show ?thesis by (intro exI [of _ 0]) simp
  next
    case False
    with eq have "loop win f (self\<lparr>idx_start := ?g (idx_start self)\<rparr>) (f (idx_start self) s) = Some r"
      by (simp add: ring_iter_next_def)
    from IH [OF this] obtain n where "(?g ^^ n) (?g (idx_start self)) = idx_end self"
      by auto
    then show ?thesis
      by (intro exI [of _ "Suc n"]) (simp add: funpow_Suc_right del: funpow.simps)
  qed
qed

text \<open>What the body keeps, a loop that returns keeps.\<close>

lemma ring_for_each_keeps:
  assumes "ring_for_each win f self s = Some r" "P s" "\<And>u s. P s \<Longrightarrow> P (f u s)"
  shows "P r"
proof -
  have "f = f \<longrightarrow> P s \<longrightarrow> P r"
  proof (rule ring_for_each.raw_induct [where P = "\<lambda>win g self s r. g = f \<longrightarrow> P s \<longrightarrow> P r", OF _ assms(1)])
    fix loop win g self s r
    assume IH: "\<And>win g self s r. loop win g self s = Some r \<Longrightarrow> g = f \<longrightarrow> P s \<longrightarrow> P r"
      and eq: "(case ring_iter_next win self of
          (None, self') \<Rightarrow> Some s
        | (Some u, self') \<Rightarrow> loop win g self' (g u s)) = Some r"
    show "g = f \<longrightarrow> P s \<longrightarrow> P r"
    proof (cases "ring_iter_next win self")
      case (Pair u self')
      with eq IH [of win f self' "f (the u) s" r] assms(3) show ?thesis
        by (cases u) auto
    qed
  qed
  with assms(2) show ?thesis by simp
qed

lemma ring_for_each_returns:
  assumes "((\<lambda>v. ring_next v win) ^^ n) (idx_start self) = idx_end self"
  shows "ring_for_each win f self s \<noteq> None"
  using assms
proof (induction n arbitrary: self s)
  case 0
  then show ?case by (subst ring_for_each_step) simp
next
  case (Suc n)
  then have "((\<lambda>v. ring_next v win) ^^ n) (ring_next (idx_start self) win) = idx_end self"
    by (simp add: funpow_Suc_right del: funpow.simps)
  then show ?case
    using Suc.IH [of "self\<lparr>idx_start := ring_next (idx_start self) win\<rparr>"]
    by (subst ring_for_each_step) simp
qed

lemma ring_orbit_closed:
  assumes "P v" "\<And>v. P v \<Longrightarrow> P (ring_next v win)"
  shows "P (((\<lambda>v. ring_next v win) ^^ n) v)"
  using assms by (induction n) auto

text \<open>A cursor at or above the bound climbs to the machine's wrap-around.\<close>

lemma ring_orbit_climb:
  assumes "win \<noteq> 0" "unat win \<le> unat v" "unat v + n < 2 ^ 64"
  shows "unat (((\<lambda>v. ring_next v win) ^^ n) v) = unat v + n"
  using assms(3)
proof (induction n)
  case 0
  then show ?case by simp
next
  case (Suc n)
  let ?u = "((\<lambda>v. ring_next v win) ^^ n) v"
  have u: "unat ?u = unat v + n"
    using Suc by simp
  then have step: "unat (?u + 1) = unat v + n + 1"
    using Suc.prems by (subst unat_plus_one_less) simp_all
  then have "?u + 1 \<noteq> win"
    using assms(2) by auto
  with step show ?case
    by (simp add: ring_next_def)
qed

lemma ring_orbit_wraps:
  assumes "win \<noteq> 0" "unat win \<le> unat v"
  shows "((\<lambda>v. ring_next v win) ^^ (2 ^ 64 - unat v)) v = 0"
proof -
  let ?n = "2 ^ 64 - 1 - unat v"
  let ?u = "((\<lambda>v. ring_next v win) ^^ ?n) v"
  have "unat v < 2 ^ 64"
    using unat_lt_64 [of v] by simp
  then have n: "2 ^ 64 - unat v = Suc ?n" and "unat v + ?n = 2 ^ 64 - 1"
    by simp_all
  then have "unat ?u = 2 ^ 64 - 1"
    using ring_orbit_climb [OF assms, of ?n] by simp
  then have "unat (?u + 1) = 0"
    using unat_plus_one [of ?u] by simp
  then have "ring_next ?u win = 0"
    using assms(1) by (simp add: ring_next_def unat_eq_zero)
  then show ?thesis
    unfolding n by simp
qed

lemma ring_for_each_returns_iff:
  "ring_for_each win f self s \<noteq> None \<longleftrightarrow>
     win = 0 \<or> idx_end self < win \<or> (win \<le> idx_start self \<and> idx_start self \<le> idx_end self)"
    (is "?L \<longleftrightarrow> ?R")
proof
  let ?s = "unat (idx_start self)" and ?e = "unat (idx_end self)"
  assume ?R
  then consider "win = 0" | "win \<noteq> 0" "?e < unat win" "?s < unat win"
    | "win \<noteq> 0" "?e < unat win" "unat win \<le> ?s" | "win \<noteq> 0" "unat win \<le> ?s" "?s \<le> ?e"
    by (cases "win = 0"; cases "unat win \<le> ?s") (auto simp: word_less_nat_alt word_le_nat_alt)
  then show ?L
  proof cases
    case 1
    then have "ring_wf win self"
      using unat_lt_64 by (simp add: ring_wf_def ring_mod_def)
    then show ?thesis by (simp add: ring_for_each_wf)
  next
    case 2
    then have "ring_wf win self"
      by (simp add: ring_wf_def ring_mod_def)
    then show ?thesis by (simp add: ring_for_each_wf)
  next
    case 3
    let ?zero = "self\<lparr>idx_start := 0\<rparr>"
    have "ring_wf win ?zero"
      using 3 by (auto simp: ring_wf_def ring_mod_def)
    then obtain n where n: "((\<lambda>v. ring_next v win) ^^ n) 0 = idx_end self"
      using ring_for_each_reaches [OF ring_for_each_wf [of win ?zero f s]] by auto
    have "((\<lambda>v. ring_next v win) ^^ (n + (2 ^ 64 - ?s))) (idx_start self) = idx_end self"
      using ring_orbit_wraps [of win "idx_start self"] 3 n by (simp add: funpow_add)
    then show ?thesis by (rule ring_for_each_returns)
  next
    case 4
    have "unat (((\<lambda>v. ring_next v win) ^^ (?e - ?s)) (idx_start self)) = ?e"
      using ring_orbit_climb [of win "idx_start self" "?e - ?s"] 4 unat_lt_64 [of "idx_end self"]
      by simp
    then show ?thesis
      by (intro ring_for_each_returns) (simp add: word_eq_unat_iff)
  qed
next
  assume ?L
  then obtain r where "ring_for_each win f self s = Some r" by auto
  from ring_for_each_reaches [OF this]
  obtain n where n: "((\<lambda>v. ring_next v win) ^^ n) (idx_start self) = idx_end self" ..
  show ?R
  proof (rule ccontr)
    assume nR: "\<not> ?R"
    let ?P = "\<lambda>v. v < win \<or> idx_start self \<le> v \<and> win \<le> idx_start self"
    have "?P (((\<lambda>v. ring_next v win) ^^ n) (idx_start self))"
    proof (rule ring_orbit_closed [where P = ?P])
      show "?P (idx_start self)" by auto
      show "?P (ring_next v win)" if "?P v" for v
        using that nR unat_plus_one [of v] unat_lt_64 [of v] unat_lt_64 [of win]
        by (auto simp: ring_next_def word_less_nat_alt word_le_nat_alt word_eq_unat_iff mod_Suc
            split: if_splits)
    qed
    with n nR show False by auto
  qed
qed

corollary ring_for_each_diverges:
  assumes "win \<noteq> 0" "idx_start self < win" "win \<le> idx_end self"
  shows "ring_for_each win f self s = None"
  using ring_for_each_returns_iff [of win f self s] assms by auto

end
