(* ===== verification/Datalog.thy ===== *)
theory Datalog
  imports Ring_Index
begin

text \<open>
  The datalog pallet, \<open>pallets/datalog/src/lib.rs\<close>: its three storage maps, the calls
  \<open>record\<close> and \<open>erase\<close> and the reader \<open>data\<close>, on every branch. What the pallet takes
  from its runtime (the traits of \<open>frame_system\<close> and the associated types of its own
  \<open>Trait\<close>) is the record \<open>datalog_trait\<close>, an argument of every operation. The storage
  operations also count the database reads and writes they make, for the weights.
\<close>

section \<open>Data\<close>

text \<open>\<open>RingBufferItem\<close>: the moment of a record and the record.\<close>

datatype ('m, 'r) ring_item = RingBufferItem (item_moment: 'm) (item_record: 'r)

fun item_into :: "('m, 'r) ring_item \<Rightarrow> 'm \<times> 'r" where
  "item_into (RingBufferItem now record_data) = (now, record_data)"

text \<open>
  \<open>Trait\<close>: the window size, the maximum message size, the record type (its size hint and
  its default), the default moment, and \<open>frame_system::ensure_signed\<close> on the runtime's
  origin type.
\<close>

record ('a, 'm, 'r, 'o, 'e) datalog_trait =
  ensure_signed :: "'o \<Rightarrow> ('a, 'e) result"
  size_hint :: "'r \<Rightarrow> usize"
  default_moment :: 'm
  default_record :: 'r
  window_size :: u64
  maximum_message_size :: usize

datatype 'e dispatch_error = RecordTooBig | Origin_error 'e

datatype ('a, 'm, 'r) datalog_event =
    NewRecord 'a 'm 'r
  | Erased 'a
  | RecordSent 'a

text \<open>
  \<open>Store\<close>: the maps \<open>Datalog\<close> (old values), \<open>DatalogIndex\<close> and \<open>DatalogItem\<close>, with
  the events deposited so far, the chain's clock (\<open>T::Time\<close>) and the access counters.
\<close>

record ('a, 'm, 'r) datalog_state =
  st_datalog :: "'a \<rightharpoonup> ('m \<times> 'r) list"
  st_index :: "'a \<rightharpoonup> ring_index"
  st_item :: "'a \<times> u64 \<rightharpoonup> ('m, 'r) ring_item"
  st_events :: "('a, 'm, 'r) datalog_event list"
  st_clock :: 'm
  st_reads :: nat
  st_writes :: nat

text \<open>The storage of a chain on which the pallet has not run: it has no genesis configuration.\<close>

definition datalog_genesis :: "'m \<Rightarrow> ('a, 'm, 'r) datalog_state" where
  "datalog_genesis t =
     \<lparr>st_datalog = Map.empty, st_index = Map.empty, st_item = Map.empty, st_events = [],
      st_clock = t, st_reads = 0, st_writes = 0\<rparr>"

text \<open>
  The storage on which this version of the pallet first runs: a former version may have left
  values in \<open>Datalog\<close>, the map of the old format.
\<close>

definition datalog_start :: "('a \<rightharpoonup> ('m \<times> 'r) list) \<Rightarrow> 'm \<Rightarrow> ('a, 'm, 'r) datalog_state" where
  "datalog_start old t = (datalog_genesis t)\<lparr>st_datalog := old\<rparr>"

lemma datalog_start_empty: "datalog_start Map.empty t = datalog_genesis t"
  by (simp add: datalog_start_def datalog_genesis_def)

definition item_default :: "('a, 'm, 'r, 'o, 'e) datalog_trait \<Rightarrow> ('m, 'r) ring_item" where
  "item_default T = RingBufferItem (default_moment T) (default_record T)"

section \<open>Storage accesses\<close>

text \<open>The getters: an absent key reads as the default of its value type.\<close>

definition datalog_get :: "'a \<Rightarrow> ('a, 'm, 'r) datalog_state \<Rightarrow> ('m \<times> 'r) list" where
  "datalog_get account s = (case st_datalog s account of None \<Rightarrow> [] | Some old \<Rightarrow> old)"

definition datalogidx_get :: "'a \<Rightarrow> ('a, 'm, 'r) datalog_state \<Rightarrow> ring_index" where
  "datalogidx_get account s = (case st_index s account of None \<Rightarrow> ring_default | Some idx \<Rightarrow> idx)"

definition datalogitem_get ::
  "('a, 'm, 'r, 'o, 'e) datalog_trait \<Rightarrow> 'a \<times> u64 \<Rightarrow> ('a, 'm, 'r) datalog_state \<Rightarrow> ('m, 'r) ring_item" where
  "datalogitem_get T key s = (case st_item s key of None \<Rightarrow> item_default T | Some item \<Rightarrow> item)"

definition datalog_remove :: "'a \<Rightarrow> ('a, 'm, 'r) datalog_state \<Rightarrow> ('a, 'm, 'r) datalog_state" where
  "datalog_remove sender s =
     s\<lparr>st_datalog := (st_datalog s)(sender := None), st_writes := st_writes s + 1\<rparr>"

definition datalogitem_insert ::
  "'a \<times> u64 \<Rightarrow> ('m, 'r) ring_item \<Rightarrow> ('a, 'm, 'r) datalog_state \<Rightarrow> ('a, 'm, 'r) datalog_state" where
  "datalogitem_insert key item s =
     s\<lparr>st_item := (st_item s)(key := Some item), st_writes := st_writes s + 1\<rparr>"

definition datalogitem_remove ::
  "'a \<times> u64 \<Rightarrow> ('a, 'm, 'r) datalog_state \<Rightarrow> ('a, 'm, 'r) datalog_state" where
  "datalogitem_remove key s =
     s\<lparr>st_item := (st_item s)(key := None), st_writes := st_writes s + 1\<rparr>"

text \<open>
  \<open>DatalogIndex::mutate\<close> runs its closure on the value read and writes the value back
  after it; the closure of \<open>record\<close> writes \<open>DatalogItem\<close> in between.
\<close>

definition datalogidx_mutate ::
  "'a \<Rightarrow> (ring_index \<Rightarrow> ('a, 'm, 'r) datalog_state \<Rightarrow> ring_index \<times> ('a, 'm, 'r) datalog_state)
   \<Rightarrow> ('a, 'm, 'r) datalog_state \<Rightarrow> ('a, 'm, 'r) datalog_state" where
  "datalogidx_mutate sender f s =
     (let idx = datalogidx_get sender s;
          s = s\<lparr>st_reads := st_reads s + 1\<rparr>;
          (idx, s) = f idx s
      in s\<lparr>st_index := (st_index s)(sender := Some idx), st_writes := st_writes s + 1\<rparr>)"

definition datalogidx_take ::
  "'a \<Rightarrow> ('a, 'm, 'r) datalog_state \<Rightarrow> ring_index \<times> ('a, 'm, 'r) datalog_state" where
  "datalogidx_take sender s =
     (datalogidx_get sender s,
      s\<lparr>st_index := (st_index s)(sender := None),
        st_reads := st_reads s + 1, st_writes := st_writes s + 1\<rparr>)"

text \<open>\<open>T::Time::now\<close>: the clock is a storage value of the runtime's timestamp pallet.\<close>

definition time_now :: "('a, 'm, 'r) datalog_state \<Rightarrow> 'm \<times> ('a, 'm, 'r) datalog_state" where
  "time_now s = (st_clock s, s\<lparr>st_reads := st_reads s + 1\<rparr>)"

text \<open>
  \<open>st_events\<close> holds the events of all blocks, in order; \<open>frame_system\<close> keeps those of the
  current block (\<open>Datalog_Bytes\<close>). Its accesses when an event is deposited are not counted:
  the runtime's benchmark whitelist, \<open>node/runtime/src/lib.rs\<close>, holds exactly these keys as
  accesses that no weight has to pay for.
\<close>

definition deposit_event ::
  "('a, 'm, 'r) datalog_event \<Rightarrow> ('a, 'm, 'r) datalog_state \<Rightarrow> ('a, 'm, 'r) datalog_state" where
  "deposit_event e s = s\<lparr>st_events := st_events s @ [e]\<rparr>"

section \<open>The calls\<close>

text \<open>\<open>record\<close>: the size is checked before the origin; nothing is written on an error.\<close>

definition record_call ::
  "('a, 'm, 'r, 'o, 'e) datalog_trait \<Rightarrow> 'o \<Rightarrow> 'r \<Rightarrow> ('a, 'm, 'r) datalog_state
   \<Rightarrow> (unit, 'e dispatch_error) result \<times> ('a, 'm, 'r) datalog_state" where
  "record_call T origin rec s =
     (if \<not> size_hint T rec \<le> maximum_message_size T then (Err RecordTooBig, s)
      else (case ensure_signed T origin of
        Err e \<Rightarrow> (Err (Origin_error e), s)
      | Ok sender \<Rightarrow>
          (let s = datalog_remove sender s;
               (now, s) = time_now s;
               item = RingBufferItem now rec;
               s = datalogidx_mutate sender
                     (\<lambda>idx s. let (end_slot, idx) = ring_add (window_size T) idx
                              in (idx, datalogitem_insert (sender, end_slot) item s)) s;
               (now, rec) = item_into item;
               s = deposit_event (NewRecord sender now rec) s
           in (Ok (), s))))"

text \<open>\<open>erase\<close>: \<open>None\<close> when the loop over the index does not return.\<close>

definition erase_call ::
  "('a, 'm, 'r, 'o, 'e) datalog_trait \<Rightarrow> 'o \<Rightarrow> ('a, 'm, 'r) datalog_state
   \<Rightarrow> ((unit, 'e dispatch_error) result \<times> ('a, 'm, 'r) datalog_state) option" where
  "erase_call T origin s =
     (case ensure_signed T origin of
        Err e \<Rightarrow> Some (Err (Origin_error e), s)
      | Ok sender \<Rightarrow>
          (let s = datalog_remove sender s;
               (idx, s) = datalogidx_take sender s
           in (case ring_for_each (window_size T) (\<lambda>start. datalogitem_remove (sender, start)) idx s of
                 None \<Rightarrow> None
               | Some s \<Rightarrow> Some (Ok (), deposit_event (Erased sender) s))))"

text \<open>\<open>data\<close>: the items of the live slots, oldest first.\<close>

definition datalog_data ::
  "('a, 'm, 'r, 'o, 'e) datalog_trait \<Rightarrow> 'a \<Rightarrow> ('a, 'm, 'r) datalog_state
   \<Rightarrow> ('m, 'r) ring_item list option" where
  "datalog_data T account s =
     (let idx = datalogidx_get account s
      in ring_for_each (window_size T) (\<lambda>i out. out @ [datalogitem_get T (account, i) s]) idx [])"

section \<open>What a state holds for an account\<close>

definition live_slots :: "('a, 'm, 'r, 'o, 'e) datalog_trait \<Rightarrow> ('a, 'm, 'r) datalog_state \<Rightarrow> 'a \<Rightarrow> u64 list" where
  "live_slots T s a = ring_slots (window_size T) (datalogidx_get a s)"

definition stored_slots :: "('a, 'm, 'r) datalog_state \<Rightarrow> 'a \<Rightarrow> u64 set" where
  "stored_slots s a = {u. st_item s (a, u) \<noteq> None}"

definition account_log ::
  "('a, 'm, 'r, 'o, 'e) datalog_trait \<Rightarrow> ('a, 'm, 'r) datalog_state \<Rightarrow> 'a \<Rightarrow> ('m, 'r) ring_item list" where
  "account_log T s a = map (\<lambda>u. datalogitem_get T (a, u) s) (live_slots T s a)"

text \<open>The cursors of every account lie inside the ring.\<close>

definition datalog_wf :: "('a, 'm, 'r, 'o, 'e) datalog_trait \<Rightarrow> ('a, 'm, 'r) datalog_state \<Rightarrow> bool" where
  "datalog_wf T s \<longleftrightarrow> (\<forall>a. ring_wf (window_size T) (datalogidx_get a s))"

definition log_cap :: "('a, 'm, 'r, 'o, 'e) datalog_trait \<Rightarrow> nat" where
  "log_cap T = ring_cap (window_size T)"

section \<open>The calls, branch by branch\<close>

lemma record_call_too_big:
  "\<not> size_hint T rec \<le> maximum_message_size T \<Longrightarrow> record_call T origin rec s = (Err RecordTooBig, s)"
  by (simp add: record_call_def)

lemma record_call_bad_origin:
  "size_hint T rec \<le> maximum_message_size T \<Longrightarrow> ensure_signed T origin = Err e
   \<Longrightarrow> record_call T origin rec s = (Err (Origin_error e), s)"
  by (simp add: record_call_def)

text \<open>The state after a successful \<open>record\<close> by \<open>a\<close>.\<close>

definition after_record ::
  "('a, 'm, 'r, 'o, 'e) datalog_trait \<Rightarrow> 'a \<Rightarrow> 'r \<Rightarrow> ('a, 'm, 'r) datalog_state \<Rightarrow> ('a, 'm, 'r) datalog_state" where
  "after_record T a rec s =
     s\<lparr>st_datalog := (st_datalog s)(a := None),
       st_index := (st_index s)(a := Some (snd (ring_add (window_size T) (datalogidx_get a s)))),
       st_item := (st_item s)((a, idx_end (datalogidx_get a s)) := Some (RingBufferItem (st_clock s) rec)),
       st_events := st_events s @ [NewRecord a (st_clock s) rec],
       st_reads := st_reads s + 2,
       st_writes := st_writes s + 3\<rparr>"

lemma record_call_ok:
  assumes "size_hint T rec \<le> maximum_message_size T" "ensure_signed T origin = Ok a"
  shows "record_call T origin rec s = (Ok (), after_record T a rec s)"
  using assms ring_add_slot [of "window_size T" "datalogidx_get a s"]
  by (cases s; cases "ring_add (window_size T) (datalogidx_get a s)")
    (simp add: record_call_def after_record_def datalog_remove_def time_now_def datalogidx_mutate_def
      datalogidx_get_def datalogitem_insert_def deposit_event_def)

text \<open>The state after an \<open>erase\<close> by \<open>a\<close> whose live slots are \<open>us\<close>.\<close>

definition after_erase :: "u64 list \<Rightarrow> 'a \<Rightarrow> ('a, 'm, 'r) datalog_state \<Rightarrow> ('a, 'm, 'r) datalog_state" where
  "after_erase us a s =
     s\<lparr>st_datalog := (st_datalog s)(a := None),
       st_index := (st_index s)(a := None),
       st_item := (\<lambda>(b, u). if b = a \<and> u \<in> set us then None else st_item s (b, u)),
       st_events := st_events s @ [Erased a],
       st_reads := st_reads s + 1,
       st_writes := st_writes s + 2 + length us\<rparr>"

lemma fold_datalogitem_remove:
  "fold (\<lambda>u. datalogitem_remove (a, u)) us s =
     s\<lparr>st_item := (\<lambda>(b, u). if b = a \<and> u \<in> set us then None else st_item s (b, u)),
       st_writes := st_writes s + length us\<rparr>"
proof (induction us arbitrary: s)
  case Nil
  then show ?case by (simp add: case_prod_eta)
next
  case (Cons u us)
  show ?case
    by (simp add: Cons.IH datalogitem_remove_def [of "(a, u)"]) (auto simp: fun_eq_iff)
qed

lemma erase_call_bad_origin:
  "ensure_signed T origin = Err e \<Longrightarrow> erase_call T origin s = Some (Err (Origin_error e), s)"
  by (simp add: erase_call_def)

lemma erase_call_ok:
  assumes wf: "ring_wf (window_size T) (datalogidx_get a s)" and signed: "ensure_signed T origin = Ok a"
  shows "erase_call T origin s = Some (Ok (), after_erase (live_slots T s a) a s)"
proof -
  have "erase_call T origin s =
      (case ring_for_each (window_size T) (\<lambda>u. datalogitem_remove (a, u)) (datalogidx_get a s)
              (snd (datalogidx_take a (datalog_remove a s))) of
         None \<Rightarrow> None | Some s \<Rightarrow> Some (Ok (), deposit_event (Erased a) s))"
    using signed by (simp add: erase_call_def datalogidx_take_def datalog_remove_def datalogidx_get_def)
  also have "\<dots> = Some (Ok (), deposit_event (Erased a)
      (fold (\<lambda>u. datalogitem_remove (a, u)) (live_slots T s a) (snd (datalogidx_take a (datalog_remove a s)))))"
    by (simp add: ring_for_each_wf [OF wf] live_slots_def)
  also have "\<dots> = Some (Ok (), after_erase (live_slots T s a) a s)"
    by (cases s) (simp add: fold_datalogitem_remove after_erase_def deposit_event_def
        datalogidx_take_def datalog_remove_def fun_eq_iff)
  finally show ?thesis .
qed

lemma fold_collect: "fold (\<lambda>i out. out @ [f i]) us out = out @ map f us"
  by (induction us arbitrary: out) simp_all

lemma datalog_data_wf:
  assumes "ring_wf (window_size T) (datalogidx_get a s)"
  shows "datalog_data T a s = Some (account_log T s a)"
  by (simp add: datalog_data_def ring_for_each_wf [OF assms] fold_collect account_log_def live_slots_def)

section \<open>Effect on the contents\<close>

lemmas after_simps = after_record_def after_erase_def datalogidx_get_def datalogitem_get_def datalog_get_def

lemma after_record_wf: "datalog_wf T s \<Longrightarrow> datalog_wf T (after_record T a rec s)"
  using ring.wf_push by (fastforce simp: datalog_wf_def after_simps)

lemma after_erase_wf: "datalog_wf T s \<Longrightarrow> datalog_wf T (after_erase us a s)"
  using ring.wf_fresh by (fastforce simp: datalog_wf_def after_simps)

lemma account_log_after_record:
  assumes "datalog_wf T s"
  shows "account_log T (after_record T a rec s) =
    (account_log T s)(a := last_n (log_cap T) (account_log T s a @ [RingBufferItem (st_clock s) rec]))"
proof
  fix b
  let ?idx = "datalogidx_get a s" and ?item = "RingBufferItem (st_clock s) rec"
  show "account_log T (after_record T a rec s) b =
    ((account_log T s)(a := last_n (log_cap T) (account_log T s a @ [?item]))) b"
  proof (cases "b = a")
    case False
    then show ?thesis
      by (simp add: account_log_def live_slots_def after_simps)
  next
    case True
    have wf: "ring_wf (window_size T) ?idx"
      using assms by (simp add: datalog_wf_def)
    have "(\<lambda>u. datalogitem_get T (a, u) (after_record T a rec s)) =
        (\<lambda>u. datalogitem_get T (a, u) s)(fst (ring_add (window_size T) ?idx) := ?item)"
      by (simp add: fun_eq_iff after_record_def datalogitem_get_def ring_add_slot)
    moreover have "live_slots T (after_record T a rec s) a = ring_slots (window_size T) (snd (ring_add (window_size T) ?idx))"
      by (simp add: live_slots_def after_record_def datalogidx_get_def)
    ultimately show ?thesis
      using ring.contents_push [OF wf, of "\<lambda>u. datalogitem_get T (a, u) s" ?item] True
      by (simp add: account_log_def log_cap_def live_slots_def)
  qed
qed

lemma account_log_after_erase:
  "account_log T (after_erase us a s) = (account_log T s)(a := [])"
proof
  fix b
  show "account_log T (after_erase us a s) b = ((account_log T s)(a := [])) b"
    by (cases "b = a") (simp_all add: account_log_def live_slots_def after_simps ring_slots_default)
qed

lemma datalog_genesis_clock [simp]: "st_clock (datalog_genesis t) = t"
  by (simp add: datalog_genesis_def)

lemma account_log_genesis: "account_log T (datalog_genesis t) = (\<lambda>_. [])"
  by (simp add: fun_eq_iff account_log_def live_slots_def datalogidx_get_def datalog_genesis_def
      ring_slots_default)

lemma datalog_wf_genesis: "datalog_wf T (datalog_genesis t)"
  by (simp add: datalog_wf_def datalogidx_get_def datalog_genesis_def ring_wf_default)

text \<open>The values of the old format do not matter to the ring.\<close>

lemma datalog_start_simps [simp]:
  "st_clock (datalog_start old t) = t" "st_events (datalog_start old t) = []"
  "st_datalog (datalog_start old t) = old" "st_item (datalog_start old t) = Map.empty"
  "datalogidx_get a (datalog_start old t) = ring_default" "account_log T (datalog_start old t) = (\<lambda>_. [])"
  by (simp_all add: fun_eq_iff datalog_start_def datalog_genesis_def account_log_def live_slots_def
      datalogidx_get_def ring_slots_default)

lemma datalog_wf_start: "datalog_wf T (datalog_start old t)"
  by (simp add: datalog_wf_def ring_wf_default)

lemma length_account_log_le: "length (account_log T s a) \<le> log_cap T"
  by (simp add: account_log_def live_slots_def log_cap_def ring_len_le_cap)

end
