(* ===== verification/Datalog_Log.thy ===== *)
theory Datalog_Log
  imports Datalog
begin

text \<open>
  What the datalog pallet promises: every account has a bounded log, \<open>record\<close> appends to
  the signer's log and forgets its oldest entry when the log is full, \<open>erase\<close> empties it.
  The promise is the locale \<open>bounded_log\<close>; its lemmas about whole histories are proved
  there and reach the pallet through the interpretation \<open>datalog\<close>.
\<close>

section \<open>Bounded logs\<close>

datatype ('a, 'x) log_op = Append 'a 'x | Clear 'a

fun op_account :: "('a, 'x) log_op \<Rightarrow> 'a" where
  "op_account (Append a x) = a"
| "op_account (Clear a) = a"

fun spec_step :: "nat \<Rightarrow> ('a, 'x) log_op \<Rightarrow> ('a \<Rightarrow> 'x list) \<Rightarrow> ('a \<Rightarrow> 'x list)" where
  "spec_step cap (Append a x) L = L(a := last_n cap (L a @ [x]))"
| "spec_step cap (Clear a) L = L(a := [])"

definition spec_run :: "nat \<Rightarrow> ('a, 'x) log_op list \<Rightarrow> ('a \<Rightarrow> 'x list) \<Rightarrow> ('a \<Rightarrow> 'x list)" where
  "spec_run cap ops L = fold (spec_step cap) ops L"

text \<open>The entries appended for an account since its last clearing.\<close>

fun since_clear :: "'a \<Rightarrow> ('a, 'x) log_op list \<Rightarrow> 'x list" where
  "since_clear a [] = []"
| "since_clear a (Append b x # ops) =
     (if b = a \<and> Clear a \<notin> set ops then x # since_clear a ops else since_clear a ops)"
| "since_clear a (Clear b # ops) = since_clear a ops"

lemma spec_run_simps [simp]:
  "spec_run cap [] L = L"
  "spec_run cap (op # ops) L = spec_run cap ops (spec_step cap op L)"
  "spec_run cap (ops @ ops') L = spec_run cap ops' (spec_run cap ops L)"
  by (simp_all add: spec_run_def)

lemma spec_step_other: "a \<noteq> op_account op \<Longrightarrow> spec_step cap op L a = L a"
  by (cases op) simp_all

lemma spec_run_other: "a \<notin> op_account ` set ops \<Longrightarrow> spec_run cap ops L a = L a"
  by (induction ops arbitrary: L) (auto simp: spec_step_other)

text \<open>A run determines a log from the entries since the last clearing alone.\<close>

lemma spec_run_since_clear:
  assumes "length (L a) \<le> cap"
  shows "spec_run cap ops L a =
    last_n cap ((if Clear a \<in> set ops then [] else L a) @ since_clear a ops)"
  using assms
proof (induction ops arbitrary: L)
  case Nil
  then show ?case by (simp add: last_n_short)
next
  case (Cons op ops)
  show ?case
  proof (cases op)
    case (Append b x)
    have "length (spec_step cap op L a) \<le> cap"
      using Cons.prems Append by (cases "b = a") auto
    from Cons.IH [of "spec_step cap op L", OF this] show ?thesis
      using Append by (auto simp: last_n_append_last_n fun_upd_def)
  next
    case (Clear b)
    have "length (spec_step cap op L a) \<le> cap"
      using Cons.prems Clear by (cases "b = a") auto
    from Cons.IH [of "spec_step cap op L", OF this] show ?thesis
      using Clear by (auto simp: fun_upd_def)
  qed
qed

locale bounded_log =
  fixes inv :: "'s \<Rightarrow> bool"
    and log :: "'s \<Rightarrow> 'a \<Rightarrow> 'x list"
    and append_entry :: "'a \<Rightarrow> 'x \<Rightarrow> 's \<Rightarrow> 's"
    and clear :: "'a \<Rightarrow> 's \<Rightarrow> 's"
    and cap :: nat
  assumes inv_append: "inv s \<Longrightarrow> inv (append_entry a x s)"
    and inv_clear: "inv s \<Longrightarrow> inv (clear a s)"
    and log_append: "inv s \<Longrightarrow> log (append_entry a x s) = (log s)(a := last_n cap (log s a @ [x]))"
    and log_clear: "inv s \<Longrightarrow> log (clear a s) = (log s)(a := [])"
begin

fun step :: "('a, 'x) log_op \<Rightarrow> 's \<Rightarrow> 's" where
  "step (Append a x) s = append_entry a x s"
| "step (Clear a) s = clear a s"

lemma step_refines: "inv s \<Longrightarrow> inv (step op s) \<and> log (step op s) = spec_step cap op (log s)"
  by (cases op) (simp_all add: inv_append inv_clear log_append log_clear)

lemma run_refines:
  "inv s \<Longrightarrow> inv (fold step ops s) \<and> log (fold step ops s) = spec_run cap ops (log s)"
  by (induction ops arbitrary: s) (simp_all add: step_refines)

text \<open>From empty logs, a log is the newest \<open>cap\<close> entries since the account's last clearing.\<close>

lemma run_from_empty:
  assumes "inv s" "log s a = []"
  shows "log (fold step ops s) a = last_n cap (since_clear a ops)"
  using run_refines [OF assms(1), of ops] spec_run_since_clear [of "log s" a cap ops] assms(2)
  by simp

lemma run_other:
  "inv s \<Longrightarrow> a \<notin> op_account ` set ops \<Longrightarrow> log (fold step ops s) a = log s a"
  by (simp add: run_refines spec_run_other)

end

section \<open>Calls as log operations\<close>

text \<open>
  A call of the pallet as the block executes it: the runtime's timestamp pallet sets the
  clock, and the two calls of the datalog pallet run with their origin.
\<close>

datatype ('m, 'r, 'o) datalog_call = Set_time 'm | Call_record 'o 'r | Call_erase 'o

fun run_call ::
  "('a, 'm, 'r, 'o, 'e) datalog_trait \<Rightarrow> ('m, 'r, 'o) datalog_call \<Rightarrow> ('a, 'm, 'r) datalog_state
   \<Rightarrow> ('a, 'm, 'r) datalog_state option" where
  "run_call T (Set_time t) s = Some (s\<lparr>st_clock := t\<rparr>)"
| "run_call T (Call_record origin rec) s = Some (snd (record_call T origin rec s))"
| "run_call T (Call_erase origin) s = map_option snd (erase_call T origin s)"

fun run_calls ::
  "('a, 'm, 'r, 'o, 'e) datalog_trait \<Rightarrow> ('m, 'r, 'o) datalog_call list \<Rightarrow> ('a, 'm, 'r) datalog_state
   \<Rightarrow> ('a, 'm, 'r) datalog_state option" where
  "run_calls T [] s = Some s"
| "run_calls T (c # cs) s = Option.bind (run_call T c s) (run_calls T cs)"

text \<open>The log operations a sequence of calls stands for; a refused call stands for none.\<close>

fun calls_ops ::
  "('a, 'm, 'r, 'o, 'e) datalog_trait \<Rightarrow> 'm \<Rightarrow> ('m, 'r, 'o) datalog_call list
   \<Rightarrow> ('a, ('m, 'r) ring_item) log_op list" where
  "calls_ops T now [] = []"
| "calls_ops T now (Set_time t # cs) = calls_ops T t cs"
| "calls_ops T now (Call_record origin rec # cs) =
     (case ensure_signed T origin of
        Ok a \<Rightarrow> (if size_hint T rec \<le> maximum_message_size T
                 then Append a (RingBufferItem now rec) # calls_ops T now cs
                 else calls_ops T now cs)
      | Err _ \<Rightarrow> calls_ops T now cs)"
| "calls_ops T now (Call_erase origin # cs) =
     (case ensure_signed T origin of
        Ok a \<Rightarrow> Clear a # calls_ops T now cs
      | Err _ \<Rightarrow> calls_ops T now cs)"

text \<open>The appending and the clearing of the pallet, as operations on its state.\<close>

definition append_item ::
  "('a, 'm, 'r, 'o, 'e) datalog_trait \<Rightarrow> 'a \<Rightarrow> ('m, 'r) ring_item \<Rightarrow> ('a, 'm, 'r) datalog_state
   \<Rightarrow> ('a, 'm, 'r) datalog_state" where
  "append_item T a item s = after_record T a (item_record item) (s\<lparr>st_clock := item_moment item\<rparr>)"

definition clear_items ::
  "('a, 'm, 'r, 'o, 'e) datalog_trait \<Rightarrow> 'a \<Rightarrow> ('a, 'm, 'r) datalog_state \<Rightarrow> ('a, 'm, 'r) datalog_state" where
  "clear_items T a s = after_erase (live_slots T s a) a s"

lemma account_log_clock: "account_log T (s\<lparr>st_clock := t\<rparr>) = account_log T s"
  by (simp add: fun_eq_iff account_log_def live_slots_def datalogidx_get_def datalogitem_get_def)

lemma datalog_wf_clock: "datalog_wf T (s\<lparr>st_clock := t\<rparr>) = datalog_wf T s"
  by (simp add: datalog_wf_def datalogidx_get_def)

interpretation datalog: bounded_log "datalog_wf T" "account_log T" "append_item T" "clear_items T" "log_cap T"
  for T :: "('a, 'm, 'r, 'o, 'e) datalog_trait"
proof unfold_locales
  fix s :: "('a, 'm, 'r) datalog_state" and a item
  assume wf: "datalog_wf T s"
  show "datalog_wf T (append_item T a item s)"
    using wf by (simp add: append_item_def after_record_wf datalog_wf_clock)
  show "datalog_wf T (clear_items T a s)"
    using wf by (simp add: clear_items_def after_erase_wf)
  show "account_log T (append_item T a item s) = (account_log T s)(a := last_n (log_cap T) (account_log T s a @ [item]))"
    using account_log_after_record [of T "s\<lparr>st_clock := item_moment item\<rparr>" a "item_record item"] wf
    by (simp add: append_item_def account_log_clock datalog_wf_clock)
  show "account_log T (clear_items T a s) = (account_log T s)(a := [])"
    by (simp add: clear_items_def account_log_after_erase)
qed

lemma append_item_now: "append_item T a (RingBufferItem (st_clock s) rec) s = after_record T a rec s"
  by (simp add: append_item_def)

lemma after_record_clock [simp]: "st_clock (after_record T a rec s) = st_clock s"
  by (simp add: after_record_def)

lemma after_erase_clock [simp]: "st_clock (after_erase us a s) = st_clock s"
  by (simp add: after_erase_def)

text \<open>One call refines the log operations it stands for.\<close>

lemma run_call_refines:
  assumes "datalog_wf T s"
  obtains s' where "run_call T c s = Some s'" "datalog_wf T s'"
    "account_log T s' = spec_run (log_cap T) (calls_ops T (st_clock s) [c]) (account_log T s)"
    "calls_ops T (st_clock s) (c # cs) = calls_ops T (st_clock s) [c] @ calls_ops T (st_clock s') cs"
proof (cases c)
  case (Set_time t)
  then show ?thesis
    using assms that [of "s\<lparr>st_clock := t\<rparr>"] by (simp add: account_log_clock datalog_wf_clock)
next
  case (Call_record origin rec)
  show ?thesis
  proof (cases "size_hint T rec \<le> maximum_message_size T")
    case False
    then show ?thesis
      using assms that [of s] Call_record
      by (simp add: record_call_too_big split: result.split)
  next
    case size: True
    show ?thesis
    proof (cases "ensure_signed T origin")
      case (Ok a)
      then show ?thesis
        using assms size that [of "after_record T a rec s"] Call_record
        by (simp add: record_call_ok after_record_wf account_log_after_record)
    next
      case (Err e)
      then show ?thesis
        using assms size that [of s] Call_record by (simp add: record_call_bad_origin)
    qed
  qed
next
  case (Call_erase origin)
  show ?thesis
  proof (cases "ensure_signed T origin")
    case (Ok a)
    then show ?thesis
      using assms that [of "after_erase (live_slots T s a) a s"] Call_erase
      by (simp add: erase_call_ok datalog_wf_def [THEN iffD1] after_erase_wf account_log_after_erase)
  next
    case (Err e)
    then show ?thesis
      using assms that [of s] Call_erase by (simp add: erase_call_bad_origin)
  qed
qed

lemma run_calls_refines:
  assumes "datalog_wf T s"
  shows "\<exists>s'. run_calls T cs s = Some s' \<and> datalog_wf T s' \<and>
    account_log T s' = spec_run (log_cap T) (calls_ops T (st_clock s) cs) (account_log T s)"
  using assms
proof (induction cs arbitrary: s)
  case Nil
  then show ?case by simp
next
  case (Cons c cs)
  from Cons.prems obtain s1 where s1: "run_call T c s = Some s1" "datalog_wf T s1"
    "account_log T s1 = spec_run (log_cap T) (calls_ops T (st_clock s) [c]) (account_log T s)"
    "calls_ops T (st_clock s) (c # cs) = calls_ops T (st_clock s) [c] @ calls_ops T (st_clock s1) cs"
    by (rule run_call_refines)
  from Cons.IH [OF s1(2)] s1 show ?case
    by simp
qed

end
