(* ===== verification/Datalog_Storage.thy ===== *)
theory Datalog_Storage
  imports Datalog_Log
begin

text \<open>
  The datalog pallet as a state machine: its calls and the ticks of the chain's clock are
  steps, and the invariants of the reachable states say what the three storage maps can
  hold. They cover the slots the ring no longer shows: a slot dropped by a full ring keeps
  its item until it is written again, and \<open>erase\<close> removes the live slots only.
\<close>

section \<open>Steps and reachable states\<close>

text \<open>\<open>tick t t'\<close>: the clock (the runtime's timestamp pallet) may move from \<open>t\<close> to \<open>t'\<close>.\<close>

inductive datalog_step ::
  "('a, 'm, 'r, 'o, 'e) datalog_trait \<Rightarrow> ('m \<Rightarrow> 'm \<Rightarrow> bool)
   \<Rightarrow> ('a, 'm, 'r) datalog_state \<Rightarrow> ('a, 'm, 'r) datalog_state \<Rightarrow> bool"
  for T tick where
  step_tick: "tick (st_clock s) t \<Longrightarrow> datalog_step T tick s (s\<lparr>st_clock := t\<rparr>)"
| step_record: "record_call T origin rec s = (res, s') \<Longrightarrow> datalog_step T tick s s'"
| step_erase: "erase_call T origin s = Some (res, s') \<Longrightarrow> datalog_step T tick s s'"

inductive datalog_reachable ::
  "('a, 'm, 'r, 'o, 'e) datalog_trait \<Rightarrow> ('m \<Rightarrow> 'm \<Rightarrow> bool) \<Rightarrow> ('a, 'm, 'r) datalog_state \<Rightarrow> bool"
  for T tick where
  reach_start: "datalog_reachable T tick (datalog_start old t)"
| reach_step: "datalog_reachable T tick s \<Longrightarrow> datalog_step T tick s s' \<Longrightarrow> datalog_reachable T tick s'"

inductive_simps datalog_step_iff: "datalog_step T tick s s'"

text \<open>In a well-formed state a step changes nothing, moves the clock, appends or erases.\<close>

lemma datalog_step_cases [consumes 2, case_names refused tick appended erased]:
  assumes "datalog_step T tick s s'" "datalog_wf T s"
  obtains "s' = s"
  | t where "tick (st_clock s) t" "s' = s\<lparr>st_clock := t\<rparr>"
  | a rec where "size_hint T rec \<le> maximum_message_size T" "s' = after_record T a rec s"
  | a where "s' = after_erase (live_slots T s a) a s"
  using assms(1)
proof cases
  case (step_tick t)
  then show ?thesis using that(2) by blast
next
  case (step_record origin rec res)
  show ?thesis
  proof (cases "size_hint T rec \<le> maximum_message_size T")
    case False
    with step_record that(1) show ?thesis
      by (simp add: record_call_too_big)
  next
    case True
    with step_record that(1,3) show ?thesis
      by (cases "ensure_signed T origin") (auto simp: record_call_ok record_call_bad_origin)
  qed
next
  case (step_erase origin res)
  with assms(2) that(1,4) show ?thesis
    by (cases "ensure_signed T origin") (auto simp: erase_call_ok erase_call_bad_origin datalog_wf_def)
qed

text \<open>Invariants of well-formed states, by their four kinds of step.\<close>

lemma datalog_reachable_invariant:
  assumes "datalog_reachable T tick s"
    and "\<And>old t. P (datalog_start old t)"
    and "\<And>s t. datalog_wf T s \<Longrightarrow> P s \<Longrightarrow> tick (st_clock s) t \<Longrightarrow> P (s\<lparr>st_clock := t\<rparr>)"
    and "\<And>s a rec. datalog_wf T s \<Longrightarrow> P s \<Longrightarrow> size_hint T rec \<le> maximum_message_size T
      \<Longrightarrow> P (after_record T a rec s)"
    and "\<And>s a. datalog_wf T s \<Longrightarrow> P s \<Longrightarrow> P (after_erase (live_slots T s a) a s)"
  shows "datalog_wf T s \<and> P s"
  using assms(1)
proof (induction rule: datalog_reachable.induct)
  case (reach_start old t)
  then show ?case by (simp add: datalog_wf_start assms(2))
next
  case (reach_step s s')
  then have wf: "datalog_wf T s" and P: "P s" by simp_all
  from reach_step.hyps(2) wf show ?case
    by (cases rule: datalog_step_cases)
      (auto simp: wf P assms(3-5) datalog_wf_clock after_record_wf after_erase_wf)
qed

lemma datalog_reachable_wf: "datalog_reachable T tick s \<Longrightarrow> datalog_wf T s"
  using datalog_reachable_invariant [of T tick s "\<lambda>_. True"] by blast

section \<open>Slots\<close>

definition ring_all :: "u64 \<Rightarrow> u64 set" where
  "ring_all win = ring_slot win ` {..<ring_mod win}"

lemma ring_all_iff: "u \<in> ring_all win \<longleftrightarrow> unat u < ring_mod win"
proof
  show "unat u < ring_mod win" if "u \<in> ring_all win"
    using that by (auto simp: ring_all_def unat_ring_slot_less)
  show "u \<in> ring_all win" if "unat u < ring_mod win"
    using that by (auto simp: ring_all_def word_eq_unat_iff unat_ring_slot intro!: image_eqI [of _ _ "unat u"])
qed

lemma card_ring_all: "card (ring_all win) = ring_mod win"
proof -
  have "inj_on (ring_slot win) {..<ring_mod win}"
    using ring_slot_inj [of win 0] by (intro inj_onI) auto
  then show ?thesis
    by (simp add: ring_all_def card_image)
qed

lemma finite_ring_all [simp]: "finite (ring_all win)"
  by (simp add: ring_all_def)

lemma live_slots_ring_all: "set (live_slots T s a) \<subseteq> ring_all (window_size T)"
  by (auto simp: live_slots_def ring_all_iff dest: ring_slots_bound)

lemma card_live_slots: "card (set (live_slots T s a)) = length (live_slots T s a)"
  by (simp add: live_slots_def distinct_card ring_slots_distinct del: length_ring_slots)

lemma end_in_ring_all: "datalog_wf T s \<Longrightarrow> idx_end (datalogidx_get a s) \<in> ring_all (window_size T)"
  by (simp add: ring_all_iff datalog_wf_def ring_wf_def)

lemma end_not_live: "datalog_wf T s \<Longrightarrow> idx_end (datalogidx_get a s) \<notin> set (live_slots T s a)"
  by (simp add: live_slots_def datalog_wf_def ring_end_not_live)

text \<open>When the ring is full, its end cursor is the only slot that is not live.\<close>

lemma full_ring_all:
  assumes "datalog_wf T s" "length (live_slots T s a) = log_cap T"
  shows "insert (idx_end (datalogidx_get a s)) (set (live_slots T s a)) = ring_all (window_size T)"
proof (rule card_seteq)
  show "insert (idx_end (datalogidx_get a s)) (set (live_slots T s a)) \<subseteq> ring_all (window_size T)"
    using live_slots_ring_all [of T s a] end_in_ring_all [OF assms(1), of a] by simp
  show "card (ring_all (window_size T)) \<le> card (insert (idx_end (datalogidx_get a s)) (set (live_slots T s a)))"
    using assms(2) end_not_live [OF assms(1)] ring_mod_pos [of "window_size T"]
    by (simp add: card_ring_all card_live_slots log_cap_def ring_cap_def)
qed simp

section \<open>The slots a call stores\<close>

lemma stored_slots_after_record:
  "stored_slots (after_record T a rec s) b =
    (if b = a then insert (idx_end (datalogidx_get a s)) (stored_slots s a) else stored_slots s b)"
  by (auto simp: stored_slots_def after_record_def)

lemma stored_slots_after_erase:
  "stored_slots (after_erase us a s) b = (if b = a then stored_slots s a - set us else stored_slots s b)"
  by (auto simp: stored_slots_def after_erase_def)

lemma live_slots_after_record:
  assumes "datalog_wf T s"
  shows "live_slots T (after_record T a rec s) b =
    (if b = a then last_n (log_cap T) (live_slots T s a @ [idx_end (datalogidx_get a s)]) else live_slots T s b)"
  using assms ring.slots_push [of "window_size T" "datalogidx_get a s"]
  by (simp add: live_slots_def after_record_def datalogidx_get_def log_cap_def datalog_wf_def ring_add_slot)

lemma live_slots_after_erase: "live_slots T (after_erase us a s) b = (if b = a then [] else live_slots T s b)"
  by (simp add: live_slots_def after_erase_def datalogidx_get_def ring_slots_default)

lemma live_slots_clock: "live_slots T (s\<lparr>st_clock := t\<rparr>) = live_slots T s"
  by (simp add: fun_eq_iff live_slots_def datalogidx_get_def)

lemma stored_slots_clock: "stored_slots (s\<lparr>st_clock := t\<rparr>) = stored_slots s"
  by (simp add: fun_eq_iff stored_slots_def)

text \<open>
  The storage invariant: every live slot holds an item, every item is in a slot of the
  ring, and at most one item per account is in a slot that is not live.
\<close>

definition storage_inv :: "('a, 'm, 'r, 'o, 'e) datalog_trait \<Rightarrow> ('a, 'm, 'r) datalog_state \<Rightarrow> bool" where
  "storage_inv T s \<longleftrightarrow>
     (\<forall>a. set (live_slots T s a) \<subseteq> stored_slots s a
        \<and> stored_slots s a \<subseteq> ring_all (window_size T)
        \<and> (\<exists>u. stored_slots s a - set (live_slots T s a) \<subseteq> {u}))"

lemma set_diff_last_n: "set (xs @ [x]) - set (last_n (length xs) (xs @ [x])) \<subseteq> {hd (xs @ [x])}"
  by (cases xs) (auto simp: last_n_def)

lemma storage_inv_record:
  assumes wf: "datalog_wf T s" and inv: "storage_inv T s"
  shows "storage_inv T (after_record T a rec s)"
  unfolding storage_inv_def
proof (intro allI conjI)
  fix b
  let ?v = "idx_end (datalogidx_get a s)" and ?s = "after_record T a rec s" and ?us = "live_slots T s a"
  note invs = inv [unfolded storage_inv_def, rule_format]
  show "set (live_slots T ?s b) \<subseteq> stored_slots ?s b"
    using invs [of a] invs [of b] set_last_n [of "log_cap T" "?us @ [?v]"]
    by (auto simp: live_slots_after_record [OF wf] stored_slots_after_record)
  show "stored_slots ?s b \<subseteq> ring_all (window_size T)"
    using invs [of a] invs [of b] end_in_ring_all [OF wf, of a]
    by (auto simp: stored_slots_after_record)
  show "\<exists>u. stored_slots ?s b - set (live_slots T ?s b) \<subseteq> {u}"
  proof (cases "b = a")
    case False
    then show ?thesis
      using invs [of b] by (simp add: live_slots_after_record [OF wf] stored_slots_after_record)
  next
    case True
    show ?thesis
    proof (cases "length ?us = log_cap T")
      case full: True
      have "stored_slots ?s a \<subseteq> set (?us @ [?v])"
        using invs [of a] full_ring_all [OF wf full] by (auto simp: stored_slots_after_record)
      then have "stored_slots ?s a - set (live_slots T ?s a) \<subseteq> {hd (?us @ [?v])}"
        using set_diff_last_n [of ?us ?v] full by (auto simp: live_slots_after_record [OF wf])
      with True show ?thesis by blast
    next
      case False
      then have "length (?us @ [?v]) \<le> log_cap T"
        using length_account_log_le [of T s a] by (simp add: account_log_def)
      then have "live_slots T ?s a = ?us @ [?v]"
        by (simp add: live_slots_after_record [OF wf] last_n_short)
      with True show ?thesis
        using invs [of a] by (auto simp: stored_slots_after_record)
    qed
  qed
qed

lemma storage_inv_erase:
  assumes "storage_inv T s"
  shows "storage_inv T (after_erase (live_slots T s a) a s)"
  using assms by (auto simp: storage_inv_def live_slots_after_erase stored_slots_after_erase)

lemma storage_inv_start: "storage_inv T (datalog_start old t)"
  by (simp add: storage_inv_def live_slots_def ring_slots_default stored_slots_def)

lemma storage_inv_genesis: "storage_inv T (datalog_genesis t)"
  using storage_inv_start [of T Map.empty t] by (simp add: datalog_start_empty)

lemma reach_genesis: "datalog_reachable T tick (datalog_genesis t)"
  using reach_start [of T tick Map.empty t] by (simp add: datalog_start_empty)

lemma reachable_storage_inv:
  assumes "datalog_reachable T tick s"
  shows "datalog_wf T s" "storage_inv T s"
proof -
  have "datalog_wf T s \<and> storage_inv T s"
    using assms
    by (rule datalog_reachable_invariant)
      (auto simp: storage_inv_start storage_inv_record storage_inv_erase,
       simp add: storage_inv_def live_slots_clock stored_slots_clock)
  then show "datalog_wf T s" "storage_inv T s" by simp_all
qed

section \<open>The items a state holds\<close>

lemma account_log_stored:
  assumes "storage_inv T s" "item \<in> set (account_log T s a)"
  obtains u where "u \<in> set (live_slots T s a)" "st_item s (a, u) = Some item"
proof -
  from assms(2) obtain u where u: "u \<in> set (live_slots T s a)" "item = datalogitem_get T (a, u) s"
    by (auto simp: account_log_def)
  moreover from u(1) assms(1) have "st_item s (a, u) \<noteq> None"
    by (auto simp: storage_inv_def stored_slots_def)
  ultimately show ?thesis
    using that by (auto simp: datalogitem_get_def)
qed

text \<open>What \<open>data\<close> reads is stored, slot by slot.\<close>

lemma stored_account_log:
  assumes "storage_inv T s"
  shows "map (\<lambda>u. st_item s (a, u)) (live_slots T s a) = map Some (account_log T s a)"
proof -
  have "st_item s (a, u) = Some (datalogitem_get T (a, u) s)" if "u \<in> set (live_slots T s a)" for u
  proof -
    have "st_item s (a, u) \<noteq> None"
      using that assms by (auto simp: storage_inv_def stored_slots_def)
    then show ?thesis
      by (auto simp: datalogitem_get_def)
  qed
  then show ?thesis
    by (simp add: account_log_def)
qed

lemma card_stored_le:
  assumes "storage_inv T s"
  shows "card (stored_slots s a) \<le> ring_mod (window_size T)"
  using assms card_mono [OF finite_ring_all] by (fastforce simp: storage_inv_def card_ring_all)

lemma stored_slots_bounds:
  assumes "storage_inv T s"
  shows "finite (stored_slots s a) \<and> card (stored_slots s a - set (live_slots T s a)) \<le> 1
    \<and> card (stored_slots s a) \<le> length (live_slots T s a) + 1"
proof -
  let ?live = "set (live_slots T s a)"
  obtain u where inv: "stored_slots s a \<subseteq> ring_all (window_size T)" "stored_slots s a - ?live \<subseteq> {u}"
    using assms unfolding storage_inv_def by blast
  have dead: "card (stored_slots s a - ?live) \<le> 1"
    using card_mono [OF _ inv(2)] by simp
  moreover have "stored_slots s a \<subseteq> ?live \<union> (stored_slots s a - ?live)"
    by blast
  then have "card (stored_slots s a) \<le> card ?live + card (stored_slots s a - ?live)"
    using inv(1) by (intro order_trans [OF card_mono card_Un_le]) (auto intro: finite_subset)
  ultimately show ?thesis
    using inv(1) by (auto simp: card_live_slots intro: finite_subset)
qed

definition items_sized :: "('a, 'm, 'r, 'o, 'e) datalog_trait \<Rightarrow> ('a, 'm, 'r) datalog_state \<Rightarrow> bool" where
  "items_sized T s \<longleftrightarrow>
     (\<forall>key item. st_item s key = Some item \<longrightarrow> size_hint T (item_record item) \<le> maximum_message_size T)"

lemma reachable_items_sized:
  assumes "datalog_reachable T tick s"
  shows "items_sized T s"
proof -
  have "datalog_wf T s \<and> items_sized T s"
    using assms
  proof (rule datalog_reachable_invariant)
    show "items_sized T (datalog_start old t)" for old t
      by (simp add: items_sized_def)
    show "items_sized T (s\<lparr>st_clock := t\<rparr>)" if "items_sized T s" for s t
      using that by (simp add: items_sized_def)
    show "items_sized T (after_record T a rec s)"
      if "items_sized T s" "size_hint T rec \<le> maximum_message_size T" for s a rec
      using that by (simp add: items_sized_def after_record_def)
    show "items_sized T (after_erase (live_slots T s a) a s)" if "items_sized T s" for s a
      using that by (simp add: items_sized_def after_erase_def)
  qed
  then show ?thesis by simp
qed

text \<open>The moments of a log are ordered, when the clock never moves back.\<close>

definition moments_ordered ::
  "('a, 'm::linorder, 'r, 'o, 'e) datalog_trait \<Rightarrow> ('a, 'm, 'r) datalog_state \<Rightarrow> bool" where
  "moments_ordered T s \<longleftrightarrow>
     (\<forall>a. sorted (map item_moment (account_log T s a) @ [st_clock s]))"

lemma sorted_last_n:
  assumes "sorted (map f xs @ [y])"
  shows "sorted (map f (last_n n xs) @ [y])"
proof -
  have "map f (last_n n xs) @ [y] = drop (length xs - n) (map f xs @ [y])"
    by (simp add: last_n_def drop_map)
  with assms show ?thesis
    by (simp only: sorted_wrt_drop)
qed

lemma sorted_snoc_later: "sorted (xs @ [y]) \<Longrightarrow> y \<le> z \<Longrightarrow> sorted (xs @ [z])"
  by (auto simp: sorted_append)

lemma reachable_moments_ordered:
  assumes "datalog_reachable T tick s" "\<And>x y. tick x y \<Longrightarrow> x \<le> y"
  shows "moments_ordered T s"
proof -
  have "datalog_wf T s \<and> moments_ordered T s"
    using assms(1)
  proof (rule datalog_reachable_invariant)
    show "moments_ordered T (datalog_start old t)" for old t
      by (simp add: moments_ordered_def)
    show "moments_ordered T (s\<lparr>st_clock := t\<rparr>)" if "moments_ordered T s" "tick (st_clock s) t" for s t
      using that assms(2) by (auto simp: moments_ordered_def account_log_clock intro: sorted_snoc_later)
    show "moments_ordered T (after_record T a rec s)"
      if wf: "datalog_wf T s" and ord: "moments_ordered T s" for s a rec
    proof -
      have "sorted (map item_moment (account_log T s a @ [RingBufferItem (st_clock s) rec]) @ [st_clock s])"
        using ord by (auto simp: moments_ordered_def sorted_append)
      from sorted_last_n [OF this] show ?thesis
        using ord by (auto simp: moments_ordered_def account_log_after_record [OF wf])
    qed
    show "moments_ordered T (after_erase (live_slots T s a) a s)" if "moments_ordered T s" for s a
      using that by (simp add: moments_ordered_def account_log_after_erase)
  qed
  then show ?thesis by simp
qed

section \<open>Runs\<close>

lemma run_calls_append: "run_calls T (cs @ ds) s = Option.bind (run_calls T cs s) (run_calls T ds)"
  by (induction cs arbitrary: s) (simp_all split: bind_split)

lemma fold_after_record_wf: "datalog_wf T s \<Longrightarrow> datalog_wf T (fold (after_record T a) recs s)"
  by (induction recs arbitrary: s) (simp_all add: after_record_wf)

lemma idx_end_after_record:
  "idx_end (datalogidx_get a (after_record T a rec s)) =
    ring_next (idx_end (datalogidx_get a s)) (window_size T)"
  by (simp add: after_record_def datalogidx_get_def ring_add_def Let_def)

section \<open>The events as an audit trail\<close>

fun event_op :: "('a, 'm, 'r) datalog_event \<Rightarrow> ('a, ('m, 'r) ring_item) log_op option" where
  "event_op (NewRecord a now rec) = Some (Append a (RingBufferItem now rec))"
| "event_op (Erased a) = Some (Clear a)"
| "event_op (RecordSent a) = None"

definition events_ops :: "('a, 'm, 'r) datalog_event list \<Rightarrow> ('a, ('m, 'r) ring_item) log_op list" where
  "events_ops es = List.map_filter event_op es"

lemma events_ops_append: "events_ops (es @ es') = events_ops es @ events_ops es'"
  by (simp add: events_ops_def map_filter_def)

lemma events_ops_simps [simp]:
  "events_ops [] = []"
  "events_ops [NewRecord a now rec] = [Append a (RingBufferItem now rec)]"
  "events_ops [Erased a] = [Clear a]"
  by (simp_all add: events_ops_def map_filter_def)

definition audit_inv :: "('a, 'm, 'r, 'o, 'e) datalog_trait \<Rightarrow> ('a, 'm, 'r) datalog_state \<Rightarrow> bool" where
  "audit_inv T s \<longleftrightarrow>
     account_log T s = spec_run (log_cap T) (events_ops (st_events s)) (\<lambda>_. [])
     \<and> (\<forall>a. RecordSent a \<notin> set (st_events s))"

lemma reachable_audit_inv:
  assumes "datalog_reachable T tick s"
  shows "audit_inv T s"
proof -
  have "datalog_wf T s \<and> audit_inv T s"
    using assms
  proof (rule datalog_reachable_invariant)
    show "audit_inv T (datalog_start old t)" for old t
      by (simp add: audit_inv_def)
    show "audit_inv T (s\<lparr>st_clock := t\<rparr>)" if "audit_inv T s" for s t
      using that by (simp add: audit_inv_def account_log_clock)
    show "audit_inv T (after_record T a rec s)" if "datalog_wf T s" "audit_inv T s" for s a rec
      using that by (simp add: audit_inv_def account_log_after_record,
          simp add: after_record_def events_ops_append)
    show "audit_inv T (after_erase (live_slots T s a) a s)" if "audit_inv T s" for s a
      using that by (simp add: audit_inv_def account_log_after_erase,
          simp add: after_erase_def events_ops_append)
  qed
  then show ?thesis by simp
qed

section \<open>Runs and reachable states\<close>

fun_cases run_call_timeE: "run_call T (Set_time t) s = Some s'"
  and run_call_recordE: "run_call T (Call_record origin rec) s = Some s'"

inductive_cases datalog_step_elim: "datalog_step T tick s s'"

lemma run_call_step:
  assumes "run_call T c s = Some s'"
  shows "datalog_step T (\<lambda>_ _. True) s s'"
proof (cases c)
  case (Set_time t)
  with assms show ?thesis
    by (auto elim: run_call_timeE intro: step_tick)
next
  case (Call_record origin rec)
  with assms show ?thesis
    by (metis run_call_recordE step_record surjective_pairing)
next
  case (Call_erase origin)
  with assms show ?thesis
    by (auto intro: step_erase)
qed

lemma step_run_call:
  assumes "datalog_step T tick s s'"
  shows "\<exists>c. run_call T c s = Some s'"
  using assms
proof (rule datalog_step_elim)
  fix t
  assume "s' = s\<lparr>st_clock := t\<rparr>"
  then show ?thesis
    by (intro exI [of _ "Set_time t"]) simp
next
  fix origin rec res
  assume "record_call T origin rec s = (res, s')"
  then show ?thesis
    by (intro exI [of _ "Call_record origin rec"]) simp
next
  fix origin res
  assume "erase_call T origin s = Some (res, s')"
  then show ?thesis
    by (intro exI [of _ "Call_erase origin"]) simp
qed

lemma run_calls_reachable:
  assumes "datalog_reachable T (\<lambda>_ _. True) s" "run_calls T cs s = Some s'"
  shows "datalog_reachable T (\<lambda>_ _. True) s'"
  using assms
  by (induction cs arbitrary: s) (auto simp: bind_eq_Some_conv dest: run_call_step intro: reach_step)

text \<open>The reachable states are those a sequence of calls leads to from a first state.\<close>

lemma reachable_iff_run:
  "datalog_reachable T (\<lambda>_ _. True) s \<longleftrightarrow> (\<exists>old t cs. run_calls T cs (datalog_start old t) = Some s)"
proof
  assume "datalog_reachable T (\<lambda>_ _. True) s"
  then show "\<exists>old t cs. run_calls T cs (datalog_start old t) = Some s"
  proof (induction rule: datalog_reachable.induct)
    case (reach_start old t)
    then show ?case by (intro exI [of _ old] exI [of _ t] exI [of _ "[]"]) simp
  next
    case (reach_step s s')
    then obtain old t cs where cs: "run_calls T cs (datalog_start old t) = Some s" by blast
    from reach_step.hyps(2) obtain c where c: "run_call T c s = Some s'"
      by (auto dest: step_run_call)
    show ?case
      using cs c by (intro exI [of _ old] exI [of _ t] exI [of _ "cs @ [c]"]) (simp add: run_calls_append)
  qed
next
  assume "\<exists>old t cs. run_calls T cs (datalog_start old t) = Some s"
  then show "datalog_reachable T (\<lambda>_ _. True) s"
    by (auto intro: run_calls_reachable reach_start)
qed

end
