(* ===== verification/Datalog_Weight.thy ===== *)
theory Datalog_Weight
  imports Datalog_Storage Rust_Int
begin

text \<open>
  The weights of the datalog calls, \<open>pallets/datalog/src/default_weight.rs\<close>, against the
  database accesses the calls make. The cost of accesses is the runtime's database weight
  (\<open>RocksDbWeight\<close> of \<open>frame_support\<close>), a parameter: the weight of \<open>n\<close> reads and of
  \<open>n\<close> writes. The trait \<open>WeightInfo\<close> is the locale \<open>weight_info\<close>.
\<close>

record db_weight =
  db_reads :: "u64 \<Rightarrow> u64"
  db_writes :: "u64 \<Rightarrow> u64"

section \<open>The default weights\<close>

definition weight_record :: "db_weight \<Rightarrow> u64" where
  "weight_record DbWeight =
     saturating_add (saturating_add 500000 (db_reads DbWeight 2)) (db_writes DbWeight 3)"

definition weight_erase :: "db_weight \<Rightarrow> u64 \<Rightarrow> u64" where
  "weight_erase DbWeight win =
     saturating_add (saturating_add 100000 (db_reads DbWeight 1)) (db_writes DbWeight (1 + win))"

section \<open>What a weight has to cover\<close>

text \<open>The cost of \<open>r\<close> reads and \<open>w\<close> writes.\<close>

definition db_cost :: "db_weight \<Rightarrow> u64 \<Rightarrow> u64 \<Rightarrow> u64" where
  "db_cost DbWeight r w = saturating_add (db_reads DbWeight r) (db_writes DbWeight w)"

text \<open>Documented behaviour of the database weight: more accesses do not cost less.\<close>

definition db_weight_mono :: "db_weight \<Rightarrow> bool" where
  "db_weight_mono DbWeight \<longleftrightarrow>
     (\<forall>m n. m \<le> n \<longrightarrow> db_reads DbWeight m \<le> db_reads DbWeight n \<and> db_writes DbWeight m \<le> db_writes DbWeight n)"

lemma db_cost_mono:
  "db_weight_mono D \<Longrightarrow> r \<le> r' \<Longrightarrow> w \<le> w' \<Longrightarrow> db_cost D r w \<le> db_cost D r' w'"
  by (simp add: db_cost_def db_weight_mono_def saturating_add_mono)

text \<open>The accesses a call made, as the counters of two states show them.\<close>

definition reads_made :: "('a, 'm, 'r) datalog_state \<Rightarrow> ('a, 'm, 'r) datalog_state \<Rightarrow> nat" where
  "reads_made s s' = st_reads s' - st_reads s"

definition writes_made :: "('a, 'm, 'r) datalog_state \<Rightarrow> ('a, 'm, 'r) datalog_state \<Rightarrow> nat" where
  "writes_made s s' = st_writes s' - st_writes s"

lemma record_accesses: "reads_made s (after_record T a rec s) = 2" "writes_made s (after_record T a rec s) = 3"
  by (simp_all add: reads_made_def writes_made_def after_record_def)

lemma erase_accesses:
  "reads_made s (after_erase us a s) = 1" "writes_made s (after_erase us a s) = 2 + length us"
  by (simp_all add: reads_made_def writes_made_def after_erase_def)

lemma erase_writes_le:
  assumes "window_size T \<noteq> 0"
  shows "2 + length (live_slots T s a) \<le> 1 + unat (window_size T)"
  using length_account_log_le [of T s a] ring_mod_pos [of "window_size T"] assms
  by (simp add: account_log_def log_cap_def ring_cap_def ring_mod_def)

locale weight_info =
  fixes D :: db_weight
    and w_record :: u64
    and w_erase :: "u64 \<Rightarrow> u64"
  assumes record_covers: "db_cost D 2 3 \<le> w_record"
    and erase_covers: "db_cost D 1 (1 + win) \<le> w_erase win"
begin

lemma record_covered:
  assumes "db_weight_mono D" "r \<le> 2" "w \<le> 3"
  shows "db_cost D r w \<le> w_record"
  using db_cost_mono [OF assms] record_covers by (rule order_trans)

text \<open>The count of writes is read at the width of the weight, which the bound must fit.\<close>

lemma erase_covered:
  assumes "db_weight_mono D" "win \<noteq> - 1" "n \<le> 1 + unat win"
  shows "db_cost D 1 (of_nat n) \<le> w_erase win"
proof -
  have "unat win \<noteq> 2 ^ 64 - 1"
    using assms(2) by (simp add: word_eq_unat_iff unat_minus_one_word)
  then have lt: "unat win + 1 < 2 ^ 64"
    using unat_lt_64 [of win] by simp
  then have "unat (1 + win) = 1 + unat win"
    by (subst unat_add_exact) simp_all
  moreover have "unat (of_nat n :: u64) = n"
    using assms(3) lt by (intro unat_of_nat_64) simp
  ultimately have "of_nat n \<le> 1 + win"
    using assms(3) by (simp add: word_le_nat_alt)
  from db_cost_mono [OF assms(1) order_refl this] erase_covers show ?thesis
    by (rule order_trans)
qed

end

lemma saturating_add_3_ge: "saturating_add x y \<le> saturating_add (saturating_add c x) y"
  by (intro saturating_add_mono saturating_add_ge order_refl)

interpretation default_weight: weight_info D "weight_record D" "weight_erase D" for D
  by unfold_locales (simp_all add: db_cost_def weight_record_def weight_erase_def saturating_add_3_ge)

end
