(* ===== verification/Runtime_Pallets.thy ===== *)
theory Runtime_Pallets
  imports Runtime_Constants Runtime_Config Datalog_Weight
begin

text \<open>
  How \<open>node/runtime/src/lib.rs\<close> composes the runtime: the pallets of \<open>construct_runtime!\<close>
  with the parts each contributes, the instance of the datalog pallet, and the pallets the
  benchmark dispatcher names.
\<close>

section \<open>The datalog pallet of the runtime\<close>

text \<open>
  \<open>impl pallet_robonomics_datalog::Trait for Runtime\<close>: byte records, 128 slots, 512 bytes.
  The origin check, the size hint and the defaults are those of Substrate's types.
\<close>

definition runtime_datalog ::
  "('o \<Rightarrow> ('a, 'e) result) \<Rightarrow> (u8 list \<Rightarrow> usize) \<Rightarrow> ('a, moment, u8 list, 'o, 'e) datalog_trait" where
  "runtime_datalog ensure hint =
     \<lparr>ensure_signed = ensure,
      size_hint = hint,
      default_moment = 0,
      default_record = [],
      window_size = DatalogWindowSize,
      maximum_message_size = DatalogMaximumMessageSize\<rparr>"

section \<open>The composition\<close>

datatype pallet_part =
    Part_Module | Part_Call | Part_Storage | Part_Event | Part_Config | Part_Inherent | Part_ValidateUnsigned

record pallet =
  pallet_name :: string
  pallet_crate :: string
  pallet_parts :: "pallet_part list"

definition pallet_entry :: "string \<Rightarrow> string \<Rightarrow> pallet_part list \<Rightarrow> pallet" where
  "pallet_entry name crate parts = \<lparr>pallet_name = name, pallet_crate = crate, pallet_parts = parts\<rparr>"

definition construct_runtime :: "pallet list" where
  "construct_runtime =
     [pallet_entry ''System'' ''frame_system'' [Part_Module, Part_Call, Part_Config, Part_Storage, Part_Event],
      pallet_entry ''Utility'' ''pallet_utility'' [Part_Module, Part_Call, Part_Event],
      pallet_entry ''Timestamp'' ''pallet_timestamp'' [Part_Module, Part_Call, Part_Storage, Part_Inherent],
      pallet_entry ''Identity'' ''pallet_identity'' [Part_Module, Part_Call, Part_Storage, Part_Event],
      pallet_entry ''Indices'' ''pallet_indices'' [Part_Module, Part_Call, Part_Storage, Part_Config, Part_Event],
      pallet_entry ''Balances'' ''pallet_balances'' [Part_Module, Part_Call, Part_Storage, Part_Config, Part_Event],
      pallet_entry ''TransactionPayment'' ''pallet_transaction_payment'' [Part_Module, Part_Storage],
      pallet_entry ''Multisig'' ''pallet_multisig'' [Part_Module, Part_Call, Part_Storage, Part_Event],
      pallet_entry ''RandomnessCollectiveFlip'' ''pallet_randomness_collective_flip'' [Part_Module, Part_Call, Part_Storage],
      pallet_entry ''Session'' ''pallet_session'' [Part_Module, Part_Call, Part_Storage, Part_Event, Part_Config],
      pallet_entry ''Authorship'' ''pallet_authorship'' [Part_Module, Part_Call, Part_Storage, Part_Inherent],
      pallet_entry ''Staking'' ''pallet_staking'' [Part_Module, Part_Call, Part_Config, Part_Storage, Part_Event, Part_ValidateUnsigned],
      pallet_entry ''Offences'' ''pallet_offences'' [Part_Module, Part_Call, Part_Storage, Part_Event],
      pallet_entry ''Historical'' ''pallet_session_historical'' [Part_Module],
      pallet_entry ''Babe'' ''pallet_babe'' [Part_Module, Part_Call, Part_Storage, Part_Config, Part_Inherent, Part_ValidateUnsigned],
      pallet_entry ''Grandpa'' ''pallet_grandpa'' [Part_Module, Part_Call, Part_Storage, Part_Config, Part_Event, Part_ValidateUnsigned],
      pallet_entry ''ImOnline'' ''pallet_im_online'' [Part_Module, Part_Call, Part_Storage, Part_Event, Part_ValidateUnsigned, Part_Config],
      pallet_entry ''AuthorityDiscovery'' ''pallet_authority_discovery'' [Part_Module, Part_Call, Part_Config],
      pallet_entry ''Datalog'' ''pallet_robonomics_datalog'' [Part_Module, Part_Call, Part_Storage, Part_Event],
      pallet_entry ''Sudo'' ''pallet_sudo'' [Part_Module, Part_Call, Part_Storage, Part_Event, Part_Config]]"

definition pallets_with :: "pallet_part \<Rightarrow> string list" where
  "pallets_with part = map pallet_crate (filter (\<lambda>p. part \<in> set (pallet_parts p)) construct_runtime)"

text \<open>The pallets for which the file implements \<open>Trait for Runtime\<close>, in its order.\<close>

definition runtime_trait_impls :: "string list" where
  "runtime_trait_impls = map fst trait_impls"

text \<open>A pallet's trait names the overarching event exactly when the pallet has events.\<close>

definition events_wired :: "pallet \<Rightarrow> bool" where
  "events_wired p =
     (assigned (pallet_crate p) ''Event'' = (if Part_Event \<in> set (pallet_parts p) then Some ''Event'' else None))"

section \<open>The benchmark dispatcher\<close>

text \<open>
  \<open>dispatch_benchmark\<close> runs the benchmarks of these pallets in order; a benchmark run
  (\<open>add_benchmark!\<close> of \<open>frame_benchmarking\<close>) may fail and may add batches.
\<close>

definition benchmarked_pallets :: "string list" where
  "benchmarked_pallets =
     [''pallet_babe'', ''pallet_balances'', ''pallet_grandpa'', ''pallet_identity'', ''pallet_im_online'',
      ''pallet_indices'', ''pallet_multisig'', ''pallet_offences'', ''pallet_session'', ''pallet_staking'',
      ''frame_system'', ''pallet_timestamp'', ''pallet_utility'']"

fun add_benchmarks ::
  "(string \<Rightarrow> ('batch list, string) result) \<Rightarrow> string list \<Rightarrow> 'batch list \<Rightarrow> ('batch list, string) result" where
  "add_benchmarks add_benchmark [] batches = Ok batches"
| "add_benchmarks add_benchmark (p # ps) batches =
     and_then (add_benchmark p) (\<lambda>new. add_benchmarks add_benchmark ps (batches @ new))"

definition dispatch_benchmark ::
  "(string \<Rightarrow> ('batch list, string) result) \<Rightarrow> ('batch list, string) result" where
  "dispatch_benchmark add_benchmark =
     and_then (add_benchmarks add_benchmark benchmarked_pallets [])
       (\<lambda>batches. if batches = [] then Err ''Benchmark not found for this pallet.'' else Ok batches)"

lemma add_benchmarks_Ok:
  "add_benchmarks f ps batches = Ok out \<longleftrightarrow>
     (\<forall>p\<in>set ps. is_ok (f p)) \<and> out = batches @ concat (map (\<lambda>p. the_ok (f p)) ps)"
proof (induction ps arbitrary: batches)
  case Nil
  then show ?case by auto
next
  case (Cons p ps)
  then show ?case by (cases "f p") auto
qed

lemma add_benchmarks_Err:
  "add_benchmarks f ps batches = Err e \<longleftrightarrow>
     (\<exists>qs p rs. ps = qs @ p # rs \<and> (\<forall>q\<in>set qs. is_ok (f q)) \<and> f p = Err e)"
proof (induction ps arbitrary: batches)
  case Nil
  then show ?case by simp
next
  case (Cons p ps)
  show ?case
  proof (cases "f p")
    case (Ok new)
    then have eq: "add_benchmarks f (p # ps) batches = Err e \<longleftrightarrow>
        (\<exists>qs q rs. ps = qs @ q # rs \<and> (\<forall>q\<in>set qs. is_ok (f q)) \<and> f q = Err e)"
      by (simp add: Cons.IH)
    show ?thesis
      unfolding eq
    proof
      assume "\<exists>qs q rs. ps = qs @ q # rs \<and> (\<forall>q\<in>set qs. is_ok (f q)) \<and> f q = Err e"
      then obtain qs q rs where "p # ps = (p # qs) @ q # rs" "\<forall>q\<in>set (p # qs). is_ok (f q)" "f q = Err e"
        using Ok by auto
      then show "\<exists>qs q rs. p # ps = qs @ q # rs \<and> (\<forall>q\<in>set qs. is_ok (f q)) \<and> f q = Err e"
        by blast
    next
      assume "\<exists>qs q rs. p # ps = qs @ q # rs \<and> (\<forall>q\<in>set qs. is_ok (f q)) \<and> f q = Err e"
      with Ok show "\<exists>qs q rs. ps = qs @ q # rs \<and> (\<forall>q\<in>set qs. is_ok (f q)) \<and> f q = Err e"
        by (force simp: Cons_eq_append_conv)
    qed
  next
    case (Err e')
    then show ?thesis
      by (force simp: Cons_eq_append_conv)
  qed
qed

end
