(* ===== verification/Runtime_Api.thy ===== *)
theory Runtime_Api
  imports Runtime_Pallets
begin

text \<open>
  The runtime APIs of \<open>node/runtime/src/lib.rs\<close> (\<open>impl_runtime_apis!\<close>) and the version
  constants they report. Most functions forward to Substrate's \<open>Executive\<close> or to a pallet:
  those calls are a table. The BABE configuration and the reports of equivocations have
  logic of their own, over the records \<open>babe_module\<close>, \<open>historical\<close> and \<open>evidence_pallet\<close> of
  what they call.
\<close>

section \<open>Versions\<close>

record 'apis RuntimeVersion =
  spec_name :: string
  impl_name :: string
  authoring_version :: u32
  spec_version :: u32
  impl_version :: u32
  version_apis :: 'apis
  transaction_version :: u32

text \<open>\<open>RUNTIME_API_VERSIONS\<close> is generated by the macro, an argument.\<close>

definition VERSION :: "'apis \<Rightarrow> 'apis RuntimeVersion" where
  "VERSION RUNTIME_API_VERSIONS =
     \<lparr>spec_name = ''ipci'',
      impl_name = ''ipci-airalab'',
      authoring_version = 1,
      spec_version = 20,
      impl_version = 20,
      version_apis = RUNTIME_API_VERSIONS,
      transaction_version = 2\<rparr>"

record 'apis NativeVersion =
  runtime_version :: "'apis RuntimeVersion"
  can_author_with :: "u32 set"

definition native_version :: "'apis \<Rightarrow> 'apis NativeVersion" where
  "native_version RUNTIME_API_VERSIONS =
     \<lparr>runtime_version = VERSION RUNTIME_API_VERSIONS, can_author_with = {}\<rparr>"

section \<open>What the functions call\<close>

text \<open>One table per implementation: the functions in their order, each with what it calls.\<close>

type_synonym api_impl = "(string \<times> string) list"

definition core_api :: api_impl where
  "core_api =
     [(''version'', ''VERSION''),
      (''execute_block'', ''Executive::execute_block''),
      (''initialize_block'', ''Executive::initialize_block'')]"

definition metadata_api :: api_impl where
  "metadata_api = [(''metadata'', ''Runtime::metadata'')]"

definition block_builder_api :: api_impl where
  "block_builder_api =
     [(''apply_extrinsic'', ''Executive::apply_extrinsic''),
      (''finalize_block'', ''Executive::finalize_block''),
      (''inherent_extrinsics'', ''data.create_extrinsics''),
      (''check_inherents'', ''data.check_extrinsics''),
      (''random_seed'', ''RandomnessCollectiveFlip::random_seed'')]"

definition tagged_transaction_queue_api :: api_impl where
  "tagged_transaction_queue_api = [(''validate_transaction'', ''Executive::validate_transaction'')]"

definition offchain_worker_api :: api_impl where
  "offchain_worker_api = [(''offchain_worker'', ''Executive::offchain_worker'')]"

definition grandpa_api :: api_impl where
  "grandpa_api =
     [(''grandpa_authorities'', ''Grandpa::grandpa_authorities''),
      (''submit_report_equivocation_unsigned_extrinsic'', ''Grandpa::submit_unsigned_equivocation_report''),
      (''generate_key_ownership_proof'', ''Historical::prove'')]"

definition babe_api :: api_impl where
  "babe_api =
     [(''configuration'', ''Babe::slot_duration''),
      (''configuration'', ''Babe::authorities''),
      (''configuration'', ''Babe::randomness''),
      (''current_epoch_start'', ''Babe::current_epoch_start''),
      (''generate_key_ownership_proof'', ''Historical::prove''),
      (''submit_report_equivocation_unsigned_extrinsic'', ''Babe::submit_unsigned_equivocation_report'')]"

definition authority_discovery_api :: api_impl where
  "authority_discovery_api = [(''authorities'', ''AuthorityDiscovery::authorities'')]"

definition account_nonce_api :: api_impl where
  "account_nonce_api = [(''account_nonce'', ''System::account_nonce'')]"

definition transaction_payment_api :: api_impl where
  "transaction_payment_api = [(''query_info'', ''TransactionPayment::query_info'')]"

definition session_keys_api :: api_impl where
  "session_keys_api =
     [(''generate_session_keys'', ''SessionKeys::generate''),
      (''decode_session_keys'', ''SessionKeys::decode_into_raw_public_keys'')]"

definition runtime_apis :: "(string \<times> api_impl) list" where
  "runtime_apis =
     [(''sp_api::Core'', core_api),
      (''sp_api::Metadata'', metadata_api),
      (''sp_block_builder::BlockBuilder'', block_builder_api),
      (''sp_transaction_pool::runtime_api::TaggedTransactionQueue'', tagged_transaction_queue_api),
      (''sp_offchain::OffchainWorkerApi'', offchain_worker_api),
      (''fg_primitives::GrandpaApi'', grandpa_api),
      (''sp_consensus_babe::BabeApi'', babe_api),
      (''sp_authority_discovery::AuthorityDiscoveryApi'', authority_discovery_api),
      (''frame_system_rpc_runtime_api::AccountNonceApi'', account_nonce_api),
      (''pallet_transaction_payment_rpc_runtime_api::TransactionPaymentApi'', transaction_payment_api),
      (''sp_session::SessionKeys'', session_keys_api)]"

text \<open>The module or value a call is made on: its path up to the first colon or dot.\<close>

definition api_callees :: "string list" where
  "api_callees =
     map (\<lambda>(function, call). takeWhile (\<lambda>c. c \<noteq> CHR '':'' \<and> c \<noteq> CHR ''.'') call)
       (concat (map snd runtime_apis))"

lemma api_callees_composed:
  "set api_callees - set (map pallet_name construct_runtime)
     = {''VERSION'', ''Executive'', ''Runtime'', ''data'', ''SessionKeys''}"
  "set api_callees \<inter> set (map pallet_name construct_runtime)
     = {''RandomnessCollectiveFlip'', ''Grandpa'', ''Historical'', ''Babe'', ''AuthorityDiscovery'', ''System'',
        ''TransactionPayment''}"
  "distinct (map fst runtime_apis)"
  by code_simp+

section \<open>The BABE configuration\<close>

datatype allowed_slots = PrimarySlots | PrimaryAndSecondaryPlainSlots | PrimaryAndSecondaryVRFSlots

record ('authorities, 'randomness) BabeGenesisConfiguration =
  slot_duration :: u64
  epoch_length :: u64
  config_c :: "u64 \<times> u64"
  genesis_authorities :: 'authorities
  randomness :: 'randomness
  allowed_slots :: allowed_slots

text \<open>What the configuration takes from \<open>pallet_babe\<close>, on a state of the chain.\<close>

record ('st, 'authorities, 'randomness) babe_module =
  babe_slot_duration :: "'st \<Rightarrow> u64"
  babe_authorities :: "'st \<Rightarrow> 'authorities"
  babe_randomness :: "'st \<Rightarrow> 'randomness"

text \<open>Documented: the slot duration is twice the timestamp pallet's minimum period.\<close>

definition babe_documented :: "('st, 'authorities, 'randomness) babe_module \<Rightarrow> bool" where
  "babe_documented B \<longleftrightarrow> (\<forall>st. unat (babe_slot_duration B st) = 2 * unat MinimumPeriod)"

definition babe_configuration ::
  "('st, 'authorities, 'randomness) babe_module \<Rightarrow> 'st \<Rightarrow> ('authorities, 'randomness) BabeGenesisConfiguration" where
  "babe_configuration B st =
     \<lparr>slot_duration = babe_slot_duration B st,
      epoch_length = EpochDuration,
      config_c = PRIMARY_PROBABILITY,
      genesis_authorities = babe_authorities B st,
      randomness = babe_randomness B st,
      allowed_slots = PrimaryAndSecondaryPlainSlots\<rparr>"

section \<open>Key ownership and equivocation reports\<close>

text \<open>
  \<open>Historical\<close> proves that a validator owns a key of a key type; the proof travels to the
  reporter and back as bytes wrapped by \<open>OpaqueKeyOwnershipProof\<close>, one such type per
  consensus crate. Public keys are their bytes.
\<close>

record ('st, 'proof) historical =
  historical_prove :: "string \<times> u8 list \<Rightarrow> 'st \<Rightarrow> 'proof option"
  proof_encode :: "'proof \<Rightarrow> u8 list"

record ('st, 'proof, 'opaque, 'equivocation) evidence_pallet =
  KEY_TYPE :: string
  opaque_new :: "u8 list \<Rightarrow> 'opaque"
  opaque_decode :: "'opaque \<Rightarrow> 'proof option"
  submit_unsigned_equivocation_report :: "'equivocation \<Rightarrow> 'proof \<Rightarrow> 'st \<Rightarrow> unit option \<times> 'st"

text \<open>Documented: an opaque proof made of the encoding of a proof decodes to that proof.\<close>

definition opaque_documented ::
  "('st, 'proof) historical \<Rightarrow> ('st, 'proof, 'opaque, 'equivocation) evidence_pallet \<Rightarrow> bool" where
  "opaque_documented H E \<longleftrightarrow> (\<forall>proof. opaque_decode E (opaque_new E (proof_encode H proof)) = Some proof)"

definition grandpa_generate_key_ownership_proof ::
  "('st, 'proof) historical \<Rightarrow> ('st, 'proof, 'opaque, 'equivocation) evidence_pallet
   \<Rightarrow> u64 \<Rightarrow> u8 list \<Rightarrow> 'st \<Rightarrow> 'opaque option" where
  "grandpa_generate_key_ownership_proof H grandpa set_id authority_id st =
     map_option (opaque_new grandpa)
       (map_option (proof_encode H) (historical_prove H (KEY_TYPE grandpa, authority_id) st))"

definition grandpa_submit_report_equivocation ::
  "('st, 'proof, 'opaque, 'equivocation) evidence_pallet \<Rightarrow> 'equivocation \<Rightarrow> 'opaque
   \<Rightarrow> 'st \<Rightarrow> unit option \<times> 'st" where
  "grandpa_submit_report_equivocation grandpa equivocation_proof key_owner_proof st =
     (case opaque_decode grandpa key_owner_proof of
        None \<Rightarrow> (None, st)
      | Some key_owner_proof \<Rightarrow> submit_unsigned_equivocation_report grandpa equivocation_proof key_owner_proof st)"

definition babe_generate_key_ownership_proof ::
  "('st, 'proof) historical \<Rightarrow> ('st, 'proof, 'opaque, 'equivocation) evidence_pallet
   \<Rightarrow> u64 \<Rightarrow> u8 list \<Rightarrow> 'st \<Rightarrow> 'opaque option" where
  "babe_generate_key_ownership_proof H babe slot_number authority_id st =
     map_option (opaque_new babe)
       (map_option (proof_encode H) (historical_prove H (KEY_TYPE babe, authority_id) st))"

definition babe_submit_report_equivocation ::
  "('st, 'proof, 'opaque, 'equivocation) evidence_pallet \<Rightarrow> 'equivocation \<Rightarrow> 'opaque
   \<Rightarrow> 'st \<Rightarrow> unit option \<times> 'st" where
  "babe_submit_report_equivocation babe equivocation_proof key_owner_proof st =
     (case opaque_decode babe key_owner_proof of
        None \<Rightarrow> (None, st)
      | Some key_owner_proof \<Rightarrow> submit_unsigned_equivocation_report babe equivocation_proof key_owner_proof st)"

text \<open>
  The contract both consensus protocols give a reporter: a proof is sealed to travel, and a
  report opens it again.
\<close>

locale evidence_channel =
  fixes prove :: "'key \<Rightarrow> 'st \<Rightarrow> 'proof option"
    and seal :: "'proof \<Rightarrow> 'opaque"
    and unseal :: "'opaque \<Rightarrow> 'proof option"
    and report :: "'equivocation \<Rightarrow> 'proof \<Rightarrow> 'st \<Rightarrow> unit option \<times> 'st"
    and generate :: "'context \<Rightarrow> 'key \<Rightarrow> 'st \<Rightarrow> 'opaque option"
    and submit :: "'equivocation \<Rightarrow> 'opaque \<Rightarrow> 'st \<Rightarrow> unit option \<times> 'st"
  assumes generate_sealed: "generate ctx key st = map_option seal (prove key st)"
    and submit_opened: "unseal sealed = Some proof \<Longrightarrow> submit equivocation sealed st = report equivocation proof st"
    and submit_refused: "unseal sealed = None \<Longrightarrow> submit equivocation sealed st = (None, st)"
begin

lemma generate_None: "generate ctx key st = None \<longleftrightarrow> prove key st = None"
  by (simp add: generate_sealed)

lemma round_trip:
  assumes "\<And>proof. unseal (seal proof) = Some proof" "prove key st = Some proof"
  shows "\<exists>sealed. generate ctx key st = Some sealed \<and> submit equivocation sealed st' = report equivocation proof st'"
  using assms by (simp add: generate_sealed submit_opened)

end

interpretation grandpa_evidence: evidence_channel
  "\<lambda>key. historical_prove H (KEY_TYPE E, key)" "\<lambda>proof. opaque_new E (proof_encode H proof)" "opaque_decode E"
  "submit_unsigned_equivocation_report E" "grandpa_generate_key_ownership_proof H E"
  "grandpa_submit_report_equivocation E"
  for H E
  by unfold_locales
    (simp_all add: grandpa_generate_key_ownership_proof_def grandpa_submit_report_equivocation_def
      option.map_comp comp_def)

interpretation babe_evidence: evidence_channel
  "\<lambda>key. historical_prove H (KEY_TYPE E, key)" "\<lambda>proof. opaque_new E (proof_encode H proof)" "opaque_decode E"
  "submit_unsigned_equivocation_report E" "babe_generate_key_ownership_proof H E"
  "babe_submit_report_equivocation E"
  for H E
  by unfold_locales
    (simp_all add: babe_generate_key_ownership_proof_def babe_submit_report_equivocation_def
      option.map_comp comp_def)

lemma opaque_documentedD: "opaque_documented H E \<Longrightarrow> opaque_decode E (opaque_new E (proof_encode H proof)) = Some proof"
  by (simp add: opaque_documented_def)

end
