(* ===== verification/Cli.thy ===== *)
theory Cli
  imports Service Inspector Chain_Spec Runtime_Api
begin

text \<open>
  The command line of the node, \<open>node/cli/src/cli.rs\<close> and \<open>command.rs\<close>: the subcommands,
  \<open>load_spec\<close> and \<open>run\<close>. Parsing the arguments, building a configuration for a loaded
  specification and the commands of \<open>sc_cli\<close> are Substrate's, the fields of the record
  \<open>cli_env\<close>; the specification is loaded by the program's own \<open>load_spec\<close>, the inspect
  command is the one of \<open>Inspector\<close> and the services are those of \<open>Service\<close>. A command of
  \<open>sc_cli\<close>, or a group of its options, is opaque here, the type variable \<open>'cmd\<close>.
\<close>

section \<open>The identity of the program\<close>

text \<open>A word of 32 bits that \<open>sint\<close> reads.\<close>

type_synonym i32 = "32 word"

text \<open>
  The constants of \<open>impl SubstrateCli for Cli\<close>; three of them come from the environment of the
  build (\<open>env!\<close>). The runtime version it reports is the runtime's.
\<close>

record SubstrateCli =
  cli_impl_name :: string
  cli_impl_version :: string
  cli_description :: string
  cli_author :: string
  cli_support_url :: string
  cli_copyright_start_year :: i32

definition substrate_cli :: "string \<Rightarrow> string \<Rightarrow> string \<Rightarrow> SubstrateCli" where
  "substrate_cli SUBSTRATE_CLI_IMPL_VERSION CARGO_PKG_DESCRIPTION CARGO_PKG_AUTHORS =
     \<lparr>cli_impl_name = ''airalab-ipci'',
      cli_impl_version = SUBSTRATE_CLI_IMPL_VERSION,
      cli_description = CARGO_PKG_DESCRIPTION,
      cli_author = CARGO_PKG_AUTHORS,
      cli_support_url = ''https://github.com/DAO-IPCI/IPCI-blockchain/issues/new'',
      cli_copyright_start_year = 2018\<rparr>"

definition native_runtime_version :: "'apis \<Rightarrow> 'apis RuntimeVersion" where
  "native_runtime_version RUNTIME_API_VERSIONS = VERSION RUNTIME_API_VERSIONS"

text \<open>
  The native executor of \<open>node/executor/src/lib.rs\<close>: the arguments of the macro that makes it,
  the dispatcher and the host functions by their paths.
\<close>

record 'apis native_executor =
  executor_dispatch :: string
  executor_native_version :: "'apis NativeVersion"
  executor_host_functions :: string

definition Executor :: "'apis \<Rightarrow> 'apis native_executor" where
  "Executor RUNTIME_API_VERSIONS =
     \<lparr>executor_dispatch = ''node_runtime::api::dispatch'',
      executor_native_version = native_version RUNTIME_API_VERSIONS,
      executor_host_functions = ''frame_benchmarking::benchmarking::HostFunctions''\<rparr>"

text \<open>The executor runs natively the runtime whose version the command line reports.\<close>

lemma native_versions_agree: "runtime_version (executor_native_version (Executor apis)) = native_runtime_version apis"
  by (simp add: Executor_def native_version_def native_runtime_version_def)

section \<open>Chain specifications by name\<close>

text \<open>\<open>ipci_config\<close> unwraps the parsed embedded file, a panic (\<open>None\<close>) when it does not parse.\<close>

definition ipci_config :: "(u8 list \<Rightarrow> ('spec, string) result) \<Rightarrow> u8 list \<Rightarrow> 'spec option" where
  "ipci_config from_json_bytes ipci_json =
     (case from_json_bytes ipci_json of Ok spec \<Rightarrow> Some spec | Err _ \<Rightarrow> None)"

definition load_spec ::
  "'spec \<Rightarrow> (u8 list \<Rightarrow> ('spec, string) result) \<Rightarrow> u8 list \<Rightarrow> (string \<Rightarrow> ('spec, string) result)
   \<Rightarrow> string \<Rightarrow> ('spec, string) result option" where
  "load_spec dev from_json_bytes ipci_json from_json_file spec =
     (if spec = ''dev'' then Some (Ok dev)
      else if spec = ''ipci'' \<or> spec = '''' then map_option Ok (ipci_config from_json_bytes ipci_json)
      else Some (from_json_file spec))"

section \<open>Subcommands\<close>

datatype 'cmd Subcommand =
    Key 'cmd
  | Inspect "('cmd, 'cmd) InspectCmd"
  | Benchmark 'cmd
  | Verify 'cmd
  | Vanity 'cmd
  | Sign 'cmd
  | BuildSpec 'cmd
  | BuildSyncSpec 'cmd
  | CheckBlock 'cmd
  | ExportBlocks 'cmd
  | ExportState 'cmd
  | ImportBlocks 'cmd
  | PurgeChain 'cmd
  | Revert 'cmd

text \<open>\<open>Cli\<close>: the parsed arguments, a subcommand or the options of a node.\<close>

record 'cmd Cli =
  cli_subcommand :: "'cmd Subcommand option"
  cli_run :: 'cmd

text \<open>
  What the command line gets from \<open>sc_cli\<close> and \<open>sc_service\<close>, for the options of a subcommand or
  of a node (\<open>None\<close>): the id of the chain specification they ask for, the parsers of
  specifications and the embedded file, the configuration made of the options and a loaded
  specification, whether the genesis of that specification gets built (opening the client of
  an empty database does, and so does writing a specification out), the commands, and the
  client of the inspect command.
\<close>

record ('cmd, 'genesis, 'extensions, 'block, 'header, 'ext, 'hash) cli_env =
  chain_id :: "'cmd Subcommand option \<Rightarrow> (string, string) result"
  spec_from_bytes :: "u8 list \<Rightarrow> (('genesis, 'extensions) chain_spec, string) result"
  spec_from_file :: "string \<Rightarrow> (('genesis, 'extensions) chain_spec, string) result"
  ipci_json :: "u8 list"
  make_configuration ::
    "'cmd Subcommand option \<Rightarrow> ('genesis, 'extensions) chain_spec \<Rightarrow> (configuration, string) result"
  builds_genesis :: "'cmd Subcommand option \<Rightarrow> configuration \<Rightarrow> bool"
  cmd_run :: "'cmd Subcommand \<Rightarrow> (unit, string) result"
  service_calls :: "action \<Rightarrow> (unit, string) result"
  runtime_benchmarks :: bool
  cli_roles :: role_api
  cli_block_type :: "('block, 'header, 'ext) block_type"
  cli_addresses :: "'hash address_env"
  new_full_client :: "configuration \<Rightarrow> (('hash, u32, 'header, 'ext) chain_access, string) result"

text \<open>A specification read from a file builds its genesis from the file, without a panic.\<close>

definition specs_documented :: "('cmd, 'genesis, 'extensions, 'block, 'header, 'ext, 'hash) cli_env \<Rightarrow> bool" where
  "specs_documented env \<longleftrightarrow>
     (\<forall>bytes spec. spec_from_bytes env bytes = Ok spec \<longrightarrow> spec_genesis spec \<noteq> None)
     \<and> (\<forall>path spec. spec_from_file env path = Ok spec \<longrightarrow> spec_genesis spec \<noteq> None)"

record outcome =
  out_printed :: string
  out_actions :: "action list"
  out_result :: "(unit, string) result"

definition plain_outcome :: "(unit, string) result \<Rightarrow> outcome" where
  "plain_outcome r = \<lparr>out_printed = [], out_actions = [], out_result = r\<rparr>"

definition service_outcome :: "action list \<times> (unit, string) result \<Rightarrow> outcome" where
  "service_outcome run = \<lparr>out_printed = [], out_actions = fst run, out_result = snd run\<rparr>"

text \<open>
  \<open>create_runner\<close>: the configuration for the specification that \<open>load_spec\<close> loads, beside that
  specification; \<open>None\<close> when loading it panics. The development specification \<open>dev\<close> is an
  argument here, for \<open>main\<close> to give.
\<close>

definition create_runner ::
  "('genesis, 'extensions) chain_spec \<Rightarrow> ('cmd, 'genesis, 'extensions, 'block, 'header, 'ext, 'hash) cli_env
   \<Rightarrow> 'cmd Subcommand option \<Rightarrow> (('genesis, 'extensions) chain_spec \<times> configuration, string) result option" where
  "create_runner dev env sub =
     (case chain_id env sub of
        Err e \<Rightarrow> Some (Err e)
      | Ok name \<Rightarrow>
          map_option (\<lambda>loaded. and_then loaded (\<lambda>spec. map_ok (Pair spec) (make_configuration env sub spec)))
            (load_spec dev (spec_from_bytes env) (ipci_json env) (spec_from_file env) name))"

definition with_runner ::
  "('genesis, 'extensions) chain_spec \<Rightarrow> ('cmd, 'genesis, 'extensions, 'block, 'header, 'ext, 'hash) cli_env
   \<Rightarrow> 'cmd Subcommand option \<Rightarrow> (('genesis, 'extensions) chain_spec \<Rightarrow> configuration \<Rightarrow> outcome option)
   \<Rightarrow> outcome option" where
  "with_runner dev env sub k =
     (case create_runner dev env sub of
        None \<Rightarrow> None
      | Some (Err e) \<Rightarrow> Some (plain_outcome (Err e))
      | Some (Ok (spec, config)) \<Rightarrow> k spec config)"

text \<open>A run in which Substrate builds the genesis panics where the genesis does.\<close>

definition with_genesis ::
  "('cmd, 'genesis, 'extensions, 'block, 'header, 'ext, 'hash) cli_env \<Rightarrow> 'cmd Subcommand option
   \<Rightarrow> ('genesis, 'extensions) chain_spec \<Rightarrow> configuration \<Rightarrow> outcome option \<Rightarrow> outcome option" where
  "with_genesis env sub spec config out =
     (if builds_genesis env sub config \<and> spec_genesis spec = None then None else out)"

text \<open>\<open>sync_run\<close> of a command that is given the configuration.\<close>

definition sync_run ::
  "('genesis, 'extensions) chain_spec \<Rightarrow> ('cmd, 'genesis, 'extensions, 'block, 'header, 'ext, 'hash) cli_env
   \<Rightarrow> 'cmd Subcommand \<Rightarrow> (configuration \<Rightarrow> outcome option) \<Rightarrow> outcome option" where
  "sync_run dev env sub k =
     with_runner dev env (Some sub) (\<lambda>spec config. with_genesis env (Some sub) spec config (k config))"

text \<open>\<open>async_run\<close>: the closure builds components and gives the command's future to run.\<close>

definition async_run ::
  "('genesis, 'extensions) chain_spec \<Rightarrow> ('cmd, 'genesis, 'extensions, 'block, 'header, 'ext, 'hash) cli_env
   \<Rightarrow> 'cmd Subcommand \<Rightarrow> (configuration \<Rightarrow> step list) \<Rightarrow> outcome option" where
  "async_run dev env sub steps =
     with_runner dev env (Some sub) (\<lambda>spec config. with_genesis env (Some sub) spec config
       (let (trace, r) = run_steps (service_calls env) (steps config)
        in Some (service_outcome (trace, and_then r (\<lambda>_. cmd_run env sub)))))"

text \<open>\<open>InspectCmd::run\<close> under a runner; \<open>None\<close> is a panic.\<close>

definition run_inspect ::
  "('cmd, 'genesis, 'extensions, 'block, 'header, 'ext, 'hash) cli_env \<Rightarrow> InspectSubCmd \<Rightarrow> configuration
   \<Rightarrow> outcome option" where
  "run_inspect env command config =
     map_option (\<lambda>res. \<lparr>out_printed = (case res of Ok text \<Rightarrow> text | Err _ \<Rightarrow> []), out_actions = [],
                        out_result = map_ok (\<lambda>_. ()) res\<rparr>)
       (inspect_run (cli_block_type env) (cli_addresses env) (new_full_client env config) command)"

text \<open>
  \<open>run\<close>; \<open>None\<close> is a panic. The key commands make no runner, and purging a chain is given the
  database of the configuration alone.
\<close>

fun run ::
  "('genesis, 'extensions) chain_spec \<Rightarrow> ('cmd, 'genesis, 'extensions, 'block, 'header, 'ext, 'hash) cli_env
   \<Rightarrow> 'cmd Subcommand option \<Rightarrow> outcome option" where
  "run dev env None =
     with_runner dev env None (\<lambda>spec config. with_genesis env None spec config
       (case config_role config of
          Role_Light \<Rightarrow> Some (service_outcome (new_light (service_calls env) config))
        | _ \<Rightarrow> Some (service_outcome (new_full (cli_roles env) (service_calls env) config))))"
| "run dev env (Some (Inspect cmd)) = sync_run dev env (Inspect cmd) (run_inspect env (inspect_command cmd))"
| "run dev env (Some (Benchmark cmd)) =
     (if runtime_benchmarks env
      then sync_run dev env (Benchmark cmd) (\<lambda>config. Some (plain_outcome (cmd_run env (Benchmark cmd))))
      else Some (plain_outcome (Err (''Benchmarking wasn't enabled when building the node. ''
        @ ''You can enable it with `--features runtime-benchmarks`.''))))"
| "run dev env (Some (Key cmd)) = Some (plain_outcome (cmd_run env (Key cmd)))"
| "run dev env (Some (Sign cmd)) = Some (plain_outcome (cmd_run env (Sign cmd)))"
| "run dev env (Some (Verify cmd)) = Some (plain_outcome (cmd_run env (Verify cmd)))"
| "run dev env (Some (Vanity cmd)) = Some (plain_outcome (cmd_run env (Vanity cmd)))"
| "run dev env (Some (BuildSpec cmd)) =
     sync_run dev env (BuildSpec cmd) (\<lambda>config. Some (plain_outcome (cmd_run env (BuildSpec cmd))))"
| "run dev env (Some (BuildSyncSpec cmd)) = async_run dev env (BuildSyncSpec cmd) (new_full_base (cli_roles env))"
| "run dev env (Some (CheckBlock cmd)) = async_run dev env (CheckBlock cmd) (\<lambda>config. new_partial)"
| "run dev env (Some (ExportBlocks cmd)) = async_run dev env (ExportBlocks cmd) (\<lambda>config. new_partial)"
| "run dev env (Some (ExportState cmd)) = async_run dev env (ExportState cmd) (\<lambda>config. new_partial)"
| "run dev env (Some (ImportBlocks cmd)) = async_run dev env (ImportBlocks cmd) (\<lambda>config. new_partial)"
| "run dev env (Some (PurgeChain cmd)) =
     with_runner dev env (Some (PurgeChain cmd)) (\<lambda>spec config. Some (plain_outcome (cmd_run env (PurgeChain cmd))))"
| "run dev env (Some (Revert cmd)) = async_run dev env (Revert cmd) (\<lambda>config. new_partial)"

text \<open>
  The entry point, \<open>node/cli/bin/main.rs\<close>, calls \<open>run\<close>, which parses the arguments: a runner
  without a subcommand is made of the options of the node. The development specification is
  the one of \<open>development_config\<close>.
\<close>

definition main where
  "main P K wasm_binary env from_args args =
     (let cli = from_args args
      in run (development_config P K wasm_binary) (env (cli_run cli)) (cli_subcommand cli))"

section \<open>What a subcommand uses\<close>

datatype service_use = Uses_nothing | Uses_partial | Uses_full

fun service_use_of :: "'cmd Subcommand \<Rightarrow> service_use" where
  "service_use_of (BuildSyncSpec _) = Uses_full"
| "service_use_of (CheckBlock _) = Uses_partial"
| "service_use_of (ExportBlocks _) = Uses_partial"
| "service_use_of (ExportState _) = Uses_partial"
| "service_use_of (ImportBlocks _) = Uses_partial"
| "service_use_of (Revert _) = Uses_partial"
| "service_use_of _ = Uses_nothing"

text \<open>The runs that make a runner, and those in which the genesis may be built.\<close>

fun makes_runner :: "bool \<Rightarrow> 'cmd Subcommand option \<Rightarrow> bool" where
  "makes_runner benchmarks (Some (Key _)) = False"
| "makes_runner benchmarks (Some (Sign _)) = False"
| "makes_runner benchmarks (Some (Verify _)) = False"
| "makes_runner benchmarks (Some (Vanity _)) = False"
| "makes_runner benchmarks (Some (Benchmark _)) = benchmarks"
| "makes_runner benchmarks _ = True"

fun reaches_genesis :: "'cmd Subcommand option \<Rightarrow> bool" where
  "reaches_genesis (Some (PurgeChain _)) = False"
| "reaches_genesis _ = True"

lemma run_inspect_actions: "run_inspect env command config = Some out \<Longrightarrow> out_actions out = []"
  by (auto simp: run_inspect_def)

lemma run_inspect_returns: "run_inspect env command config \<noteq> None"
  by (simp add: run_inspect_def inspect_run_returns)

lemmas run_defs = sync_run_def with_runner_def with_genesis_def async_run_def plain_outcome_def service_outcome_def

lemma run_uses_nothing:
  assumes "service_use_of sub = Uses_nothing" "run dev env (Some sub) = Some out"
  shows "out_actions out = []"
  using assms by (cases sub) (auto simp: run_defs run_inspect_actions split: option.splits result.splits if_splits)

lemma run_uses_partial:
  assumes "service_use_of sub = Uses_partial" "run dev env (Some sub) = Some out"
  shows "out_actions out = [] \<or> out_actions out = fst (run_steps (service_calls env) new_partial)"
  using assms by (cases sub) (auto simp: run_defs split: option.splits result.splits prod.splits if_splits)

text \<open>A run panics with the runner it makes, or with the genesis it reaches.\<close>

lemma with_runner_None:
  "with_runner dev env sub k = None \<longleftrightarrow>
     create_runner dev env sub = None
     \<or> (\<exists>spec config. create_runner dev env sub = Some (Ok (spec, config)) \<and> k spec config = None)"
  by (auto simp: with_runner_def split: option.splits result.splits)

lemma run_panics_iff:
  "run dev env sub = None \<longleftrightarrow>
     makes_runner (runtime_benchmarks env) sub
     \<and> (create_runner dev env sub = None
        \<or> (\<exists>spec config. create_runner dev env sub = Some (Ok (spec, config))
             \<and> reaches_genesis sub \<and> builds_genesis env sub config \<and> spec_genesis spec = None))"
proof (cases sub)
  case None
  have "(case r of Role_Light \<Rightarrow> Some x | _ \<Rightarrow> Some y) = Some (case r of Role_Light \<Rightarrow> x | _ \<Rightarrow> y)"
    for r and x y :: outcome
    by (cases r) simp_all
  with None show ?thesis
    by (auto simp: with_runner_None with_genesis_def)
next
  case (Some s)
  then show ?thesis
    by (cases s) (auto simp: with_runner_None with_genesis_def sync_run_def async_run_def run_inspect_returns
        split: prod.splits)
qed

lemma create_runner_None:
  "create_runner dev env sub = None \<longleftrightarrow>
     (\<exists>name. chain_id env sub = Ok name \<and> name \<in> {''ipci'', ''''}) \<and> \<not> is_ok (spec_from_bytes env (ipci_json env))"
  by (auto simp: create_runner_def load_spec_def ipci_config_def is_ok_def split: result.splits)

text \<open>Of the specifications a runner is made with, only the development one has a genesis that may panic.\<close>

lemma create_runner_genesis:
  assumes "specs_documented env"
  shows "create_runner dev env sub = Some (Ok (spec, config)) \<and> spec_genesis spec = None \<longleftrightarrow>
    chain_id env sub = Ok ''dev'' \<and> spec = dev \<and> make_configuration env sub dev = Ok config \<and> spec_genesis dev = None"
  using assms
  by (auto simp: create_runner_def load_spec_def ipci_config_def specs_documented_def and_then_eq_Ok map_ok_def
      split: result.splits if_splits)

lemma run_panics_documented:
  assumes "specs_documented env"
  shows "run dev env sub = None \<longleftrightarrow>
      makes_runner (runtime_benchmarks env) sub
      \<and> ((chain_id env sub = Ok ''ipci'' \<or> chain_id env sub = Ok '''') \<and> \<not> is_ok (spec_from_bytes env (ipci_json env))
         \<or> chain_id env sub = Ok ''dev'' \<and> spec_genesis dev = None \<and> reaches_genesis sub
           \<and> (\<exists>config. make_configuration env sub dev = Ok config \<and> builds_genesis env sub config))"
proof -
  have "(\<exists>spec config. create_runner dev env sub = Some (Ok (spec, config))
        \<and> reaches_genesis sub \<and> builds_genesis env sub config \<and> spec_genesis spec = None) \<longleftrightarrow>
      chain_id env sub = Ok ''dev'' \<and> spec_genesis dev = None \<and> reaches_genesis sub
      \<and> (\<exists>config. make_configuration env sub dev = Ok config \<and> builds_genesis env sub config)"
    using create_runner_genesis [OF assms, of dev sub] by blast
  moreover have "(\<exists>name. chain_id env sub = Ok name \<and> name \<in> {''ipci'', ''''}) \<longleftrightarrow>
      chain_id env sub = Ok ''ipci'' \<or> chain_id env sub = Ok ''''"
    by blast
  ultimately show ?thesis
    unfolding run_panics_iff create_runner_None by blast
qed

end
