(* ===== verification/Browser.thy ===== *)
theory Browser
  imports Service
begin

text \<open>
  The browser client of \<open>node/cli/src/browser.rs\<close>: it reads the log level and the chain
  specification it is given, lets \<open>browser_utils\<close> make a configuration and starts the light
  service of \<open>Service\<close> on it. What it calls of other crates is the record \<open>browser_env\<close>. The
  lines it logs are left out; the client returned is the unit value.
\<close>

record ('level, 'spec, 'e) browser_env =
  level_from_str :: "string \<Rightarrow> ('level, string) result"
  init_console_log :: "'level \<Rightarrow> (unit, string) result"
  spec_from_json_bytes :: "u8 list \<Rightarrow> ('spec, string) result"
  development_spec :: 'spec
  browser_configuration :: "'spec \<Rightarrow> (configuration, string) result"
  browser_calls :: "action \<Rightarrow> (unit, 'e) result"
  debug_string :: "string \<Rightarrow> string"
  debug_service_error :: "'e \<Rightarrow> string"

definition browser_spec :: "('level, 'spec, 'e) browser_env \<Rightarrow> string option \<Rightarrow> ('spec, string) result" where
  "browser_spec env chain_spec =
     (case chain_spec of
        Some text \<Rightarrow> map_err (debug_string env) (spec_from_json_bytes env (bytes_of text))
      | None \<Rightarrow> Ok (development_spec env))"

text \<open>The calls made of the services, and the result.\<close>

definition start_inner ::
  "('level, 'spec, 'e) browser_env \<Rightarrow> string option \<Rightarrow> string \<Rightarrow> action list \<times> (unit, string) result" where
  "start_inner env chain_spec log_level =
     (case and_then (level_from_str env log_level) (init_console_log env) of
        Err e \<Rightarrow> ([], Err e)
      | Ok _ \<Rightarrow>
          (case and_then (browser_spec env chain_spec) (browser_configuration env) of
             Err e \<Rightarrow> ([], Err e)
           | Ok config \<Rightarrow>
               (let (trace, r) = run_steps (browser_calls env) (new_light_base config)
                in (trace, map_err (debug_service_error env) r))))"

datatype js_value = JsValue_from_str string

definition start_client ::
  "('level, 'spec, 'e) browser_env \<Rightarrow> string option \<Rightarrow> string \<Rightarrow> action list \<times> (unit, js_value) result" where
  "start_client env chain_spec log_level =
     (let (trace, r) = start_inner env chain_spec log_level in (trace, map_err JsValue_from_str r))"

text \<open>The configuration the client runs on, when it gets that far.\<close>

definition browser_config ::
  "('level, 'spec, 'e) browser_env \<Rightarrow> string option \<Rightarrow> string \<Rightarrow> (configuration, string) result" where
  "browser_config env chain_spec log_level =
     and_then (and_then (level_from_str env log_level) (init_console_log env))
       (\<lambda>_. and_then (browser_spec env chain_spec) (browser_configuration env))"

lemma start_client_config:
  "start_client env chain_spec log_level =
     (case browser_config env chain_spec log_level of
        Err e \<Rightarrow> ([], Err (JsValue_from_str e))
      | Ok config \<Rightarrow> (fst (new_light (browser_calls env) config),
          map_err (\<lambda>e. JsValue_from_str (debug_service_error env e)) (snd (new_light (browser_calls env) config))))"
  by (simp add: start_client_def start_inner_def browser_config_def new_light_def result_simps
      split: result.split prod.split)

end
