(* ===== verification/Service_Flow.thy ===== *)
theory Service_Flow
  imports Service
begin

text \<open>
  The objects the services of \<open>node/cli/src/service.rs\<close> pass between their calls: for every
  action of \<open>Service\<close>, the objects it is given, those it returns, and those it is given by
  value without a clone, which the code cannot use again. Objects are named after the
  variables that hold them. A clone made in the arguments of a call, or captured by a
  closure, is the object it is cloned from, which remains; a clone with a variable of its own,
  moved on its own, is an object (the two imports cloned from the GRANDPA block import). The
  telemetry sinks, the configuration, the metrics registry and the spawn handles' own clones
  are not tracked.
\<close>

datatype object =
    Obj_client
  | Obj_backend
  | Obj_keystore
  | Obj_task_manager
  | Obj_on_demand
  | Obj_select_chain
  | Obj_transaction_pool
  | Obj_grandpa_block_import
  | Obj_justification_import
  | Obj_finality_proof_import
  | Obj_grandpa_link
  | Obj_babe_config
  | Obj_block_import
  | Obj_babe_link
  | Obj_inherent_data_providers
  | Obj_import_queue
  | Obj_shared_voter_state
  | Obj_finality_proof_provider
  | Obj_finality_proof_request_builder
  | Obj_rpc_extensions_builder
  | Obj_network
  | Obj_network_status_sinks
  | Obj_system_rpc_tx
  | Obj_network_starter
  | Obj_rpc_extensions
  | Obj_rpc_handlers
  | Obj_proposer
  | Obj_babe
  | Obj_dht_event_stream
  | Obj_authority_discovery_worker
  | Obj_grandpa_voter

text \<open>
  What a call is given. The closure that builds a full node's RPC extensions captures clones;
  \<open>spawn_tasks\<close> of a full node is given the closure, that of a light node the extensions.
\<close>

fun call_args :: "action \<Rightarrow> object list" where
  "call_args New_full_parts = []"
| "call_args New_light_parts = []"
| "call_args New_longest_chain = [Obj_backend]"
| "call_args New_full_pool = [Obj_task_manager, Obj_client]"
| "call_args New_light_pool = [Obj_task_manager, Obj_client, Obj_on_demand]"
| "call_args Grandpa_block_import = [Obj_client, Obj_select_chain]"
| "call_args Grandpa_light_block_import = [Obj_client, Obj_backend, Obj_on_demand]"
| "call_args Create_finality_proof_request_builder = [Obj_finality_proof_import]"
| "call_args Babe_config_get_or_compute = [Obj_client]"
| "call_args Babe_block_import = [Obj_babe_config, Obj_grandpa_block_import, Obj_client]"
| "call_args New_inherent_data_providers = []"
| "call_args (Babe_import_queue justification proof author) =
     [Obj_babe_link, Obj_block_import]
     @ (if justification then [Obj_justification_import] else [])
     @ (if proof then [Obj_finality_proof_import] else [])
     @ [Obj_client, Obj_select_chain, Obj_inherent_data_providers, Obj_task_manager]"
| "call_args Empty_shared_voter_state = []"
| "call_args New_finality_proof_provider = [Obj_backend, Obj_client]"
| "call_args Make_rpc_extensions_builder =
     [Obj_grandpa_link, Obj_shared_voter_state, Obj_finality_proof_provider, Obj_babe_link, Obj_client,
      Obj_transaction_pool, Obj_select_chain, Obj_keystore]"
| "call_args (Build_network demand request_builder provider) =
     [Obj_client, Obj_transaction_pool, Obj_task_manager, Obj_import_queue]
     @ (if demand then [Obj_on_demand] else [])
     @ (if request_builder then [Obj_finality_proof_request_builder] else [])
     @ (if provider then [Obj_finality_proof_provider] else [])"
| "call_args Build_offchain_workers = [Obj_backend, Obj_task_manager, Obj_client, Obj_network]"
| "call_args Create_light_rpc = [Obj_backend, Obj_on_demand, Obj_client, Obj_transaction_pool]"
| "call_args (Spawn_tasks demand remote_blockchain) =
     [Obj_backend, Obj_client, Obj_keystore, Obj_network, Obj_transaction_pool, Obj_task_manager,
      Obj_network_status_sinks, Obj_system_rpc_tx]
     @ (if demand then [Obj_rpc_extensions, Obj_on_demand]
        else [Obj_rpc_extensions_builder])"
| "call_args With_startup_data = [Obj_block_import, Obj_babe_link]"
| "call_args New_proposer_factory = [Obj_client, Obj_transaction_pool]"
| "call_args (Start_babe force) =
     [Obj_keystore, Obj_client, Obj_select_chain, Obj_proposer, Obj_block_import, Obj_network,
      Obj_inherent_data_providers, Obj_babe_link]"
| "call_args (Network_event_stream name) = [Obj_network]"
| "call_args (New_authority_discovery sentries discovery) =
     [Obj_client, Obj_network, Obj_dht_event_stream]
     @ (case discovery of Discovery_Authority \<Rightarrow> [Obj_keystore] | Discovery_Sentry \<Rightarrow> [])"
| "call_args (Spawn name) = [Obj_task_manager, Obj_authority_discovery_worker]"
| "call_args (Spawn_essential_blocking name) =
     [Obj_task_manager, if name = ''babe-proposer'' then Obj_babe else Obj_grandpa_voter]"
| "call_args (Run_grandpa_voter g) =
     (if grandpa_keystore g then [Obj_keystore] else [])
     @ [Obj_grandpa_link, Obj_network, Obj_inherent_data_providers, Obj_shared_voter_state]"
| "call_args Setup_disabled_grandpa = [Obj_client, Obj_inherent_data_providers, Obj_network]"
| "call_args Start_network = [Obj_network_starter]"

text \<open>
  What a call returns, with the clones the code makes of it right away; a full node drops the
  RPC handlers its tasks are spawned with.
\<close>

fun call_results :: "action \<Rightarrow> object list" where
  "call_results New_full_parts = [Obj_client, Obj_backend, Obj_keystore, Obj_task_manager]"
| "call_results New_light_parts = [Obj_client, Obj_backend, Obj_keystore, Obj_task_manager, Obj_on_demand]"
| "call_results New_longest_chain = [Obj_select_chain]"
| "call_results New_full_pool = [Obj_transaction_pool]"
| "call_results New_light_pool = [Obj_transaction_pool]"
| "call_results Grandpa_block_import = [Obj_grandpa_block_import, Obj_grandpa_link, Obj_justification_import]"
| "call_results Grandpa_light_block_import = [Obj_grandpa_block_import, Obj_finality_proof_import]"
| "call_results Create_finality_proof_request_builder = [Obj_finality_proof_request_builder]"
| "call_results Babe_config_get_or_compute = [Obj_babe_config]"
| "call_results Babe_block_import = [Obj_block_import, Obj_babe_link]"
| "call_results New_inherent_data_providers = [Obj_inherent_data_providers]"
| "call_results (Babe_import_queue justification proof author) = [Obj_import_queue]"
| "call_results Empty_shared_voter_state = [Obj_shared_voter_state]"
| "call_results New_finality_proof_provider = [Obj_finality_proof_provider]"
| "call_results Make_rpc_extensions_builder = [Obj_rpc_extensions_builder]"
| "call_results (Build_network demand request_builder provider) =
     [Obj_network, Obj_network_status_sinks, Obj_system_rpc_tx, Obj_network_starter]"
| "call_results Create_light_rpc = [Obj_rpc_extensions]"
| "call_results (Spawn_tasks demand remote_blockchain) = (if demand then [Obj_rpc_handlers] else [])"
| "call_results New_proposer_factory = [Obj_proposer]"
| "call_results (Start_babe force) = [Obj_babe]"
| "call_results (Network_event_stream name) = [Obj_dht_event_stream]"
| "call_results (New_authority_discovery sentries discovery) = [Obj_authority_discovery_worker]"
| "call_results (Run_grandpa_voter g) = [Obj_grandpa_voter]"
| "call_results _ = []"

text \<open>
  What a call takes for good. The import queue of a light node gets its objects without
  clones, that of a full node all but the justification import with clones.
\<close>

fun call_moves :: "action \<Rightarrow> object list" where
  "call_moves Babe_block_import = [Obj_babe_config, Obj_grandpa_block_import]"
| "call_moves (Babe_import_queue justification proof author) =
     (if justification then [Obj_justification_import] else [])
     @ (if proof
        then [Obj_babe_link, Obj_block_import, Obj_finality_proof_import, Obj_select_chain,
              Obj_inherent_data_providers]
        else [])"
| "call_moves (Build_network demand request_builder provider) =
     Obj_import_queue # (if request_builder then [Obj_finality_proof_request_builder] else [])
     @ (if provider then [Obj_finality_proof_provider] else [])"
| "call_moves (Spawn_tasks demand remote_blockchain) =
     [Obj_backend, Obj_system_rpc_tx]
     @ (if demand then [Obj_rpc_extensions, Obj_on_demand, Obj_keystore, Obj_network_status_sinks]
        else [Obj_rpc_extensions_builder])"
| "call_moves (Start_babe force) = [Obj_select_chain, Obj_proposer, Obj_block_import, Obj_babe_link]"
| "call_moves (New_authority_discovery sentries discovery) = [Obj_dht_event_stream]"
| "call_moves (Spawn name) = [Obj_authority_discovery_worker]"
| "call_moves (Spawn_essential_blocking name) =
     [if name = ''babe-proposer'' then Obj_babe else Obj_grandpa_voter]"
| "call_moves (Run_grandpa_voter g) =
     (if grandpa_keystore g then [Obj_keystore] else []) @ [Obj_grandpa_link, Obj_shared_voter_state]"
| "call_moves Start_network = [Obj_network_starter]"
| "call_moves _ = []"

section \<open>The order of the calls\<close>

text \<open>Every call finds the objects it is given among those made before and not yet taken.\<close>

fun flow_ok :: "object list \<Rightarrow> action list \<Rightarrow> bool" where
  "flow_ok have_objects [] \<longleftrightarrow> True"
| "flow_ok have_objects (a # actions) \<longleftrightarrow>
     list_all (\<lambda>x. x \<in> set have_objects) (call_args a) \<and> list_all (\<lambda>x. x \<in> set (call_args a)) (call_moves a)
     \<and> flow_ok (filter (\<lambda>x. x \<notin> set (call_moves a)) have_objects @ call_results a) actions"

fun flow_after :: "object list \<Rightarrow> action list \<Rightarrow> object list" where
  "flow_after have_objects [] = have_objects"
| "flow_after have_objects (a # actions) =
     flow_after (filter (\<lambda>x. x \<notin> set (call_moves a)) have_objects @ call_results a) actions"

lemma flow_ok_append: "flow_ok xs (as @ bs) \<longleftrightarrow> flow_ok xs as \<and> flow_ok (flow_after xs as) bs"
  by (induction as arbitrary: xs) auto

lemma flow_after_append: "flow_after xs (as @ bs) = flow_after (flow_after xs as) bs"
  by (induction as arbitrary: xs) simp_all

lemma full_flow: "flow_ok [] (map action_of (new_full_base R config))"
  by (cases "config_role config"; cases "offchain_worker_enabled config"; cases "disable_grandpa config")
    (simp_all add: new_full_base_def new_partial_def babe_steps_def discovery_steps_def grandpa_steps_def
      grandpa_config_of_def flow_ok_append flow_after_append)

lemma light_flow: "flow_ok [] (map action_of (new_light_base config))"
  by (simp add: new_light_base_def)

text \<open>Runs that stop at a failing call keep the order, and what is returned is there at the end.\<close>

lemma run_flow:
  assumes "flow_ok [] (map action_of steps)"
  shows "flow_ok [] (fst (run_steps env steps))"
proof -
  obtain rest where "map action_of steps = fst (run_steps env steps) @ rest"
    using run_steps_prefix by blast
  with assms show ?thesis
    by (simp add: flow_ok_append)
qed

definition full_base_fields :: "object list" where
  "full_base_fields =
     [Obj_task_manager, Obj_inherent_data_providers, Obj_client, Obj_network, Obj_network_status_sinks,
      Obj_transaction_pool]"

definition light_base_fields :: "object list" where
  "light_base_fields = [Obj_task_manager, Obj_rpc_handlers, Obj_client, Obj_network, Obj_transaction_pool]"

lemma full_fields:
  "list_all (\<lambda>x. x \<in> set (flow_after [] (map action_of (new_full_base R config)))) full_base_fields"
  by (cases "config_role config"; cases "offchain_worker_enabled config"; cases "disable_grandpa config")
    (simp_all add: new_full_base_def new_partial_def babe_steps_def discovery_steps_def grandpa_steps_def
      grandpa_config_of_def flow_after_append full_base_fields_def)

lemma light_fields:
  "list_all (\<lambda>x. x \<in> set (flow_after [] (map action_of (new_light_base config)))) light_base_fields"
  by (simp add: new_light_base_def light_base_fields_def)

end
