(* ===== verification/Runtime_Fees.thy ===== *)
theory Runtime_Fees
  imports Runtime_Constants
begin

text \<open>
  The runtime's own arithmetic over its parameters: the fee polynomial \<open>WeightToFee\<close> of
  \<open>node/runtime/src/lib.rs\<close>, and the conversions between balances and the votes of
  staking's election, \<open>CurrencyToVoteHandler\<close> of \<open>node/runtime/src/impls.rs\<close>. The total
  issuance is the balances pallet's, an argument.
\<close>

section \<open>Weights to fees\<close>

record 'p weight_to_fee_coefficient =
  coeff_integer :: balance
  coeff_frac :: 'p
  negative :: bool
  degree :: u8

text \<open>\<open>None\<close> is the panic of a remainder or a division by zero.\<close>

definition WeightToFee_polynomial ::
  "'p perbill_api \<Rightarrow> weight \<Rightarrow> 'p weight_to_fee_coefficient list option" where
  "WeightToFee_polynomial P ExtrinsicBaseWeight =
     (let p = U_MITO;
          q = MITO * ucast ExtrinsicBaseWeight
      in Option.bind (checked_rem p q) (\<lambda>r.
         Option.bind (checked_div p q) (\<lambda>d.
           Some [\<lparr>coeff_integer = d, coeff_frac = from_rational_approximation P r q,
                  negative = False, degree = 1\<rparr>])))"

lemma fee_denominator: "unat (MITO * ucast (w :: weight)) = 1000000000000 * unat w"
proof -
  have "1000000000000 * unat w < 2 ^ 128"
    using unat_lt_64 [of w] by simp
  then show ?thesis
    by (subst unat_mult_exact) (simp_all add: MITO_value unat_ucast_wide)
qed

lemma fee_quotient:
  assumes "w \<noteq> (0 :: weight)"
  shows "checked_div U_MITO (MITO * ucast w) = Some 0"
    and "checked_rem U_MITO (MITO * ucast w) = Some U_MITO"
proof -
  have pos: "0 < unat w"
    using assms by (simp add: unat_gt_0)
  then have ne: "MITO * ucast w \<noteq> 0"
    using fee_denominator [of w] by (auto simp del: mult_eq_0_iff simp: word_eq_unat_iff)
  have "unat U_MITO < unat (MITO * ucast w)"
    using pos by (simp add: fee_denominator U_MITO_value)
  with ne show "checked_div U_MITO (MITO * ucast w) = Some 0"
    "checked_rem U_MITO (MITO * ucast w) = Some U_MITO"
    by (simp_all add: checked_div_def checked_rem_def word_eq_unat_iff unat_div unat_mod)
qed

section \<open>Balances to votes\<close>

definition u64_max_value :: u64 where "u64_max_value = - 1"

definition currency_to_vote_factor :: "balance \<Rightarrow> balance" where
  "currency_to_vote_factor issuance = max (issuance div ucast u64_max_value) 1"

text \<open>\<open>Convert<Balance, u64>\<close>: the cast keeps the low 64 bits.\<close>

definition convert_to_vote :: "balance \<Rightarrow> balance \<Rightarrow> u64" where
  "convert_to_vote issuance x = ucast (x div currency_to_vote_factor issuance)"

text \<open>\<open>Convert<u128, Balance>\<close>: the product wraps in a release build.\<close>

definition convert_to_currency :: "balance \<Rightarrow> u128 \<Rightarrow> balance" where
  "convert_to_currency issuance x = x * currency_to_vote_factor issuance"

lemma u64_max_value_unat: "unat (ucast u64_max_value :: balance) = 2 ^ 64 - 1"
  by (simp add: unat_ucast_wide u64_max_value_def unat_minus_one_word)

lemma unat_max: "unat (max a b) = max (unat a) (unat b)"
  by (simp add: max_def word_le_nat_alt)

lemma unat_factor:
  "unat (currency_to_vote_factor issuance) = max (unat issuance div (2 ^ 64 - 1)) 1"
proof -
  have "unat (issuance div ucast u64_max_value) = unat issuance div (2 ^ 64 - 1)"
    by (simp only: unat_div u64_max_value_unat)
  then show ?thesis
    by (simp only: currency_to_vote_factor_def unat_max unsigned_1)
qed

lemma factor_pos: "0 < unat (currency_to_vote_factor issuance)"
  by (simp add: unat_factor)

lemma unat_convert_to_vote:
  "unat (convert_to_vote issuance x) = unat x div unat (currency_to_vote_factor issuance) mod 2 ^ 64"
  by (simp add: convert_to_vote_def unat_ucast_mod unat_div)

text \<open>The product is exact whenever the votes came from the supply.\<close>

lemma unat_convert_to_currency:
  assumes "unat v \<le> unat (x :: balance) div unat (currency_to_vote_factor issuance)"
  shows "unat (convert_to_currency issuance v) = unat v * unat (currency_to_vote_factor issuance)"
proof -
  have "unat v * unat (currency_to_vote_factor issuance) \<le> unat x"
    using assms by (metis div_times_less_eq_dividend le_trans mult_le_mono1)
  also have "\<dots> < 2 ^ 128"
    using unat_lt_128 [of x] by simp
  finally show ?thesis
    by (simp add: convert_to_currency_def unat_mult_exact)
qed

section \<open>Fees to the author\<close>

text \<open>
  \<open>Author::on_nonzero_unbalanced\<close>: the balances pallet credits the amount to the account
  the authorship pallet names; both are arguments, on the chain's state.
\<close>

definition author_on_nonzero_unbalanced ::
  "('a \<Rightarrow> 'amount \<Rightarrow> 's \<Rightarrow> 's) \<Rightarrow> ('s \<Rightarrow> 'a) \<Rightarrow> 'amount \<Rightarrow> 's \<Rightarrow> 's" where
  "author_on_nonzero_unbalanced resolve_creating author amount s = resolve_creating (author s) amount s"

end
