(* ===== verification/Chain_Spec_Theorems.thy ===== *)
theory Chain_Spec_Theorems
  imports Chain_Spec Runtime_Pallets Runtime_Fees
begin

text \<open>
  The properties of the chain specifications: the genesis is consistent with what the
  runtime's pallets need of it, and with the runtime's currency and votes.
\<close>

section \<open>An instance for the witnesses\<close>

text \<open>Keys that are their secret strings.\<close>

definition string_keys :: "(string, string, string, string, string, string) key_env" where
  "string_keys =
     \<lparr>sr25519_from_string = Some, grandpa_from_string = Some, babe_from_string = Some,
      im_online_from_string = Some, discovery_from_string = Some, into_account = (\<lambda>p. p)\<rparr>"

definition nat_perbill :: "nat perbill_api" where
  "nat_perbill =
     \<lparr>from_percent = (\<lambda>x. unat x * 10000000), from_rational_approximation = (\<lambda>p q. 0), deconstruct = of_nat,
      perbill_saturating_sub = (-), perbill_mul = (\<lambda>p w. 0)\<rparr>"

section \<open>The genesis of a test network\<close>

text \<open>
  C33: The validators of a test network's genesis, whatever accounts it is given to endow:
  the accounts given, or the twelve default ones when none are, hold the endowment, and after
  them the authorities' stashes hold the stake. Stakers, invulnerables and session keys are
  exactly the authorities, in order, each with its own session keys under its stash and a
  balance that covers its stake; no balance is below the existential deposit, and the issuance
  is the endowments and the stakes. The network wants twice as many validators as it has and
  at least those, both counts modulo \<open>2 ^ 32\<close>, the width at which they are computed.
\<close>

theorem genesis_validators:
  assumes "testnet_genesis P K wasm auths key endowed p = Some g"
  shows "\<exists>accounts balances staking keys.
    (case endowed of
       Some given \<Rightarrow> accounts = given
     | None \<Rightarrow> map Some accounts = map (get_account_id_from_seed K) endowed_seeds \<and> length accounts = 12)
    \<and> genesis_balances g = Some balances
    \<and> genesis_staking g = Some staking \<and> genesis_session g = Some keys \<and> genesis_sudo g = Some key
    \<and> map fst balances = accounts @ map fst auths
    \<and> (\<forall>account\<in>set accounts. (account, ENDOWMENT) \<in> set balances)
    \<and> invulnerables staking = map fst auths \<and> map fst (stakers staking) = map fst auths
    \<and> map fst keys = map fst auths
    \<and> (\<forall>(stash, controller, grandpa, babe, im_online, discovery)\<in>set auths.
         (stash, controller, STAKE, StakerStatus_Validator) \<in> set (stakers staking)
         \<and> (stash, STAKE) \<in> set balances
         \<and> (stash, stash, \<lparr>key_grandpa = grandpa, key_babe = babe, key_im_online = im_online,
               key_authority_discovery = discovery\<rparr>) \<in> set keys)
    \<and> unat (minimum_validator_count staking) = length auths mod 2 ^ 32
    \<and> unat (validator_count staking) = 2 * length auths mod 2 ^ 32
    \<and> (\<forall>(account, balance)\<in>set balances. ExistentialDeposit \<le> balance)
    \<and> total_issuance balances = length accounts * unat ENDOWMENT + length auths * unat STAKE"
proof -
  obtain accounts code where code: "wasm = Some code"
    and endowed: "case endowed of Some a \<Rightarrow> accounts = a
      | None \<Rightarrow> map (get_account_id_from_seed K) endowed_seeds = map Some accounts"
    and balances: "genesis_balances g = Some (map (\<lambda>k. (k, ENDOWMENT)) accounts @ map (\<lambda>x. (fst x, STAKE)) auths)"
    using assms by (rule testnet_genesis_fields)
  have "length accounts = 12" if "map (get_account_id_from_seed K) endowed_seeds = map Some accounts"
    using that endowed_seeds_length by (metis length_map)
  then have accounts: "case endowed of Some given \<Rightarrow> accounts = given
      | None \<Rightarrow> map Some accounts = map (get_account_id_from_seed K) endowed_seeds \<and> length accounts = 12"
    using endowed by (simp split: option.splits)
  have count: "unat (of_nat n :: u32) = n mod 2 ^ 32" for n
    by (simp add: unat_of_nat take_bit_eq_mod)
  have "of_nat n * 2 = (of_nat (2 * n) :: u32)" for n
    by simp
  then have counts: "unat (of_nat n * 2 :: u32) = 2 * n mod 2 ^ 32" for n
    by (simp only: count)
  have deposits: "ExistentialDeposit \<le> ENDOWMENT" "ExistentialDeposit \<le> STAKE"
    by (simp_all add: word_le_nat_alt ENDOWMENT_value STAKE_value ExistentialDeposit_def U_MITO_def)
  obtain staking keys where "genesis_staking g = Some staking" "genesis_session g = Some keys" "genesis_sudo g = Some key"
    "staking = \<lparr>validator_count = of_nat (length auths) * 2, minimum_validator_count = of_nat (length auths),
       stakers = map (\<lambda>x. (fst x, fst (snd x), STAKE, StakerStatus_Validator)) auths,
       invulnerables = map fst auths, slash_reward_fraction = from_percent P 10\<rparr>"
    "keys = map (\<lambda>(stash, controller, grandpa, babe, im_online, authority_discovery).
       (stash, stash, session_keys grandpa babe im_online authority_discovery)) auths"
    using assms by (auto simp: testnet_genesis_def bind_eq_Some_conv)
  then show ?thesis
    using accounts deposits
    by (intro exI [of _ accounts] exI [of _ "map (\<lambda>k. (k, ENDOWMENT)) accounts @ map (\<lambda>x. (fst x, STAKE)) auths"]
          exI [of _ staking] exI [of _ keys] conjI)
      (auto simp: balances count counts session_keys_def image_iff split_def o_def)
qed

theorem genesis_validators_witness:
  "\<exists>staking balances. genesis_staking (the (testnet_genesis nat_perbill string_keys (Some [])
       [(''s'', ''c'', ''g'', ''b'', ''i'', ''a'')] ''root'' None True)) = Some staking
     \<and> unat (validator_count staking) = 2
     \<and> genesis_balances (the (testnet_genesis nat_perbill string_keys (Some [])
         [(''s'', ''c'', ''g'', ''b'', ''i'', ''a'')] ''root'' None True)) = Some balances
     \<and> total_issuance balances = 12 * unat ENDOWMENT + unat STAKE"
proof -
  let ?g = "testnet_genesis nat_perbill string_keys (Some []) [(''s'', ''c'', ''g'', ''b'', ''i'', ''a'')] ''root'' None True"
  have "?g \<noteq> None"
    by (simp add: testnet_genesis_def get_account_id_from_seed_def get_from_seed_def string_keys_def endowed_seeds_def)
  then obtain g where "?g = Some g"
    by auto
  from genesis_validators [OF this] this show ?thesis
    by auto
qed

text \<open>
  C34: The development genesis: Alice is its root and only validator, every default account
  is endowed, and the stash of Alice is listed twice, with the endowment and with the
  stake. Its issuance exceeds \<open>u64\<close>, yet every listed balance converts to votes exactly,
  at 6 units a vote.
\<close>

theorem development_genesis:
  assumes "development_config_genesis P K wasm = Some g"
  shows "\<exists>alice stash balances staking. get_account_id_from_seed K ''Alice'' = Some alice
    \<and> get_account_id_from_seed K ''Alice//stash'' = Some stash
    \<and> genesis_sudo g = Some alice \<and> genesis_staking g = Some staking
    \<and> stakers staking = [(stash, alice, STAKE, StakerStatus_Validator)]
    \<and> genesis_balances g = Some balances \<and> length balances = 13
    \<and> map Some (map fst (take 12 balances)) = map (get_account_id_from_seed K) endowed_seeds
    \<and> balances ! 6 = (stash, ENDOWMENT) \<and> balances ! 12 = (stash, STAKE)
    \<and> total_issuance balances = 120500000000000000000
    \<and> (\<forall>(account, balance)\<in>set balances.
         unat (convert_to_vote (of_nat (total_issuance balances)) balance) = unat balance div 6)"
proof -
  obtain alice stash grandpa babe im_online discovery where keys:
    "get_account_id_from_seed K ''Alice'' = Some alice" "get_account_id_from_seed K ''Alice//stash'' = Some stash"
    "testnet_genesis P K wasm [(stash, alice, grandpa, babe, im_online, discovery)] alice None True = Some g"
    using assms
    by (auto simp: development_config_genesis_def authority_keys_from_seed_def bind_eq_Some_conv)
  obtain accounts where accounts: "map (get_account_id_from_seed K) endowed_seeds = map Some accounts"
    "genesis_balances g = Some (map (\<lambda>k. (k, ENDOWMENT)) accounts @ [(stash, STAKE)])"
    by (rule testnet_genesis_fields [OF keys(3)]) simp
  let ?balances = "map (\<lambda>k. (k, ENDOWMENT)) accounts @ [(stash, STAKE)]"
  have length: "length accounts = 12"
    using accounts(1) by (metis (no_types) endowed_seeds_length length_map)
  have "accounts ! 6 = stash"
  proof -
    have "map (get_account_id_from_seed K) endowed_seeds ! 6 = Some stash"
      by (simp add: endowed_seeds_def keys(2))
    then show ?thesis
      using length by (simp add: accounts(1))
  qed
  moreover have total: "total_issuance ?balances = 120500000000000000000"
    by (simp add: length ENDOWMENT_value STAKE_value)
  moreover have "unat (convert_to_vote (of_nat 120500000000000000000) balance) = unat balance div 6"
    if "(account, balance) \<in> set ?balances" for account balance
  proof -
    have "balance = ENDOWMENT \<or> balance = STAKE"
      using that by auto
    then show ?thesis
      by (auto simp: unat_convert_to_vote unat_factor ENDOWMENT_value STAKE_value)
  qed
  moreover have "\<exists>staking. genesis_staking g = Some staking
      \<and> stakers staking = [(stash, alice, STAKE, StakerStatus_Validator)] \<and> genesis_sudo g = Some alice"
    using keys(3) by (auto simp: testnet_genesis_def bind_eq_Some_conv)
  ultimately show ?thesis
    using keys(1,2) accounts length by (auto simp: nth_append total)
qed

theorem development_genesis_witness:
  "\<exists>balances. genesis_balances (the (development_config_genesis nat_perbill string_keys (Some []))) = Some balances
     \<and> \<not> distinct (map fst balances)"
proof -
  have "development_config_genesis nat_perbill string_keys (Some []) \<noteq> None"
    by (simp add: development_config_genesis_def authority_keys_from_seed_def testnet_genesis_def
        get_account_id_from_seed_def get_from_seed_def string_keys_def endowed_seeds_def)
  then obtain g where g: "development_config_genesis nat_perbill string_keys (Some []) = Some g"
    by auto
  from development_genesis [OF g] obtain balances stash where "genesis_balances g = Some balances"
    "length balances = 13" "balances ! 6 = (stash, ENDOWMENT)" "balances ! 12 = (stash, STAKE)"
    by auto
  then have "map fst balances ! 6 = map fst balances ! 12" "length (map fst balances) = 13"
    by simp_all
  then have "\<not> distinct (map fst balances)"
    using nth_eq_iff_index_eq [of "map fst balances" 6 12] by auto
  with g \<open>genesis_balances g = Some balances\<close> show ?thesis by auto
qed

text \<open>
  C35: A genesis configures exactly the pallets that \<open>construct_runtime!\<close> gives a genesis
  configuration, and leaves the authorities of the consensus pallets, of the heartbeats and
  of the discovery to the session keys. The development specification has one unless a key
  does not derive or the runtime binary is not embedded.
\<close>

theorem genesis_configures:
  "(testnet_genesis P K wasm auths key endowed p = Some g \<longrightarrow>
      configured_pallets g = set (pallets_with Part_Config)
      \<and> genesis_babe g = Some [] \<and> genesis_grandpa g = Some [] \<and> genesis_im_online g = Some []
      \<and> genesis_authority_discovery g = Some [])
   \<and> (spec_genesis (development_config P K wasm) = None \<longleftrightarrow>
      wasm = None \<or> grandpa_from_string K ''//Alice'' = None \<or> babe_from_string K ''//Alice'' = None
      \<or> im_online_from_string K ''//Alice'' = None \<or> discovery_from_string K ''//Alice'' = None
      \<or> (\<exists>seed\<in>set endowed_seeds. sr25519_from_string K (''//'' @ seed) = None))"
proof
  have config: "set [''frame_system'', ''pallet_indices'', ''pallet_balances'', ''pallet_babe'', ''pallet_grandpa'',
      ''pallet_session'', ''pallet_staking'', ''pallet_sudo'', ''pallet_im_online'', ''pallet_authority_discovery'']
    = set (pallets_with Part_Config)"
    by code_simp
  show "testnet_genesis P K wasm auths key endowed p = Some g \<longrightarrow>
      configured_pallets g = set (pallets_with Part_Config)
      \<and> genesis_babe g = Some [] \<and> genesis_grandpa g = Some [] \<and> genesis_im_online g = Some []
      \<and> genesis_authority_discovery g = Some []"
  proof
    assume g: "testnet_genesis P K wasm auths key endowed p = Some g"
    have "configured_pallets g = set (pallets_with Part_Config)"
      using testnet_genesis_configures_all(1) [OF g] config by (rule trans)
    then show "configured_pallets g = set (pallets_with Part_Config)
        \<and> genesis_babe g = Some [] \<and> genesis_grandpa g = Some [] \<and> genesis_im_online g = Some []
        \<and> genesis_authority_discovery g = Some []"
      using testnet_genesis_configures_all(2) [OF g] by (rule conjI)
  qed
  show "spec_genesis (development_config P K wasm) = None \<longleftrightarrow>
      wasm = None \<or> grandpa_from_string K ''//Alice'' = None \<or> babe_from_string K ''//Alice'' = None
      \<or> im_online_from_string K ''//Alice'' = None \<or> discovery_from_string K ''//Alice'' = None
      \<or> (\<exists>seed\<in>set endowed_seeds. sr25519_from_string K (''//'' @ seed) = None)"
    by (auto simp: development_config_def development_config_genesis_def authority_keys_from_seed_def
        testnet_genesis_def get_account_id_from_seed_def get_from_seed_def bind_eq_None_conv
        collect_some_eq_None endowed_seeds_def)
qed

theorem genesis_configures_witness:
  "configured_pallets (the (testnet_genesis nat_perbill string_keys (Some []) [] ''root'' (Some [''e'']) True))
     = set (pallets_with Part_Config)"
  using genesis_configures [of nat_perbill string_keys "Some []" "[]" "''root''" "Some [''e'']" True]
  by (auto simp: testnet_genesis_def)

end
