(* ===== verification/Inspect_Theorems.thy ===== *)
theory Inspect_Theorems
  imports Inspector
begin

text \<open>
  The properties of the inspector: which texts name which blocks and extrinsics, and that
  every way to name a block or an extrinsic shows the same text.
\<close>

section \<open>Instances for the witnesses\<close>

text \<open>
  Parsers with the documented behaviour: hashes are their 40 hex digits, and after \<open>0x\<close>
  each character is a byte.
\<close>

definition plain_env :: "string address_env" where
  "plain_env =
     \<lparr>hash_from_str =
        (\<lambda>s. if length s = 40 \<and> (\<forall>c\<in>set s. \<not> separator c \<and> c \<noteq> CHR ''x'') then Some s else None),
      from_hex =
        (\<lambda>s. if take 2 s = ''0x'' \<and> (\<forall>c\<in>set s. \<not> separator c) then Ok (map of_char (drop 2 s)) else Err ''not hex'')\<rparr>"

lemma plain_env_documented: "hex_documented plain_env" "hash_documented plain_env"
  by (auto simp: hex_documented_def hash_documented_def plain_env_def split: if_splits)

lemma plain_env_hex: "from_hex plain_env ''0xA'' = Ok [65]"
  by (simp add: plain_env_def separator_def)

text \<open>Blocks that are a header and extrinsics, all natural numbers, encoded as their bytes.\<close>

definition plain_block :: "(nat \<times> nat list, nat, nat) block_type" where
  "plain_block =
     \<lparr>block_decode = (\<lambda>bytes. case map unat bytes of [] \<Rightarrow> Err ''empty'' | h # exts \<Rightarrow> Ok (h, exts)),
      block_encode = (\<lambda>(h, exts). map of_nat (h # exts)),
      block_new = Pair,
      block_header = fst,
      block_extrinsics = snd,
      block_debug = (\<lambda>(h, exts). show_nat h),
      header_debug = show_nat,
      ext_decode = (\<lambda>bytes. case bytes of [b] \<Rightarrow> Ok (unat b) | _ \<Rightarrow> Err ''length''),
      ext_encode = (\<lambda>ext. [of_nat ext]),
      ext_debug = show_nat,
      hex_display = (\<lambda>bytes. concat (map (\<lambda>b. show_nat (unat b)) bytes))\<rparr>"

text \<open>A chain of one block, number 5, with two extrinsics.\<close>

definition plain_chain :: "(string, u32, nat, nat) chain_access" where
  "plain_chain =
     \<lparr>chain_block_body = (\<lambda>bid. Ok (if bid = BlockId_Number 5 \<or> bid = BlockId_Hash ''five'' then Some [7, 8] else None)),
      chain_header = (\<lambda>bid. Ok (if bid = BlockId_Number 5 \<or> bid = BlockId_Hash ''five'' then Some 3 else None)),
      block_id_debug = (\<lambda>bid. '''')\<rparr>"

section \<open>Addresses\<close>

lemma number_address:
  assumes "hash_documented env"
  shows "BlockAddress_from_str env (show_word n) = Ok (BlockAddress_Number (n :: u32))"
proof -
  have "length (show_word n) \<le> 10"
    unfolding show_word_def using unat_lt_32 [of n] by (intro length_show_nat) simp_all
  then have "hash_from_str env (show_word n) = None"
    using assms by (force simp: hash_documented_def)
  then show ?thesis
    by (simp add: BlockAddress_from_str_def number_text.parse_render)
qed

lemma number_index_address:
  assumes "hash_documented env" and "hex_documented env" and "separator c"
  shows "ExtrinsicAddress_from_str env (show_word n @ c # show_word i)
      = Ok (ExtrinsicAddress_Block (BlockAddress_Number (n :: u32)) i)"
    and "separator c' \<Longrightarrow> ExtrinsicAddress_from_str env (show_word n @ c # show_word i @ c' # rest)
      = Ok (ExtrinsicAddress_Block (BlockAddress_Number (n :: u32)) i)"
proof -
  have no_hex: "\<exists>e. from_hex env s = Err e" if "c \<in> set s" for s
    using assms(2,3) that by (cases "from_hex env s") (auto simp: hex_documented_def)
  show "ExtrinsicAddress_from_str env (show_word n @ c # show_word i)
      = Ok (ExtrinsicAddress_Block (BlockAddress_Number n) i)"
    "separator c' \<Longrightarrow> ExtrinsicAddress_from_str env (show_word n @ c # show_word i @ c' # rest)
      = Ok (ExtrinsicAddress_Block (BlockAddress_Number n) i)"
    using number_address [OF assms(1)] assms(3) no_hex [of "show_word n @ c # show_word i"]
      no_hex [of "show_word n @ c # show_word i @ c' # rest"]
    by (auto simp: ExtrinsicAddress_from_str_def number_text.split_first
        index_text.split_first index_text.split_one index_text.parse_render)
qed

lemma address_without_index:
  assumes "hash_documented env" and "hex_documented env"
  shows "ExtrinsicAddress_from_str env (show_word (n :: u32))
      = (Err ''Extrinsic index missing: example \"5:0\"'' :: (('h, u32) ExtrinsicAddress, string) result)"
proof -
  have "take 2 (show_word n) \<noteq> ''0x''"
    using show_word_plain [of "CHR ''x''" n] by (metis in_set_takeD list.set_intros(1,2))
  then obtain e where "from_hex env (show_word n) = Err e"
    using assms(2) by (cases "from_hex env (show_word n)") (auto simp: hex_documented_def)
  then show ?thesis
    by (simp add: ExtrinsicAddress_from_str_def number_text.split_one number_address [OF assms(1)])
qed

lemma raw_extrinsic: "from_hex env s = Ok bytes \<Longrightarrow> ExtrinsicAddress_from_str env s = Ok (ExtrinsicAddress_Bytes bytes)"
  by (simp add: ExtrinsicAddress_from_str_def)

lemma hex_only:
  assumes "hash_documented env" and "hex_documented env" and "from_hex env s = Ok bytes"
  shows "hash_from_str env s = None" "\<not> is_ok (uint_from_str s :: ('w::len word, int_error_kind) result)"
proof -
  have hex: "take 2 s = ''0x''"
    using assms(2,3) by (simp add: hex_documented_def)
  then have "CHR ''x'' \<in> set s"
    by (metis in_set_takeD list.set_intros(1,2))
  then show "hash_from_str env s = None"
    using assms(1) by (force simp: hash_documented_def)
  obtain rest where "s = CHR ''0'' # CHR ''x'' # rest"
    using hex by (cases s; cases "tl s") auto
  then show "\<not> is_ok (uint_from_str s :: ('w word, int_error_kind) result)"
    by (auto simp: uint_from_str_def to_digit_def split: option.split)
qed

text \<open>
  C28: What a text names as a block address, in the order in which the forms are tried: a hash
  exactly when it is the text of one, even if its digits are also a number's; a number exactly
  when it is not the text of a hash and is a decimal that fits, as the decimal text of every
  block number is; bytes exactly when it is hex-encoded (such a text is neither of the others);
  and it is rejected exactly when it has none of the three forms.
\<close>

theorem block_address_forms:
  assumes "hash_documented env" and "hex_documented env"
  shows "(BlockAddress_from_str env s = (Ok (BlockAddress_Hash hash) :: (('h, u32) BlockAddress, string) result)
        \<longleftrightarrow> hash_from_str env s = Some hash)
    \<and> (BlockAddress_from_str env s = (Ok (BlockAddress_Number n) :: (('h, u32) BlockAddress, string) result)
        \<longleftrightarrow> hash_from_str env s = None \<and> uint_from_str s = Ok n)
    \<and> BlockAddress_from_str env (show_word n) = Ok (BlockAddress_Number n)
    \<and> (BlockAddress_from_str env s = (Ok (BlockAddress_Bytes bytes) :: (('h, u32) BlockAddress, string) result)
        \<longleftrightarrow> from_hex env s = Ok bytes)
    \<and> (is_ok (BlockAddress_from_str env s :: (('h, u32) BlockAddress, string) result) \<longleftrightarrow>
         hash_from_str env s \<noteq> None \<or> is_ok (uint_from_str s :: (u32, int_error_kind) result)
         \<or> is_ok (from_hex env s))"
proof (intro conjI)
  show "BlockAddress_from_str env (show_word n) = Ok (BlockAddress_Number n)"
    using assms(1) by (rule number_address)
  have "from_hex env s = Ok bytes \<Longrightarrow>
      hash_from_str env s = None \<and> \<not> is_ok (uint_from_str s :: (u32, int_error_kind) result)"
    using hex_only [OF assms, of s bytes] by blast
  then show "BlockAddress_from_str env s = (Ok (BlockAddress_Bytes bytes) :: (('h, u32) BlockAddress, string) result)
      \<longleftrightarrow> from_hex env s = Ok bytes"
    by (cases "from_hex env s") (auto simp: BlockAddress_from_str_def is_ok_def split: option.split result.split)
qed (cases "from_hex env s"; auto simp: BlockAddress_from_str_def is_ok_def split: option.split result.split)+

text \<open>Forty zeros are a hash of the witness, and a number: they are read as the hash.\<close>

theorem block_address_forms_witness:
  "BlockAddress_from_str plain_env (show_word (1234 :: u32)) = Ok (BlockAddress_Number (1234 :: u32))
   \<and> BlockAddress_from_str plain_env ''0xA'' = (Ok (BlockAddress_Bytes [65]) :: ((string, u32) BlockAddress, string) result)
   \<and> uint_from_str (replicate 40 (CHR ''0'')) = Ok (0 :: u32)
   \<and> BlockAddress_from_str plain_env (replicate 40 (CHR ''0''))
       = (Ok (BlockAddress_Hash (replicate 40 (CHR ''0''))) :: ((string, u32) BlockAddress, string) result)"
proof -
  let ?zeros = "replicate 40 (CHR ''0'')"
  have "parse_digits (0 :: u32) (replicate k (CHR ''0'')) = Ok 0" for k
    by (induction k) (simp_all add: to_digit_def checked_mul_def checked_add_def)
  moreover have "replicate 40 (CHR ''0'') \<noteq> ''+''" "hd (replicate 40 (CHR ''0'')) = CHR ''0''"
    by (metis length_replicate length_Cons list.size(3) numeral_One numeral_eq_iff One_nat_def semiring_norm(83), simp)
  ultimately have "uint_from_str ?zeros = Ok (0 :: u32)"
    by (simp add: uint_from_str_def)
  moreover have "hash_from_str plain_env ?zeros = Some ?zeros"
    by (simp add: plain_env_def separator_def)
  ultimately show ?thesis
    using block_address_forms [OF plain_env_documented(2,1), of "''0xA''" _ 1234 "[65]"] plain_env_hex
      block_address_forms [OF plain_env_documented(2,1), of ?zeros ?zeros 0 "[]"]
    by blast
qed

text \<open>
  C29: The grammar of extrinsic addresses. A text is the address of a block's extrinsic
  exactly when it is not hex-encoded bytes and begins with the text of a block address, a
  separator (a dot, a colon or a space) and the text of an index, up to its end or the next
  separator; whatever follows a second separator is ignored.
\<close>

theorem extrinsic_address_grammar:
  "ExtrinsicAddress_from_str env s =
      (Ok (ExtrinsicAddress_Block block index) :: (('h, 'w::len word) ExtrinsicAddress, string) result) \<longleftrightarrow>
    \<not> is_ok (from_hex env s) \<and>
    (\<exists>first c rest. s = first @ c # rest \<and> (\<forall>c\<in>set first. \<not> separator c) \<and> separator c
      \<and> BlockAddress_from_str env first = Ok block
      \<and> uint_from_str (takeWhile (\<lambda>c. \<not> separator c) rest) = Ok index)"
proof (cases "is_ok (from_hex env s)")
  case True
  then show ?thesis
    by (auto simp: ExtrinsicAddress_from_str_def is_ok_def split: result.splits)
next
  case False
  then obtain e where hex: "from_hex env s = Err e"
    by (cases "from_hex env s") auto
  show ?thesis
  proof (cases "tl (split_on separator s)")
    case Nil
    then have split: "split_on separator s = [hd (split_on separator s)]"
      by (metis list.collapse split_on_not_Nil)
    then have "\<forall>c\<in>set s. \<not> separator c"
      by (metis split_on_single)
    then show ?thesis
      using Nil by (auto simp: ExtrinsicAddress_from_str_def hex and_then_eq_Ok)
  next
    case (Cons part parts)
    then obtain first where split: "split_on separator s = first # part # parts"
      by (metis list.collapse split_on_not_Nil)
    then obtain c rest where s: "s = first @ c # rest" "\<forall>c\<in>set first. \<not> separator c" "separator c"
      "split_on separator rest = part # parts"
      by (auto simp: split_on_Cons)
    have part: "part = takeWhile (\<lambda>c. \<not> separator c) rest"
      using hd_split_on [of separator rest] s(4) by simp
    have unique: "first' = first \<and> rest' = rest"
      if "s = first' @ c' # rest'" "\<forall>c\<in>set first'. \<not> separator c" "separator c'" for first' c' rest'
      using first_separator_unique [of first c rest first' c' rest' separator] that s(1-3) by simp
    have "ExtrinsicAddress_from_str env s = Ok (ExtrinsicAddress_Block block index) \<longleftrightarrow>
        BlockAddress_from_str env first = Ok block \<and> uint_from_str part = Ok index"
      by (cases "uint_from_str part :: (usize, int_error_kind) result")
        (auto simp: ExtrinsicAddress_from_str_def hex split and_then_eq_Ok)
    also have "\<dots> \<longleftrightarrow> (\<exists>first c rest. s = first @ c # rest \<and> (\<forall>c\<in>set first. \<not> separator c) \<and> separator c
        \<and> BlockAddress_from_str env first = Ok block
        \<and> uint_from_str (takeWhile (\<lambda>c. \<not> separator c) rest) = Ok index)"
      using s(1-3) unique unfolding part by blast
    finally show ?thesis
      by (simp add: hex)
  qed
qed

theorem extrinsic_address_grammar_witness:
  "ExtrinsicAddress_from_str plain_env ''12 7 tail'' =
     (Ok (ExtrinsicAddress_Block (BlockAddress_Number 12) 7) :: ((string, u32) ExtrinsicAddress, string) result)"
proof -
  have "uint_from_str ''12'' = Ok (12 :: u32)" "uint_from_str ''7'' = Ok (7 :: usize)"
    by (simp_all add: uint_from_str_def to_digit_def checked_mul_def checked_add_def)
  moreover have "BlockAddress_from_str plain_env ''12'' = (Ok (BlockAddress_Number 12) :: ((string, u32) BlockAddress, string) result)"
    using calculation(1) by (simp add: BlockAddress_from_str_def plain_env_def)
  moreover have "\<not> is_ok (from_hex plain_env ''12 7 tail'')"
    by (simp add: plain_env_def)
  moreover have "''12 7 tail'' = ''12'' @ CHR '' '' # ''7 tail''" "\<forall>c\<in>set ''12''. \<not> separator c"
    "separator CHR '' ''" "takeWhile (\<lambda>c. \<not> separator c) ''7 tail'' = ''7''"
    by (simp_all add: separator_def)
  ultimately show ?thesis
    unfolding extrinsic_address_grammar by metis
qed

text \<open>
  Extrinsic addresses round trip: the texts of a block number and an index with any
  separator between them parse to that block and index, with the second part cut at a
  further separator, and hex-encoded bytes parse to those bytes; a plain number misses its
  index.
\<close>

theorem extrinsic_address_round_trip:
  assumes "hash_documented env" and "hex_documented env" and "separator c" and "separator c'"
  shows "ExtrinsicAddress_from_str env (show_word n @ c # show_word i)
      = Ok (ExtrinsicAddress_Block (BlockAddress_Number (n :: u32)) i)
    \<and> ExtrinsicAddress_from_str env (show_word n @ c # show_word i @ c' # rest)
      = Ok (ExtrinsicAddress_Block (BlockAddress_Number n) i)
    \<and> (from_hex env s = Ok bytes \<longrightarrow>
         ExtrinsicAddress_from_str env s = (Ok (ExtrinsicAddress_Bytes bytes) :: (('h, u32) ExtrinsicAddress, string) result))
    \<and> ExtrinsicAddress_from_str env (show_word n)
      = (Err ''Extrinsic index missing: example \"5:0\"'' :: (('h, u32) ExtrinsicAddress, string) result)"
  using assms by (simp add: number_index_address address_without_index raw_extrinsic)

theorem extrinsic_address_round_trip_witness:
  "ExtrinsicAddress_from_str plain_env (show_word (1234 :: u32) @ CHR '':'' # show_word (0 :: usize))
     = Ok (ExtrinsicAddress_Block (BlockAddress_Number (1234 :: u32)) 0)"
  using extrinsic_address_round_trip [OF plain_env_documented(2,1), of "CHR '':''" "CHR '':''" 1234 0, THEN conjunct1]
  by (simp add: separator_def)

section \<open>The inspector\<close>

lemma plain_chain_has:
  "chain_has plain_chain (BlockId_Number 5) 3 [7, 8]" "chain_has plain_chain (BlockId_Hash ''five'') 3 [7, 8]"
  by (simp_all add: chain_has_def plain_chain_def)

text \<open>
  C30: A block shows the same text however it is named: by its number, by its hash or as its
  encoding, when the chain holds it under both ids and the codec decodes what it encodes.
\<close>

theorem same_block_same_text:
  assumes "chain_has chain (BlockId_Number n) header body" and "chain_has chain (BlockId_Hash hash) header body"
    and "block_decode B (block_encode B (block_new B header body)) = Ok (block_new B header body)"
  shows "inspect_block B (DebugPrinter B) chain (BlockAddress_Number n) = Some (Ok (block_lines B (block_new B header body)))
    \<and> inspect_block B (DebugPrinter B) chain (BlockAddress_Hash hash)
      = inspect_block B (DebugPrinter B) chain (BlockAddress_Number n)
    \<and> inspect_block B (DebugPrinter B) chain (BlockAddress_Bytes (block_encode B (block_new B header body)))
      = inspect_block B (DebugPrinter B) chain (BlockAddress_Number n)"
proof -
  have "get_block B chain (BlockAddress_Number n) = Ok (block_new B header body)"
    "get_block B chain (BlockAddress_Hash hash) = Ok (block_new B header body)"
    using assms(1,2) by (auto simp: get_block_lookup lookup_block_Ok)
  moreover have "get_block B chain (BlockAddress_Bytes (block_encode B (block_new B header body)))
      = Ok (block_new B header body)"
    using assms(3) by (simp add: get_block_def)
  ultimately show ?thesis
    by (simp add: inspect_block_def debug_display)
qed

theorem same_block_same_text_witness:
  "inspect_block plain_block (DebugPrinter plain_block) plain_chain (BlockAddress_Bytes [3, 7, 8])
   = inspect_block plain_block (DebugPrinter plain_block) plain_chain (BlockAddress_Number 5)"
  using same_block_same_text [OF plain_chain_has, of plain_block]
  by (simp add: plain_block_def)

text \<open>
  What \<open>block\<close> answers for a number or a hash: the text of the block exactly when the
  chain has its body and its header, \<open>NotFound\<close> exactly when it reports one of them missing,
  and the chain's error exactly when reading the body, or then the header, fails; the
  formatting never panics.
\<close>

theorem inspect_block_outcome:
  assumes "address_id input = Some bid"
  shows "inspect_block B (DebugPrinter B) chain input \<noteq> None
    \<and> (inspect_block B (DebugPrinter B) chain input = Some (Ok text) \<longleftrightarrow>
        (\<exists>header body. chain_has chain bid header body \<and> text = block_lines B (block_new B header body)))
    \<and> (inspect_block B (DebugPrinter B) chain input = Some (Err (NotFound m)) \<longleftrightarrow>
        (chain_block_body chain bid = Ok None
          \<or> (\<exists>body. chain_block_body chain bid = Ok (Some body)) \<and> chain_header chain bid = Ok None)
        \<and> m = ''Could not find block '' @ block_id_debug chain bid)
    \<and> (inspect_block B (DebugPrinter B) chain input = Some (Err (Blockchain e)) \<longleftrightarrow>
        chain_block_body chain bid = Err e
          \<or> (\<exists>body. chain_block_body chain bid = Ok (Some body)) \<and> chain_header chain bid = Err e)"
  by (auto simp: inspect_block_def get_block_lookup [OF assms] lookup_block_def chain_has_def debug_display
      split: result.splits option.splits)

theorem inspect_block_outcome_witness:
  "inspect_block plain_block (DebugPrinter plain_block) plain_chain (BlockAddress_Number 6)
   = Some (Err (NotFound ''Could not find block ''))"
  using inspect_block_outcome [of "BlockAddress_Number 6" "BlockId_Number 6" plain_block plain_chain _ "''Could not find block ''"]
  by (simp add: plain_chain_def)

text \<open>
  C31: The inspector shows an extrinsic the same way everywhere: as the entry of its block's
  text, by its index in the block and as its encoding. The text of a block, however the block
  was named, is its header, its bytes, the count of its extrinsics and then, under the numbers
  from 0 on, the texts that \<open>extrinsic\<close> shows for the indices of the block; an index past the
  block's extrinsics is \<open>NotFound\<close>.
\<close>

theorem extrinsic_same_text:
  assumes "get_block B chain a = Ok block" and "block_extrinsics B block = exts"
    and "\<forall>ext\<in>set exts. ext_decode B (ext_encode B ext) = Ok ext"
  shows "\<exists>texts. length texts = length exts
    \<and> inspect_block B (DebugPrinter B) chain a = Some (Ok
        (''Header:'' @ newline @ header_debug B (block_header B block) @ newline
         @ ''Block bytes: '' @ hex_display B (block_encode B block) @ newline
         @ ''Extrinsics ('' @ show_nat (length exts) @ '')'' @ newline
         @ concat (map (\<lambda>(k, text). ''- '' @ show_nat k @ '':'' @ newline @ text) (enumerate 0 texts))))
    \<and> (\<forall>i. if unat i < length exts
         then inspect_extrinsic B (DebugPrinter B) chain (ExtrinsicAddress_Block a i) = Some (Ok (texts ! unat i))
           \<and> inspect_extrinsic B (DebugPrinter B) chain (ExtrinsicAddress_Bytes (ext_encode B (exts ! unat i)))
               = Some (Ok (texts ! unat i))
         else \<exists>m. inspect_extrinsic B (DebugPrinter B) chain (ExtrinsicAddress_Block a i) = Some (Err (NotFound m)))"
proof (intro exI [of _ "map (extrinsic_lines B) exts"] conjI allI)
  have "map (numbered_lines B) (enumerate 0 exts)
      = map (\<lambda>(k, text). ''- '' @ show_nat k @ '':'' @ newline @ text) (enumerate 0 (map (extrinsic_lines B) exts))"
    by (rule nth_equalityI) (simp_all add: numbered_lines_def nth_enumerate_eq)
  then show "inspect_block B (DebugPrinter B) chain a = Some (Ok
        (''Header:'' @ newline @ header_debug B (block_header B block) @ newline
         @ ''Block bytes: '' @ hex_display B (block_encode B block) @ newline
         @ ''Extrinsics ('' @ show_nat (length exts) @ '')'' @ newline
         @ concat (map (\<lambda>(k, text). ''- '' @ show_nat k @ '':'' @ newline @ text)
             (enumerate 0 (map (extrinsic_lines B) exts)))))"
    using assms(1,2) by (simp add: inspect_block_def debug_display block_lines_def)
  show "if unat i < length exts
         then inspect_extrinsic B (DebugPrinter B) chain (ExtrinsicAddress_Block a i)
             = Some (Ok (map (extrinsic_lines B) exts ! unat i))
           \<and> inspect_extrinsic B (DebugPrinter B) chain (ExtrinsicAddress_Bytes (ext_encode B (exts ! unat i)))
               = Some (Ok (map (extrinsic_lines B) exts ! unat i))
         else \<exists>m. inspect_extrinsic B (DebugPrinter B) chain (ExtrinsicAddress_Block a i) = Some (Err (NotFound m))" for i
    using assms by (simp add: inspect_extrinsic_def find_extrinsic_def debug_display)
qed simp

theorem extrinsic_same_text_witness:
  "\<exists>texts. length texts = 2
    \<and> inspect_block plain_block (DebugPrinter plain_block) plain_chain (BlockAddress_Number 5) = Some (Ok
        (''Header:'' @ newline @ ''3'' @ newline @ ''Block bytes: 378'' @ newline @ ''Extrinsics (2)'' @ newline
         @ concat (map (\<lambda>(k, text). ''- '' @ show_nat k @ '':'' @ newline @ text) (enumerate 0 texts))))
    \<and> inspect_extrinsic plain_block (DebugPrinter plain_block) plain_chain (ExtrinsicAddress_Block (BlockAddress_Number 5) 1)
        = Some (Ok (texts ! 1))"
proof -
  have block: "get_block plain_block plain_chain (BlockAddress_Number 5) = Ok (3, [7, 8])"
    "block_extrinsics plain_block (3, [7, 8]) = [7, 8]"
    "\<forall>ext\<in>set [7, 8]. ext_decode plain_block (ext_encode plain_block ext) = Ok ext"
    by (simp_all add: get_block_def plain_chain_def plain_block_def)
  have "header_debug plain_block (block_header plain_block (3, [7, 8])) = ''3''"
    "hex_display plain_block (block_encode plain_block (3, [7, 8])) = ''378''" "show_nat (Suc (Suc 0)) = ''2''"
    by (simp_all add: plain_block_def show_nat.simps digit_char_def char_of_eq_iff)
  moreover obtain texts where "length texts = length [7, 8 :: nat]"
    "inspect_block plain_block (DebugPrinter plain_block) plain_chain (BlockAddress_Number 5) = Some (Ok
        (''Header:'' @ newline @ header_debug plain_block (block_header plain_block (3, [7, 8])) @ newline
         @ ''Block bytes: '' @ hex_display plain_block (block_encode plain_block (3, [7, 8])) @ newline
         @ ''Extrinsics ('' @ show_nat (length [7, 8 :: nat]) @ '')'' @ newline
         @ concat (map (\<lambda>(k, text). ''- '' @ show_nat k @ '':'' @ newline @ text) (enumerate 0 texts))))"
    "unat (1 :: usize) < length [7, 8 :: nat] \<longrightarrow> inspect_extrinsic plain_block (DebugPrinter plain_block) plain_chain
      (ExtrinsicAddress_Block (BlockAddress_Number 5) 1) = Some (Ok (texts ! unat (1 :: usize)))"
    using extrinsic_same_text [OF block] by metis
  ultimately show ?thesis
    by (intro exI [of _ texts]) simp
qed

text \<open>
  C32: The command end to end: for a block the chain holds, \<open>inspect block n\<close> prints its
  text and \<open>inspect extrinsic n:i\<close> the text of its \<open>i\<close>-th extrinsic; the command never
  panics, and when the client cannot be opened it prints nothing and returns that error.
\<close>

theorem inspect_run_prints:
  assumes "hash_documented env" and "hex_documented env"
    and "chain_has client (BlockId_Number (n :: u32)) header body"
    and "block_extrinsics B (block_new B header body) = body" and "unat (i :: usize) < length body"
  shows "inspect_run B env (Ok client) (InspectSubCmd_Block (show_word n))
      = Some (Ok (block_lines B (block_new B header body) @ newline))
    \<and> inspect_run B env (Ok client) (InspectSubCmd_Extrinsic (show_word n @ CHR '':'' # show_word i))
      = Some (Ok (extrinsic_lines B (body ! unat i) @ newline))
    \<and> inspect_run B env opened command \<noteq> None
    \<and> inspect_run B env (Err e) command = Some (Err e)"
proof -
  have block: "get_block B client (BlockAddress_Number n) = Ok (block_new B header body)"
    using assms(3) by (auto simp: get_block_lookup lookup_block_Ok)
  have number: "BlockAddress_from_str env (show_word n) = Ok (BlockAddress_Number n)"
    using assms(1) by (rule number_address)
  have address: "ExtrinsicAddress_from_str env (show_word n @ CHR '':'' # show_word i)
      = Ok (ExtrinsicAddress_Block (BlockAddress_Number n) i)"
    using assms(1,2) by (rule number_index_address) (simp add: separator_def)
  with block number assms(4,5) show ?thesis
    by (simp add: inspect_run_returns, simp add: inspect_run_def inspect_block_def inspect_extrinsic_def find_extrinsic_def debug_display)
qed

theorem inspect_run_prints_witness:
  "inspect_run plain_block plain_env (Ok plain_chain) (InspectSubCmd_Extrinsic (show_word (5 :: u32) @ CHR '':'' # show_word (1 :: usize)))
   = Some (Ok (extrinsic_lines plain_block 8 @ newline))"
proof -
  have "block_extrinsics plain_block (block_new plain_block 3 [7, 8]) = [7, 8]"
    by (simp add: plain_block_def)
  from inspect_run_prints [OF plain_env_documented(2,1) plain_chain_has(1) this, of 1, THEN conjunct2, THEN conjunct1]
  show ?thesis by simp
qed

end
