(* ===== verification/Node_Theorems.thy ===== *)
theory Node_Theorems
  imports Cli Browser Service_Flow Chain_Spec_Theorems Inspect_Theorems
begin

text \<open>
  The properties of the node: when a service starts its network, what the role of a node
  makes it run, what its command line runs, and how its RPC handlers are wired.
\<close>

section \<open>Instances for the witnesses\<close>

text \<open>Roles as documented, an authority with a sentry, and calls that all succeed but one.\<close>

definition plain_roles :: role_api where
  "plain_roles =
     \<lparr>is_authority = (\<lambda>r. case r of Role_Authority _ \<Rightarrow> True | _ \<Rightarrow> False),
      is_network_authority = (\<lambda>r. case r of Role_Authority _ \<Rightarrow> True | Role_Sentry _ \<Rightarrow> True | _ \<Rightarrow> False)\<rparr>"

lemma plain_roles_documented: "role_documented plain_roles"
  by (auto simp: role_documented_def plain_roles_def split: role.splits)

definition authority_config :: configuration where
  "authority_config =
     \<lparr>config_role = Role_Authority [''sentry''], force_authoring = True, disable_grandpa = False,
      offchain_worker_enabled = True, node_name = ''node''\<rparr>"

definition failing :: "action \<Rightarrow> action \<Rightarrow> (unit, string) result" where
  "failing bad a = (if a = bad then Err ''failed'' else Ok ())"

section \<open>Services\<close>

lemma Start_network_full:
  obtains steps where "new_full_base R config = steps @ [Do Start_network]"
    "Start_network \<notin> action_of ` set steps"
proof -
  let ?steps = "new_partial @ [Try (Build_network False False True)]
     @ (if offchain_worker_enabled config then [Do Build_offchain_workers] else [])
     @ [Try (Spawn_tasks False False), Do With_startup_data]
     @ babe_steps config @ discovery_steps config @ grandpa_steps R config"
  have "new_full_base R config = ?steps @ [Do Start_network]"
    by (simp add: new_full_base_def)
  moreover have "Start_network \<notin> action_of ` set ?steps"
    by (cases "config_role config"; cases "offchain_worker_enabled config")
      (simp_all add: new_partial_def babe_steps_def discovery_steps_def grandpa_steps_def)
  ultimately show ?thesis ..
qed

text \<open>
  C36: A full node starts its network last and only when nothing failed: \<open>new_full\<close> succeeds
  exactly when every call it returns an error of succeeds, and exactly then its calls
  include starting the network, as the last of all its calls; otherwise the calls end with
  the first that failed, whose error it returns. In either case every call is given only
  objects that earlier calls returned and no call took for good, and after a success the
  objects the service returns are still there.
\<close>

theorem full_node_starts_last:
  "(snd (new_full R env config) = Ok () \<longleftrightarrow>
      (\<forall>s\<in>set (new_full_base R config). fallible s \<longrightarrow> is_ok (env (action_of s))))
   \<and> (Start_network \<in> set (fst (new_full R env config)) \<longleftrightarrow> snd (new_full R env config) = Ok ())
   \<and> (snd (new_full R env config) = Ok () \<longrightarrow> last (fst (new_full R env config)) = Start_network)
   \<and> (snd (new_full R env config) = Err e \<longrightarrow> env (last (fst (new_full R env config))) = Err e)
   \<and> flow_ok [] (fst (new_full R env config))
   \<and> (snd (new_full R env config) = Ok () \<longrightarrow>
        list_all (\<lambda>x. x \<in> set (flow_after [] (fst (new_full R env config)))) full_base_fields)"
proof -
  have flow: "flow_ok [] (fst (new_full R env config))"
    by (simp add: new_full_def run_flow full_flow)
  have fields: "list_all (\<lambda>x. x \<in> set (flow_after [] (fst (new_full R env config)))) full_base_fields"
    if "snd (new_full R env config) = Ok ()"
    using that full_fields [of R config] by (simp add: new_full_def run_steps_Ok_trace)
  obtain steps where steps: "new_full_base R config = steps @ [Do Start_network]"
    "Start_network \<notin> action_of ` set steps"
    by (rule Start_network_full)
  show ?thesis
  proof (cases "snd (new_full R env config)")
    case (Ok u)
    then have "fst (new_full R env config) = map action_of steps @ [Start_network]"
      using steps(1) by (simp add: new_full_def run_steps_Ok_trace)
    then show ?thesis
      using Ok flow fields by (simp add: new_full_def run_steps_Ok_iff [symmetric])
  next
    case (Err e')
    then have "run_steps env (new_full_base R config) = (fst (new_full R env config), Err e')"
      by (simp add: new_full_def prod_eq_iff)
    then obtain before a after where fails: "steps @ [Do Start_network] = before @ Try a # after" "env a = Err e'"
      "fst (new_full R env config) = map action_of before @ [a]"
      unfolding run_steps_Err steps(1) by auto
    then have "set (before @ [Try a]) \<subseteq> set steps"
      by (cases after rule: rev_cases) auto
    then have "action_of ` set (before @ [Try a]) \<subseteq> action_of ` set steps"
      by (rule image_mono)
    then have "Start_network \<notin> set (fst (new_full R env config))"
      using steps(2) fails(3) by auto
    then show ?thesis
      using Err fails(2,3) flow by (simp add: new_full_def run_steps_Ok_iff [symmetric])
  qed
qed

theorem full_node_starts_last_witness:
  "last (fst (new_full plain_roles (failing Setup_disabled_grandpa) authority_config)) = Start_network"
  using full_node_starts_last [of plain_roles "failing Setup_disabled_grandpa" authority_config]
  by (simp add: new_full_base_def new_partial_def babe_steps_def discovery_steps_def grandpa_steps_def
      authority_config_def failing_def)

lemma light_node_starts_early:
  "(Start_network \<in> set (fst (new_light env config)) \<longleftrightarrow>
      (\<forall>a\<in>{New_light_parts, Grandpa_light_block_import, Babe_config_get_or_compute, Babe_block_import,
             Babe_import_queue False True NeverCanAuthor, Build_network True True True}. is_ok (env a)))
   \<and> (snd (new_light env config) = Ok () \<longleftrightarrow>
      Start_network \<in> set (fst (new_light env config)) \<and> is_ok (env (Spawn_tasks True True)))"
  by (auto simp: new_light_def new_light_base_def is_ok_def split: result.splits)

lemma light_node_calls: "fst (new_light env config) \<noteq> []"
  by (auto simp: new_light_def new_light_base_def split: result.splits prod.splits)

text \<open>
  C37: A light node starts its network as soon as it is built: its calls include starting
  the network exactly when everything up to building the network succeeded, and it succeeds
  exactly when its tasks are then spawned too. A failing light node returns the error of the
  last call it made, so when only spawning its tasks fails, it returns that error with the
  network running. The browser client makes no call unless the log level, the console, the
  specification and the configuration are fine; then it makes those of the light node on that
  configuration, and it succeeds exactly when they do. Every call of a light node is given
  only objects that earlier calls returned and no call took for good, and after a success the
  objects the service returns are still there.
\<close>

theorem light_clients_start_early:
  "(Start_network \<in> set (fst (new_light env config)) \<longleftrightarrow>
      (\<forall>a\<in>{New_light_parts, Grandpa_light_block_import, Babe_config_get_or_compute, Babe_block_import,
             Babe_import_queue False True NeverCanAuthor, Build_network True True True}. is_ok (env a)))
   \<and> (snd (new_light env config) = Ok () \<longleftrightarrow>
      Start_network \<in> set (fst (new_light env config)) \<and> is_ok (env (Spawn_tasks True True)))
   \<and> (snd (new_light env config) = Err e \<longrightarrow> env (last (fst (new_light env config))) = Err e)
   \<and> (env (Spawn_tasks True True) = Err e \<and> Start_network \<in> set (fst (new_light env config)) \<longrightarrow>
        snd (new_light env config) = Err e)
   \<and> (fst (start_client browser spec level) \<noteq> [] \<longleftrightarrow> is_ok (browser_config browser spec level))
   \<and> (\<forall>config. browser_config browser spec level = Ok config \<longrightarrow>
        fst (start_client browser spec level) = fst (new_light (browser_calls browser) config)
        \<and> (is_ok (snd (start_client browser spec level)) \<longleftrightarrow> snd (new_light (browser_calls browser) config) = Ok ()))
   \<and> flow_ok [] (fst (new_light env config))
   \<and> (snd (new_light env config) = Ok () \<longrightarrow>
        list_all (\<lambda>x. x \<in> set (flow_after [] (fst (new_light env config)))) light_base_fields)"
proof -
  have err: "snd (new_light env config) = Err e \<longrightarrow> env (last (fst (new_light env config))) = Err e"
    using run_steps_Err_last [of env "new_light_base config" e] by (simp add: new_light_def)
  have fields: "snd (new_light env config) = Ok () \<longrightarrow>
      list_all (\<lambda>x. x \<in> set (flow_after [] (fst (new_light env config)))) light_base_fields"
    using light_fields [of config] by (simp add: new_light_def run_steps_Ok_trace)
  have flow: "flow_ok [] (fst (new_light env config))"
    using run_flow [OF light_flow, of env config] by (simp add: new_light_def)
  have client: "(fst (start_client browser spec level) \<noteq> [] \<longleftrightarrow> is_ok (browser_config browser spec level))
    \<and> (\<forall>config. browser_config browser spec level = Ok config \<longrightarrow>
        fst (start_client browser spec level) = fst (new_light (browser_calls browser) config)
        \<and> (is_ok (snd (start_client browser spec level)) \<longleftrightarrow> snd (new_light (browser_calls browser) config) = Ok ()))"
    by (auto simp: start_client_config light_node_calls is_ok_def map_err_def split: result.splits)
  have spawn: "env (Spawn_tasks True True) = Err e \<and> Start_network \<in> set (fst (new_light env config)) \<longrightarrow>
        snd (new_light env config) = Err e"
    by (auto simp: new_light_def new_light_base_def split: result.splits)
  show ?thesis
    using light_node_starts_early [of env config] err fields flow client spawn by blast
qed

definition plain_browser :: "(nat, unit, string) browser_env" where
  "plain_browser =
     \<lparr>level_from_str = (\<lambda>s. if s = ''info'' then Ok 3 else Err ''level''),
      init_console_log = (\<lambda>level. Ok ()),
      spec_from_json_bytes = (\<lambda>bytes. Err ''json''),
      development_spec = (),
      browser_configuration = (\<lambda>spec. Ok (authority_config\<lparr>config_role := Role_Light\<rparr>)),
      browser_calls = failing (Spawn_tasks True True),
      debug_string = (\<lambda>e. e),
      debug_service_error = (\<lambda>e. e)\<rparr>"

theorem light_clients_start_early_witness:
  "Start_network \<in> set (fst (new_light (failing (Spawn_tasks True True)) authority_config))
   \<and> snd (new_light (failing (Spawn_tasks True True)) authority_config) \<noteq> Ok ()
   \<and> fst (start_client plain_browser (Some ''spec'') ''info'') = []
   \<and> \<not> is_ok (snd (start_client plain_browser None ''info''))"
proof -
  have "browser_config plain_browser (Some ''spec'') ''info'' = Err ''json''"
    "browser_config plain_browser None ''info'' = Ok (authority_config\<lparr>config_role := Role_Light\<rparr>)"
    by (simp_all add: browser_config_def browser_spec_def plain_browser_def)
  then show ?thesis
    using light_clients_start_early [of "failing (Spawn_tasks True True)" authority_config "''failed''" plain_browser "Some ''spec''" "''info''"]
      light_clients_start_early [of "browser_calls plain_browser" "authority_config\<lparr>config_role := Role_Light\<rparr>"
        "''failed''" plain_browser None "''info''"]
    by (simp add: failing_def plain_browser_def [THEN arg_cong, of browser_calls])
qed

text \<open>
  C38: What the role of a full node makes it run, when its calls succeed: block authoring
  exactly for an authority, with the configured forcing; authority discovery exactly for
  authorities, with their sentry nodes, and sentries, with none; the GRANDPA voter unless
  disabled, with a keystore exactly for an authority and as an authority exactly for both;
  and the off-chain workers exactly when enabled.
\<close>

theorem full_node_roles:
  assumes "role_documented R" and "snd (new_full R env config) = Ok ()"
  shows "(Spawn_essential_blocking ''babe-proposer'' \<in> set (fst (new_full R env config)) \<longleftrightarrow>
        (\<exists>nodes. config_role config = Role_Authority nodes))
    \<and> (Start_babe force \<in> set (fst (new_full R env config)) \<longleftrightarrow>
        (\<exists>nodes. config_role config = Role_Authority nodes) \<and> force = force_authoring config)
    \<and> (New_authority_discovery sentries discovery \<in> set (fst (new_full R env config)) \<longleftrightarrow>
        config_role config = Role_Authority sentries \<and> discovery = Discovery_Authority
        \<or> (\<exists>nodes. config_role config = Role_Sentry nodes) \<and> sentries = [] \<and> discovery = Discovery_Sentry)
    \<and> (Spawn_essential_blocking ''grandpa-voter'' \<in> set (fst (new_full R env config)) \<longleftrightarrow> \<not> disable_grandpa config)
    \<and> (\<forall>g. Run_grandpa_voter g \<in> set (fst (new_full R env config)) \<longrightarrow>
        (grandpa_keystore g \<longleftrightarrow> (\<exists>nodes. config_role config = Role_Authority nodes))
        \<and> (grandpa_is_authority g \<longleftrightarrow>
            (\<exists>nodes. config_role config = Role_Authority nodes \<or> config_role config = Role_Sentry nodes)))
    \<and> (Build_offchain_workers \<in> set (fst (new_full R env config)) \<longleftrightarrow> offchain_worker_enabled config)"
proof -
  have trace: "fst (new_full R env config) = map action_of (new_full_base R config)"
    using assms(2) by (simp add: new_full_def run_steps_Ok_trace)
  show ?thesis
    unfolding trace using assms(1)
    by (cases "config_role config")
      (auto simp: new_full_base_def new_partial_def babe_steps_def discovery_steps_def grandpa_steps_def
        grandpa_config_of_def role_documented_def)
qed

theorem full_node_roles_witness:
  "New_authority_discovery [''sentry''] Discovery_Authority
     \<in> set (fst (new_full plain_roles (failing Setup_disabled_grandpa) authority_config))"
proof -
  have "snd (new_full plain_roles (failing Setup_disabled_grandpa) authority_config) = Ok ()"
    by (simp add: new_full_def new_full_base_def new_partial_def babe_steps_def discovery_steps_def
        grandpa_steps_def authority_config_def failing_def)
  from full_node_roles [OF plain_roles_documented this] show ?thesis
    by (simp add: authority_config_def)
qed

section \<open>The command line\<close>

lemma partial_starts_nothing: "Start_network \<notin> set (fst (run_steps env new_partial))"
proof -
  obtain rest where "map action_of new_partial = fst (run_steps env new_partial) @ rest"
    using run_steps_prefix by blast
  then have "set (fst (run_steps env new_partial)) \<subseteq> set (map action_of new_partial)"
    by simp
  moreover have "Start_network \<notin> set (map action_of new_partial)"
    by (simp add: new_partial_def)
  ultimately show ?thesis by blast
qed

lemma run_starts_network:
  assumes out: "run dev env sub = Some out" and start: "Start_network \<in> set (out_actions out)"
  shows "sub = None \<or> (\<exists>cmd. sub = Some (BuildSyncSpec cmd))"
proof (cases sub)
  case (Some s)
  show ?thesis
  proof (cases "service_use_of s")
    case Uses_nothing
    then show ?thesis
      using run_uses_nothing out start Some by fastforce
  next
    case Uses_partial
    then show ?thesis
      using run_uses_partial [of s dev env out] out start Some partial_starts_nothing [of "service_calls env"] by auto
  next
    case Uses_full
    then show ?thesis
      using Some by (cases s) auto
  qed
qed simp

lemma run_spec_error:
  assumes "makes_runner (runtime_benchmarks env) sub" "create_runner dev env sub = Some (Err e)"
  shows "run dev env sub = Some (plain_outcome (Err e))"
  using assms by (cases sub; cases "the sub") (auto simp: sync_run_def async_run_def with_runner_def)

text \<open>What \<open>run\<close> does with any development specification.\<close>

lemma run_dispatch:
  assumes "specs_documented env"
  shows "(run dev env sub = None \<longleftrightarrow>
      makes_runner (runtime_benchmarks env) sub
      \<and> ((chain_id env sub = Ok ''ipci'' \<or> chain_id env sub = Ok '''') \<and> \<not> is_ok (spec_from_bytes env (ipci_json env))
         \<or> chain_id env sub = Ok ''dev'' \<and> spec_genesis dev = None \<and> reaches_genesis sub
           \<and> (\<exists>config. make_configuration env sub dev = Ok config
                \<and> builds_genesis env sub config)))
    \<and> (\<forall>out. run dev env sub = Some out \<longrightarrow>
        (\<forall>path e. makes_runner (runtime_benchmarks env) sub \<longrightarrow> chain_id env sub = Ok path
            \<longrightarrow> path \<notin> {''dev'', ''ipci'', ''''} \<longrightarrow> spec_from_file env path = Err e \<longrightarrow> out = plain_outcome (Err e))
        \<and> (Start_network \<in> set (out_actions out) \<longrightarrow> sub = None \<or> (\<exists>cmd. sub = Some (BuildSyncSpec cmd)))
        \<and> ((\<exists>s. sub = Some s \<and> service_use_of s = Uses_nothing) \<longrightarrow> out_actions out = [])
        \<and> (sub \<in> {Some (Key cmd), Some (Sign cmd), Some (Verify cmd), Some (Vanity cmd)} \<longrightarrow>
            out = plain_outcome (cmd_run env (the sub)))
        \<and> (sub = Some (Benchmark cmd) \<and> \<not> runtime_benchmarks env \<longrightarrow> \<not> is_ok (out_result out)))"
proof (intro conjI allI impI)
  show "run dev env sub = None \<longleftrightarrow>
      makes_runner (runtime_benchmarks env) sub
      \<and> ((chain_id env sub = Ok ''ipci'' \<or> chain_id env sub = Ok '''') \<and> \<not> is_ok (spec_from_bytes env (ipci_json env))
         \<or> chain_id env sub = Ok ''dev'' \<and> spec_genesis dev = None \<and> reaches_genesis sub
           \<and> (\<exists>config. make_configuration env sub dev = Ok config
                \<and> builds_genesis env sub config))"
    by (rule run_panics_documented [OF assms])
next
  fix out assume out: "run dev env sub = Some out"
  show "out = plain_outcome (Err e)"
    if "makes_runner (runtime_benchmarks env) sub" "chain_id env sub = Ok path" "path \<notin> {''dev'', ''ipci'', ''''}"
      "spec_from_file env path = Err e" for path e
    using run_spec_error [OF that(1), of dev e] that(2-4) out
    by (simp add: create_runner_def load_spec_def)
  show "sub = None \<or> (\<exists>cmd. sub = Some (BuildSyncSpec cmd))" if "Start_network \<in> set (out_actions out)"
    using run_starts_network [OF out that] .
  show "out_actions out = []" if "\<exists>s. sub = Some s \<and> service_use_of s = Uses_nothing"
    using that out run_uses_nothing by blast
  show "out = plain_outcome (cmd_run env (the sub))"
    if "sub \<in> {Some (Key cmd), Some (Sign cmd), Some (Verify cmd), Some (Vanity cmd)}"
    using that out by auto
  show "\<not> is_ok (out_result out)" if "sub = Some (Benchmark cmd) \<and> \<not> runtime_benchmarks env"
    using that out by (auto simp: plain_outcome_def)
qed

text \<open>
  C39: What the command line runs, with the specification its options name loaded by
  \<open>load_spec\<close>. \<open>run\<close> panics exactly in two cases, both of runs that make a runner (the four
  key commands do not, nor does benchmarking without its feature): it loads the embedded
  \<open>ipci\<close> specification and that does not parse; or it loads the development specification, the
  genesis of that panics, and the command (any but purging the chain) has the genesis built.
  The hypothesis is that specifications parsed from JSON build their genesis without a panic.
  When \<open>run\<close> returns, the error of a specification file that cannot be loaded is its result;
  only running the node and building a sync spec can start the network; a command that uses no
  service makes no call of one; the key commands do what the command does; and without the
  feature, benchmarking fails whatever the configuration.
\<close>

theorem cli_dispatch:
  assumes "specs_documented env"
  shows "let dev = development_config P K wasm in
    (run dev env sub = None \<longleftrightarrow>
      makes_runner (runtime_benchmarks env) sub
      \<and> ((chain_id env sub = Ok ''ipci'' \<or> chain_id env sub = Ok '''') \<and> \<not> is_ok (spec_from_bytes env (ipci_json env))
         \<or> chain_id env sub = Ok ''dev'' \<and> spec_genesis dev = None \<and> reaches_genesis sub
           \<and> (\<exists>config. make_configuration env sub dev = Ok config
                \<and> builds_genesis env sub config)))
    \<and> (\<forall>out. run dev env sub = Some out \<longrightarrow>
        (\<forall>path e. makes_runner (runtime_benchmarks env) sub \<longrightarrow> chain_id env sub = Ok path
            \<longrightarrow> path \<notin> {''dev'', ''ipci'', ''''} \<longrightarrow> spec_from_file env path = Err e \<longrightarrow> out = plain_outcome (Err e))
        \<and> (Start_network \<in> set (out_actions out) \<longrightarrow> sub = None \<or> (\<exists>cmd. sub = Some (BuildSyncSpec cmd)))
        \<and> ((\<exists>s. sub = Some s \<and> service_use_of s = Uses_nothing) \<longrightarrow> out_actions out = [])
        \<and> (sub \<in> {Some (Key cmd), Some (Sign cmd), Some (Verify cmd), Some (Vanity cmd)} \<longrightarrow>
            out = plain_outcome (cmd_run env (the sub)))
        \<and> (sub = Some (Benchmark cmd) \<and> \<not> runtime_benchmarks env \<longrightarrow> \<not> is_ok (out_result out)))"
  unfolding Let_def using assms by (rule run_dispatch)

text \<open>A command line of the development chain, whose genesis is built, and its build without the runtime binary.\<close>

definition plain_cli ::
  "(nat, (string, nat, string, string, string, string) GenesisConfig, (unit, unit) Extensions,
    nat \<times> nat list, nat, nat, string) cli_env" where
  "plain_cli =
     \<lparr>chain_id = (\<lambda>sub. Ok ''dev''),
      spec_from_bytes = (\<lambda>bytes. Err ''json''),
      spec_from_file = (\<lambda>path. Err ''file''),
      ipci_json = [],
      make_configuration = (\<lambda>sub spec. Ok authority_config),
      builds_genesis = (\<lambda>sub config. True),
      cmd_run = (\<lambda>sub. Ok ()),
      service_calls = failing Setup_disabled_grandpa,
      runtime_benchmarks = False,
      cli_roles = plain_roles,
      cli_block_type = plain_block,
      cli_addresses = plain_env,
      new_full_client = (\<lambda>config. Ok plain_chain)\<rparr>"

abbreviation plain_dev ::
  "u8 list option \<Rightarrow> ((string, nat, string, string, string, string) GenesisConfig, (unit, unit) Extensions) chain_spec" where
  "plain_dev wasm \<equiv> development_config nat_perbill string_keys wasm"

theorem cli_dispatch_witness:
  "run (plain_dev None) plain_cli None = None
   \<and> run (plain_dev None) plain_cli (Some (Key 3)) = Some (plain_outcome (Ok ()))
   \<and> run (plain_dev (Some [])) plain_cli None \<noteq> None"
proof -
  have doc: "specs_documented plain_cli"
    by (simp add: specs_documented_def plain_cli_def)
  have fields: "chain_id plain_cli sub = Ok ''dev''" "make_configuration plain_cli sub spec = Ok authority_config"
    "builds_genesis plain_cli sub config" "cmd_run plain_cli (Key 3) = Ok ()" for sub spec config
    by (simp_all add: plain_cli_def)
  have "spec_genesis (plain_dev None) = None"
    "spec_genesis (plain_dev (Some [])) \<noteq> None"
    by (simp_all add: development_config_def development_config_genesis_def authority_keys_from_seed_def
        testnet_genesis_def get_account_id_from_seed_def get_from_seed_def string_keys_def endowed_seeds_def)
  note genesis = this
  have "run (plain_dev None) plain_cli None = None"
    using cli_dispatch [OF doc, of nat_perbill string_keys None None 3] genesis(1) by (simp add: fields Let_def del: run.simps)
  moreover have "run (plain_dev (Some [])) plain_cli None \<noteq> None"
    using cli_dispatch [OF doc, of nat_perbill string_keys "Some []" None 3] genesis(2) by (simp add: fields Let_def del: run.simps)
  moreover have "run (plain_dev None) plain_cli (Some (Key 3)) = Some (plain_outcome (Ok ()))"
    by (simp add: fields)
  ultimately show ?thesis by blast
qed

text \<open>
  \<open>load_spec\<close> and the RPC: the names \<open>dev\<close>, \<open>ipci\<close> and the empty name never reach the
  file system, every other name does, and loading panics only when the embedded file does
  not parse. The handlers of a full node share the one client, the denial of unsafe calls
  reaches exactly the system and BABE handlers, and the keystore only the BABE handler.
\<close>

theorem load_spec_and_rpc:
  "((\<forall>file'. load_spec dev parse json file name = load_spec dev parse json file' name) \<longleftrightarrow>
      name \<in> {''dev'', ''ipci'', ''''})
   \<and> (load_spec dev parse json file name = None \<longleftrightarrow> name \<in> {''ipci'', ''''} \<and> \<not> is_ok (parse json))
   \<and> rpc_extensions_builder client pool select config epochs keystore voter auths stream provider deny executor =
      [FullSystem client pool deny, TransactionPayment client,
       BabeRpcHandler client epochs keystore config select deny,
       GrandpaRpcHandler auths voter stream executor provider]"
proof -
  have "name \<in> {''dev'', ''ipci'', ''''}"
    if "\<forall>file'. load_spec dev parse json file name = load_spec dev parse json file' name"
  proof (rule ccontr)
    assume "name \<notin> {''dev'', ''ipci'', ''''}"
    then have eq: "file name = file' name" for file'
      using that by (simp add: load_spec_def)
    have "file name = Ok dev" "file name = Err ''''"
      using eq [of "\<lambda>_. Ok dev"] eq [of "\<lambda>_. Err ''''"] by simp_all
    then show False by simp
  qed
  moreover have "load_spec dev parse json file name = load_spec dev parse json file' name"
    if "name \<in> {''dev'', ''ipci'', ''''}" for file'
    using that by (auto simp: load_spec_def)
  moreover have "load_spec dev parse json file name = None \<longleftrightarrow> name \<in> {''ipci'', ''''} \<and> \<not> is_ok (parse json)"
    by (auto simp: load_spec_def ipci_config_def is_ok_def split: result.splits)
  moreover have "rpc_extensions_builder client pool select config epochs keystore voter auths stream provider deny executor =
      [FullSystem client pool deny, TransactionPayment client,
       BabeRpcHandler client epochs keystore config select deny,
       GrandpaRpcHandler auths voter stream executor provider]"
    by (simp add: rpc_extensions_builder_def create_full_def Let_def)
  ultimately show ?thesis
    by blast
qed

end
