(* ===== verification/Runtime_Tx.thy ===== *)
theory Runtime_Tx
  imports Runtime_Constants
begin

text \<open>
  \<open>CreateSignedTransaction::create_transaction\<close> of \<open>node/runtime/src/lib.rs\<close>: how the
  runtime builds and signs a transaction of its own (an off-chain worker's report). The
  era, the payload type, the signer and the address lookup are Substrate's, the fields of
  the record \<open>tx_env\<close>.
\<close>

section \<open>Signed extensions\<close>

datatype 'era signed_extension =
    CheckSpecVersion
  | CheckTxVersion
  | CheckGenesis
  | CheckEra 'era
  | CheckNonce tx_index
  | CheckWeight
  | ChargeTransactionPayment balance

datatype extension_kind =
    Kind_CheckSpecVersion | Kind_CheckTxVersion | Kind_CheckGenesis | Kind_CheckEra
  | Kind_CheckNonce | Kind_CheckWeight | Kind_ChargeTransactionPayment

fun kind_of :: "'era signed_extension \<Rightarrow> extension_kind" where
  "kind_of CheckSpecVersion = Kind_CheckSpecVersion"
| "kind_of CheckTxVersion = Kind_CheckTxVersion"
| "kind_of CheckGenesis = Kind_CheckGenesis"
| "kind_of (CheckEra era) = Kind_CheckEra"
| "kind_of (CheckNonce nonce) = Kind_CheckNonce"
| "kind_of CheckWeight = Kind_CheckWeight"
| "kind_of (ChargeTransactionPayment tip) = Kind_ChargeTransactionPayment"

text \<open>The tuple type \<open>SignedExtra\<close>: the extensions every transaction carries, in order.\<close>

definition SignedExtra :: "extension_kind list" where
  "SignedExtra =
     [Kind_CheckSpecVersion,
      Kind_CheckTxVersion,
      Kind_CheckGenesis,
      Kind_CheckEra,
      Kind_CheckNonce,
      Kind_CheckWeight,
      Kind_ChargeTransactionPayment]"

section \<open>Creating a transaction\<close>

record ('call, 'public, 'account, 'era, 'payload, 'bytes, 'add, 'err, 'sig, 'address) tx_env =
  env_block_number :: block_number
  era_mortal :: "u64 \<Rightarrow> u64 \<Rightarrow> 'era"
  payload_new :: "'call \<Rightarrow> 'era signed_extension list \<Rightarrow> ('payload, 'err) result"
  payload_encoded :: "'payload \<Rightarrow> 'bytes"
  payload_deconstruct :: "'payload \<Rightarrow> 'call \<times> 'era signed_extension list \<times> 'add"
  app_sign :: "'bytes \<Rightarrow> 'public \<Rightarrow> 'sig option"
  indices_unlookup :: "'account \<Rightarrow> 'address"

text \<open>The longest mortality period: the power of two below the number of kept block hashes.\<close>

definition mortal_period :: "block_number \<Rightarrow> u64" where
  "mortal_period block_hash_count =
     ucast (case map_option (\<lambda>c. c div 2) (checked_next_power_of_two block_hash_count) of
              Some c \<Rightarrow> c
            | None \<Rightarrow> 2)"

definition create_transaction ::
  "('call, 'public, 'account, 'era, 'payload, 'bytes, 'add, 'err, 'sig, 'address) tx_env
   \<Rightarrow> 'call \<Rightarrow> 'public \<Rightarrow> 'account \<Rightarrow> tx_index
   \<Rightarrow> ('call \<times> ('address \<times> 'sig \<times> 'era signed_extension list)) option" where
  "create_transaction env call public account nonce =
     (let tip = 0;
          period = mortal_period BlockHashCount;
          current_block = saturating_sub (ucast (env_block_number env)) 1;
          era = era_mortal env period current_block;
          extra =
            [CheckSpecVersion,
             CheckTxVersion,
             CheckGenesis,
             CheckEra era,
             CheckNonce nonce,
             CheckWeight,
             ChargeTransactionPayment tip]
      in (case payload_new env call extra of
            Err e \<Rightarrow> None
          | Ok raw_payload \<Rightarrow>
              (case app_sign env (payload_encoded env raw_payload) public of
                 None \<Rightarrow> None
               | Some signature \<Rightarrow>
                   (let address = indices_unlookup env account;
                        (call, extra, _) = payload_deconstruct env raw_payload
                    in Some (call, (address, signature, extra))))))"

text \<open>Documented behaviour of a payload: it gives back the call and the extensions it was made of.\<close>

definition payload_keeps_parts ::
  "('call, 'public, 'account, 'era, 'payload, 'bytes, 'add, 'err, 'sig, 'address) tx_env \<Rightarrow> bool" where
  "payload_keeps_parts env \<longleftrightarrow>
     (\<forall>call extra payload. payload_new env call extra = Ok payload \<longrightarrow>
        (\<exists>add. payload_deconstruct env payload = (call, extra, add)))"

lemma mortal_period_power:
  assumes "1 < unat n" "unat n \<le> 2147483648"
  shows "\<exists>j. unat (mortal_period n) = 2 ^ j \<and> 2 ^ j < unat n \<and> unat n \<le> 2 * 2 ^ j"
proof -
  obtain q where q: "pow2_from 32 1 (unat n) = Some q"
    using pow2_from_enough [of "unat n" 1 31] assms by auto
  from pow2_from_Some [OF q] obtain j where j: "j < 32" "q = 2 ^ j" "unat n \<le> q"
    "j = 0 \<or> 2 ^ (j - 1) < unat n"
    by auto
  with assms(1) obtain i where i: "j = Suc i"
    by (cases j) auto
  have "(2::nat) ^ j \<le> 2 ^ 31"
    using j(1) by (intro power_increasing) auto
  then have "q < 2 ^ 32"
    by (simp add: j(2))
  then have "unat (of_nat q :: u32) = 2 ^ j"
    by (simp add: unat_of_nat take_bit_nat_eq_self_iff flip: j(2))
  then have "unat (mortal_period n) = 2 ^ i"
    by (simp add: mortal_period_def checked_next_power_of_two_def q [simplified] unat_ucast_wide unat_div i)
  then show ?thesis
    using j i by (intro exI [of _ i]) simp
qed

lemma mortal_period_too_big: "2147483648 < unat n \<Longrightarrow> mortal_period n = 2"
proof -
  assume big: "2147483648 < unat n"
  have "pow2_from 32 1 (unat n) = None"
  proof (rule ccontr)
    assume "pow2_from 32 1 (unat n) \<noteq> None"
    then obtain q where "pow2_from 32 1 (unat n) = Some q" by auto
    from pow2_from_Some [OF this] obtain j where j: "j < 32" "q = 2 ^ j" "unat n \<le> q" by auto
    have "(2::nat) ^ j \<le> 2 ^ 31"
      using j(1) by (intro power_increasing) auto
    with j big show False by simp
  qed
  then show ?thesis
    by (simp add: mortal_period_def checked_next_power_of_two_def)
qed

lemma mortal_period_BlockHashCount: "mortal_period BlockHashCount = 2048"
proof -
  obtain j where j: "unat (mortal_period BlockHashCount) = 2 ^ j" "(2::nat) ^ j < 2400" "2400 \<le> 2 * (2::nat) ^ j"
    using mortal_period_power [of BlockHashCount] by (auto simp: BlockHashCount_def)
  have "\<not> j < 11"
  proof
    assume "j < 11"
    then have "(2::nat) ^ j \<le> 2 ^ 10" by (intro power_increasing) auto
    with j(3) show False by simp
  qed
  moreover have "\<not> 11 < j"
  proof
    assume "11 < j"
    then have "(2::nat) ^ 12 \<le> 2 ^ j" by (intro power_increasing) auto
    with j(2) show False by simp
  qed
  ultimately have "j = 11" by simp
  with j(1) show ?thesis
    by (simp add: word_eq_unat_iff)
qed

end
