(* ===== verification/Primitives.thy ===== *)
theory Primitives
  imports Runtime_Config Runtime_Constants
begin

text \<open>
  The type aliases of \<open>node/primitives/src/lib.rs\<close> and of \<open>node/runtime/src/lib.rs\<close>, as tables
  from a name to the text of its type, with the identity of equivocation reporters. The
  integer types among them are the type synonyms of \<open>Runtime_Constants\<close>.
\<close>

type_synonym type_aliases = "(string \<times> string) list"

definition primitive_types :: type_aliases where
  "primitive_types =
     [(''BlockNumber'', ''u32''),
      (''Signature'', ''MultiSignature''),
      (''AccountId'', ''<<Signature as Verify>::Signer as IdentifyAccount>::AccountId''),
      (''AccountIndex'', ''u32''),
      (''Balance'', ''u128''),
      (''Moment'', ''u64''),
      (''Index'', ''u32''),
      (''Hash'', ''sp_core::H256''),
      (''Timestamp'', ''u64''),
      (''DigestItem'', ''generic::DigestItem<Hash>''),
      (''Header'', ''generic::Header<BlockNumber, BlakeTwo256>''),
      (''Block'', ''generic::Block<Header, OpaqueExtrinsic>''),
      (''BlockId'', ''generic::BlockId<Block>'')]"

text \<open>The module \<open>report\<close>: the key type, the reporter's identity and its \<open>AppCrypto\<close>.\<close>

definition report_module :: type_aliases where
  "report_module =
     [(''KEY_TYPE'', ''key_types::REPORTING''),
      (''ReporterId'', ''app::Public''),
      (''RuntimeAppPublic'', ''ReporterId''),
      (''GenericSignature'', ''sp_core::sr25519::Signature''),
      (''GenericPublic'', ''sp_core::sr25519::Public'')]"

definition signing_types :: type_aliases where
  "signing_types =
     [(''Public'', ''<Signature as traits::Verify>::Signer''),
      (''Signature'', ''Signature'')]"

definition send_transaction_types :: type_aliases where
  "send_transaction_types =
     [(''Extrinsic'', ''UncheckedExtrinsic''),
      (''OverarchingCall'', ''Call'')]"

definition runtime_types :: type_aliases where
  "runtime_types =
     [(''Address'', ''<Indices as StaticLookup>::Source''),
      (''Header'', ''generic::Header<BlockNumber, BlakeTwo256>''),
      (''Block'', ''generic::Block<Header, UncheckedExtrinsic>''),
      (''SignedBlock'', ''generic::SignedBlock<Block>''),
      (''BlockId'', ''generic::BlockId<Block>''),
      (''SignedExtra'', ''(frame_system::CheckSpecVersion<Runtime>, frame_system::CheckTxVersion<Runtime>, ''
         @ ''frame_system::CheckGenesis<Runtime>, frame_system::CheckEra<Runtime>, frame_system::CheckNonce<Runtime>, ''
         @ ''frame_system::CheckWeight<Runtime>, pallet_transaction_payment::ChargeTransactionPayment<Runtime>,)''),
      (''UncheckedExtrinsic'', ''generic::UncheckedExtrinsic<Address, Call, Signature, SignedExtra>''),
      (''SignedPayload'', ''generic::SignedPayload<Call, SignedExtra>''),
      (''CheckedExtrinsic'', ''generic::CheckedExtrinsic<AccountId, Call, SignedExtra>''),
      (''Executive'', ''frame_executive::Executive<Runtime, Block, frame_system::ChainContext<Runtime>, Runtime, AllModules>'')]"

text \<open>
  The node's opaque blocks and the runtime's blocks share their header, which is the one the
  system pallet is configured with: a block of the one can be read as a block of the other.
\<close>

lemma blocks_share_header:
  "map_of primitive_types ''Header'' = map_of runtime_types ''Header''"
  "assigned ''frame_system'' ''Header'' = map_of runtime_types ''Header''"
  "map_of primitive_types ''Block'' = Some ''generic::Block<Header, OpaqueExtrinsic>''"
  "map_of runtime_types ''Block'' = Some ''generic::Block<Header, UncheckedExtrinsic>''"
  by code_simp+

text \<open>The widths of the primitive types are those of the type synonyms.\<close>

definition width_of :: "string \<Rightarrow> nat option" where
  "width_of t = map_of [(''u8'', 8), (''u16'', 16), (''u32'', 32), (''u64'', 64), (''u128'', 128)] t"

definition primitive_width :: "string \<Rightarrow> nat option" where
  "primitive_width name = Option.bind (map_of primitive_types name) width_of"

lemma primitive_widths:
  "primitive_width ''BlockNumber'' = Some (size (0 :: block_number))"
  "primitive_width ''AccountIndex'' = Some (size (0 :: account_index))"
  "primitive_width ''Balance'' = Some (size (0 :: balance))"
  "primitive_width ''Moment'' = Some (size (0 :: moment))"
  "primitive_width ''Index'' = Some (size (0 :: tx_index))"
  by (simp_all add: primitive_width_def primitive_types_def width_of_def word_size)

end
