(* ===== verification/Datalog_Tests.thy ===== *)
theory Datalog_Tests
  imports Datalog_Storage
begin

text \<open>
  The unit tests of \<open>pallets/datalog/src/lib.rs\<close> (module \<open>tests\<close>) as programs over the model:
  each test is the conjunction of its assertions, run on fresh externalities. The codec's size
  hint and the base58 decoder of the tests are arguments.
\<close>

section \<open>The test runtime\<close>

text \<open>
  \<open>impl Trait for Runtime\<close> of the pallet's tests: accounts and moments are \<open>u64\<close>,
  records are byte vectors, the window has 20 slots and a message at most 512 bytes. The
  origin is a signer or none; the size hint is the codec's, an argument.
\<close>

definition test_runtime ::
  "(u8 list \<Rightarrow> usize) \<Rightarrow> (u64, u64, u8 list, u64 option, unit) datalog_trait" where
  "test_runtime hint =
     \<lparr>ensure_signed = (\<lambda>origin. case origin of Some a \<Rightarrow> Ok a | None \<Rightarrow> Err ()),
      size_hint = hint, default_moment = 0, default_record = [],
      window_size = 20, maximum_message_size = 512\<rparr>"

definition new_test_ext :: "(u64, u64, u8 list) datalog_state" where
  "new_test_ext = datalog_genesis 0"

text \<open>\<open>u64::to_be_bytes\<close>.\<close>

definition to_be_bytes :: "u64 \<Rightarrow> u8 list" where
  "to_be_bytes w = map (\<lambda>i. ucast (drop_bit (56 - 8 * i) w)) [0..<8]"

section \<open>The tests\<close>

definition test_ringbuffer_index :: bool where
  "test_ringbuffer_index \<longleftrightarrow>
     (let idx = ring_default
      in idx_start idx = idx_end idx \<and> idx_start idx = 0 \<and>
         (let (i, idx) = ring_add 20 idx in i = 0 \<and> idx_end idx = 1))"

definition test_store_data :: "(u8 list \<Rightarrow> usize) \<Rightarrow> bool" where
  "test_store_data hint \<longleftrightarrow>
     (let T = test_runtime hint;
          rec = bytes_of ''datalog'';
          (res, s) = record_call T (Some 1) rec new_test_ext
      in res = Ok () \<and> datalog_data T 1 s = Some [RingBufferItem 0 rec])"

text \<open>A \<open>for\<close> loop of \<open>assert_ok!\<close>: \<open>None\<close> is the panic of a failed assertion.\<close>

fun assert_records ::
  "(u64, u64, u8 list, u64 option, unit) datalog_trait \<Rightarrow> u64 \<Rightarrow> u8 list list
   \<Rightarrow> (u64, u64, u8 list) datalog_state \<Rightarrow> (u64, u64, u8 list) datalog_state option" where
  "assert_records T sender [] s = Some s"
| "assert_records T sender (rec # recs) s =
     (case record_call T (Some sender) rec s of
        (Ok _, s') \<Rightarrow> assert_records T sender recs s'
      | (Err _, s') \<Rightarrow> None)"

definition test_recycle_data :: "(u8 list \<Rightarrow> usize) \<Rightarrow> bool" where
  "test_recycle_data hint \<longleftrightarrow>
     (let T = test_runtime hint;
          record_of = (\<lambda>i. to_be_bytes (of_nat i))
      in case assert_records T 1 (map record_of [0..<20 + 10]) new_test_ext of
           None \<Rightarrow> False
         | Some s \<Rightarrow>
             datalog_data T 1 s = Some (map (\<lambda>i. RingBufferItem 0 (record_of i)) [11..<20 + 10])
             \<and> datalogidx_get 1 s = \<lparr>idx_start = 11, idx_end = 10\<rparr>)"

definition test_erase_data :: "(u8 list \<Rightarrow> usize) \<Rightarrow> bool" where
  "test_erase_data hint \<longleftrightarrow>
     (let T = test_runtime hint;
          rec = bytes_of ''datalog'';
          (res, s) = record_call T (Some 1) rec new_test_ext
      in res = Ok () \<and> datalog_get 1 s = [] \<and> datalog_data T 1 s = Some [RingBufferItem 0 rec]
         \<and> datalogidx_get 1 s = \<lparr>idx_start = 0, idx_end = 1\<rparr>
         \<and> (case erase_call T (Some 1) s of
              Some (Ok _, s) \<Rightarrow>
                datalog_data T 1 s = Some [] \<and> datalogidx_get 1 s = \<lparr>idx_start = 0, idx_end = 0\<rparr>
            | _ \<Rightarrow> False))"

definition test_bad_origin :: "(u8 list \<Rightarrow> usize) \<Rightarrow> bool" where
  "test_bad_origin hint \<longleftrightarrow>
     fst (record_call (test_runtime hint) None [] new_test_ext) = Err (Origin_error ())"

definition test_big_record :: "(u8 list \<Rightarrow> usize) \<Rightarrow> bool" where
  "test_big_record hint \<longleftrightarrow>
     fst (record_call (test_runtime hint) None (replicate 600 0) new_test_ext) = Err RecordTooBig"

definition test_store_ipfs_hashes :: "(u8 list \<Rightarrow> usize) \<Rightarrow> (string \<Rightarrow> u8 list option) \<Rightarrow> bool" where
  "test_store_ipfs_hashes hint from_base58 \<longleftrightarrow>
     (case (from_base58 ''QmWboFP8XeBtFMbNYK3Ne8Z3gKFBSR5iQzkKgeNgQz3dz4'',
            from_base58 ''zdj7WWYAEceQ6ncfPZeRFjozov4dC7FaxU7SuMwzW4VuYBDta'',
            from_base58 ''QmWboFP8XeBtFMbNYK3Ne8Z3gKFBSR5iQzkKgeNgQz3dz2'') of
        (Some rec, Some rec2, Some rec3) \<Rightarrow>
          (let T = test_runtime hint;
               (res, s) = record_call T (Some 1) rec new_test_ext;
               (res2, s2) = record_call T (Some 1) rec2 (s\<lparr>st_clock := 100\<rparr>);
               (res3, s3) = record_call T (Some 1) rec3 (s2\<lparr>st_clock := 200\<rparr>)
           in res = Ok () \<and> datalog_data T 1 s = Some [RingBufferItem 0 rec]
              \<and> res2 = Ok () \<and> datalog_data T 1 s2 = Some [RingBufferItem 0 rec, RingBufferItem 100 rec2]
              \<and> res3 = Ok () \<and> datalog_data T 1 s3
                  = Some [RingBufferItem 0 rec, RingBufferItem 100 rec2, RingBufferItem 200 rec3])
      | _ \<Rightarrow> False)"

section \<open>What the tests rely on\<close>

text \<open>
  Documented behaviour: the size hint of a byte vector is its length and at most five bytes
  for the length's own encoding, and base58 decodes these constants to at most their length.
\<close>

definition hint_documented :: "(u8 list \<Rightarrow> usize) \<Rightarrow> bool" where
  "hint_documented hint \<longleftrightarrow> (\<forall>r. length r < 2 ^ 32 \<longrightarrow> length r \<le> unat (hint r) \<and> unat (hint r) \<le> length r + 5)"

definition base58_documented :: "(string \<Rightarrow> u8 list option) \<Rightarrow> bool" where
  "base58_documented from_base58 \<longleftrightarrow>
     (\<forall>s\<in>{''QmWboFP8XeBtFMbNYK3Ne8Z3gKFBSR5iQzkKgeNgQz3dz4'', ''zdj7WWYAEceQ6ncfPZeRFjozov4dC7FaxU7SuMwzW4VuYBDta'',
            ''QmWboFP8XeBtFMbNYK3Ne8Z3gKFBSR5iQzkKgeNgQz3dz2''}.
        \<exists>bytes. from_base58 s = Some bytes \<and> length bytes \<le> length s)"

lemma hint_small:
  assumes "hint_documented hint" "length r \<le> 100"
  shows "hint r \<le> maximum_message_size (test_runtime hint)"
proof -
  have "unat (hint r) \<le> length r + 5"
    using assms by (auto simp: hint_documented_def)
  with assms(2) show ?thesis
    by (simp add: test_runtime_def word_le_nat_alt)
qed

lemma test_runtime_simps [simp]:
  "ensure_signed (test_runtime hint) (Some a) = Ok a"
  "ensure_signed (test_runtime hint) None = Err ()"
  "size_hint (test_runtime hint) = hint"
  "window_size (test_runtime hint) = 20"
  "log_cap (test_runtime hint) = 19"
  by (simp_all add: test_runtime_def log_cap_def ring_cap_def ring_mod_def)

text \<open>A record of the tests succeeds, in its closed form.\<close>

lemma test_record:
  assumes "hint_documented hint" "length r \<le> 100"
  shows "record_call (test_runtime hint) (Some a) r s = (Ok (), after_record (test_runtime hint) a r s)"
  using record_call_ok [of "test_runtime hint" r "Some a" a] hint_small [OF assms] by simp

text \<open>What \<open>data\<close> returns after it: the log with the record appended, below the capacity.\<close>

lemma test_data_after_record:
  assumes "datalog_wf (test_runtime hint) s"
  shows "datalog_data (test_runtime hint) a (after_record (test_runtime hint) a r s)
    = Some (last_n 19 (account_log (test_runtime hint) s a @ [RingBufferItem (st_clock s) r]))"
  using after_record_wf [OF assms]
  by (simp add: datalog_data_wf datalog_wf_def account_log_after_record [OF assms])

lemma assert_records_ok:
  assumes "hint_documented hint" "\<forall>r\<in>set recs. length r \<le> 100"
  shows "assert_records (test_runtime hint) a recs s = Some (fold (after_record (test_runtime hint) a) recs s)"
  using assms(2) by (induction recs arbitrary: s) (simp_all add: test_record [OF assms(1)])

text \<open>The log after a run of records: the newest ones, all at the clock's moment.\<close>

lemma account_log_records:
  assumes "datalog_wf T s"
  shows "account_log T (fold (after_record T a) recs s) a
      = last_n (log_cap T) (account_log T s a @ map (RingBufferItem (st_clock s)) recs)
    \<and> st_clock (fold (after_record T a) recs s) = st_clock s"
  using assms
proof (induction recs arbitrary: s)
  case Nil
  then show ?case
    by (simp add: last_n_short length_account_log_le)
next
  case (Cons r recs)
  then show ?case
    by (simp add: after_record_wf account_log_after_record last_n_append_last_n flip: append_Cons)
      (simp add: last_n_append_last_n)
qed

end
