(* ===== verification/Datalog_Isolation.thy ===== *)
theory Datalog_Isolation
  imports Datalog_Storage
begin

text \<open>
  Isolation of accounts in the datalog pallet: what an account can observe depends on the
  clock and on its own calls alone. The contract is the locale \<open>separation\<close>, in which any
  sequence of actions looks to a domain like the sequence of its own; it is interpreted on
  the pallet's calls, whose domains are the accounts.
\<close>

section \<open>Separation\<close>

text \<open>
  \<open>alike d\<close> relates the states a domain cannot tell apart. Its own actions keep them alike,
  and an action of another domain leads to a state alike the one before.
\<close>

locale separation =
  fixes inv :: "'s \<Rightarrow> bool"
    and alike :: "'d \<Rightarrow> 's \<Rightarrow> 's \<Rightarrow> bool"
    and act :: "'c \<Rightarrow> 's \<Rightarrow> 's option"
    and run :: "'c list \<Rightarrow> 's \<Rightarrow> 's option"
    and concerns :: "'d \<Rightarrow> 'c \<Rightarrow> bool"
  assumes run_Nil: "run [] s = Some s"
    and run_Cons: "run (c # cs) s = Option.bind (act c s) (run cs)"
    and act_returns: "inv s \<Longrightarrow> \<exists>s'. act c s = Some s' \<and> inv s'"
    and alike_refl: "alike d s s"
    and alike_trans: "alike d s s' \<Longrightarrow> alike d s' s'' \<Longrightarrow> alike d s s''"
    and own_consistent:
      "inv s \<Longrightarrow> inv t \<Longrightarrow> alike d s t \<Longrightarrow> concerns d c \<Longrightarrow> act c s = Some s' \<Longrightarrow> act c t = Some t' \<Longrightarrow> alike d s' t'"
    and other_respects: "inv s \<Longrightarrow> \<not> concerns d c \<Longrightarrow> act c s = Some s' \<Longrightarrow> alike d s' s"
begin

lemma unwinding:
  assumes "inv s" "inv t" "alike d s t"
  shows "\<exists>s' t'. run cs s = Some s' \<and> run (filter (concerns d) cs) t = Some t' \<and> alike d s' t'"
  using assms
proof (induction cs arbitrary: s t)
  case Nil
  then show ?case by (simp add: run_Nil)
next
  case (Cons c cs)
  obtain s' where s': "act c s = Some s'" "inv s'"
    using act_returns [OF Cons.prems(1)] by blast
  show ?case
  proof (cases "concerns d c")
    case True
    obtain t' where t': "act c t = Some t'" "inv t'"
      using act_returns [OF Cons.prems(2)] by blast
    have "alike d s' t'"
      using own_consistent [OF Cons.prems True s'(1) t'(1)] .
    from Cons.IH [OF s'(2) t'(2) this] show ?thesis
      using True s'(1) t'(1) by (simp add: run_Cons)
  next
    case False
    have "alike d s' t"
      using other_respects [OF Cons.prems(1) False s'(1)] Cons.prems(3) by (rule alike_trans)
    from Cons.IH [OF s'(2) Cons.prems(2) this] show ?thesis
      using False s'(1) by (simp add: run_Cons)
  qed
qed

end

section \<open>The view of an account\<close>

fun event_account :: "('a, 'm, 'r) datalog_event \<Rightarrow> 'a" where
  "event_account (NewRecord a now rec) = a"
| "event_account (Erased a) = a"
| "event_account (RecordSent a) = a"

text \<open>All storage under the account's keys, the events that name it, and the clock.\<close>

definition account_events :: "'a \<Rightarrow> ('a, 'm, 'r) datalog_state \<Rightarrow> ('a, 'm, 'r) datalog_event list" where
  "account_events a s = filter (\<lambda>e. event_account e = a) (st_events s)"

definition same_view :: "'a \<Rightarrow> ('a, 'm, 'r) datalog_state \<Rightarrow> ('a, 'm, 'r) datalog_state \<Rightarrow> bool" where
  "same_view a s t \<longleftrightarrow>
     st_datalog s a = st_datalog t a \<and> st_index s a = st_index t a
     \<and> (\<forall>u. st_item s (a, u) = st_item t (a, u))
     \<and> account_events a s = account_events a t \<and> st_clock s = st_clock t"

text \<open>The calls an account makes, and the clock's.\<close>

fun call_concerns :: "('a, 'm, 'r, 'o, 'e) datalog_trait \<Rightarrow> 'a \<Rightarrow> ('m, 'r, 'o) datalog_call \<Rightarrow> bool" where
  "call_concerns T a (Set_time t) \<longleftrightarrow> True"
| "call_concerns T a (Call_record origin rec) \<longleftrightarrow> ensure_signed T origin = Ok a"
| "call_concerns T a (Call_erase origin) \<longleftrightarrow> ensure_signed T origin = Ok a"

lemma same_view_live: "same_view a s t \<Longrightarrow> live_slots T s a = live_slots T t a"
  by (simp add: same_view_def live_slots_def datalogidx_get_def)

lemma same_view_data: "same_view a s t \<Longrightarrow> datalog_data T a s = datalog_data T a t"
  by (simp add: same_view_def datalog_data_def datalogidx_get_def datalogitem_get_def)

lemma same_view_record: "same_view a s t \<Longrightarrow> same_view a (after_record T a rec s) (after_record T a rec t)"
  by (simp add: same_view_def after_record_def datalogidx_get_def account_events_def)

lemma same_view_erase: "same_view a s t \<Longrightarrow> same_view a (after_erase us a s) (after_erase us a t)"
  by (simp add: same_view_def after_erase_def account_events_def)

lemma other_record: "a \<noteq> b \<Longrightarrow> same_view a (after_record T b rec s) s"
  by (simp add: same_view_def after_record_def account_events_def)

lemma other_erase: "a \<noteq> b \<Longrightarrow> same_view a (after_erase us b s) s"
  by (simp add: same_view_def after_erase_def account_events_def)

text \<open>What a call does, by its outcome: refused, or the signer's record or erasure.\<close>

lemma run_call_outcome [consumes 2, case_names time refused recorded erased]:
  assumes "datalog_wf T s" "run_call T c s = Some s'"
  obtains t where "c = Set_time t" "s' = s\<lparr>st_clock := t\<rparr>"
  | "s' = s" "\<And>t. datalog_wf T t \<Longrightarrow> run_call T c t = Some t"
  | origin rec a where "c = Call_record origin rec" "ensure_signed T origin = Ok a"
      "\<And>t. run_call T c t = Some (after_record T a rec t)"
  | origin a where "c = Call_erase origin" "ensure_signed T origin = Ok a"
      "\<And>t. datalog_wf T t \<Longrightarrow> run_call T c t = Some (after_erase (live_slots T t a) a t)"
proof (cases c)
  case (Set_time t)
  with assms(2) that(1) show ?thesis by simp
next
  case (Call_record origin rec)
  show ?thesis
  proof (cases "size_hint T rec \<le> maximum_message_size T")
    case False
    with Call_record assms(2) that(2) show ?thesis
      by (simp add: record_call_too_big)
  next
    case size: True
    show ?thesis
    proof (cases "ensure_signed T origin")
      case (Ok a)
      with size Call_record that(3) show ?thesis
        by (simp add: record_call_ok)
    next
      case (Err e)
      with size Call_record assms(2) that(2) show ?thesis
        by (simp add: record_call_bad_origin)
    qed
  qed
next
  case (Call_erase origin)
  show ?thesis
  proof (cases "ensure_signed T origin")
    case (Ok a)
    with Call_erase that(4) show ?thesis
      by (simp add: erase_call_ok datalog_wf_def)
  next
    case (Err e)
    with Call_erase assms(2) that(2) show ?thesis
      by (simp add: erase_call_bad_origin)
  qed
qed

interpretation accounts: separation "datalog_wf T" same_view "run_call T" "run_calls T" "call_concerns T"
  for T :: "('a, 'm, 'r, 'o, 'e) datalog_trait"
proof unfold_locales
  fix s t s' t' s'' :: "('a, 'm, 'r) datalog_state" and a and c :: "('m, 'r, 'o) datalog_call"
  show "run_calls T [] s = Some s" "run_calls T (c # cs) s = Option.bind (run_call T c s) (run_calls T cs)" for cs
    by simp_all
  show "same_view a s s"
    by (simp add: same_view_def)
  show "same_view a s s''" if "same_view a s s'" "same_view a s' s''"
    using that by (simp add: same_view_def)
  show "\<exists>s'. run_call T c s = Some s' \<and> datalog_wf T s'" if "datalog_wf T s"
    using run_call_refines [OF that, of c] by blast
  show "same_view a s' t'"
    if "datalog_wf T s" "datalog_wf T t" "same_view a s t" "call_concerns T a c"
      "run_call T c s = Some s'" "run_call T c t = Some t'"
    using that(1,5)
  proof (cases rule: run_call_outcome)
    case (time u)
    with that show ?thesis by (auto simp: same_view_def account_events_def)
  next
    case refused
    with that show ?thesis by auto
  next
    case (recorded origin rec b)
    with that show ?thesis by (auto intro: same_view_record)
  next
    case (erased origin b)
    then have "b = a"
      using that(4) by simp
    moreover have "s' = after_erase (live_slots T s b) b s" "t' = after_erase (live_slots T t b) b t"
      using erased(3) [OF that(1)] erased(3) [OF that(2)] that(5,6) by (metis option.inject)+
    ultimately show ?thesis
      using same_view_live [OF that(3), of T] same_view_erase [OF that(3)] by simp
  qed
  show "same_view a s' s" if "datalog_wf T s" "\<not> call_concerns T a c" "run_call T c s = Some s'"
    using that(1,3)
  proof (cases rule: run_call_outcome)
    case (time u)
    with that show ?thesis by simp
  next
    case refused
    then show ?thesis by (simp add: same_view_def)
  next
    case (recorded origin rec b)
    with that show ?thesis by (auto intro: other_record)
  next
    case (erased origin b)
    then have "a \<noteq> b"
      using that(2) by auto
    moreover have "s' = after_erase (live_slots T s b) b s"
      using erased(3) [OF that(1)] that(3) by (metis option.inject)
    ultimately show ?thesis
      by (simp add: other_erase)
  qed
qed

text \<open>What an account sees of a run is what it sees of a run of its own calls and the ticks.\<close>

lemma own_calls_suffice:
  assumes "datalog_wf T s"
  shows "\<exists>s' t'. run_calls T cs s = Some s' \<and> run_calls T (filter (call_concerns T a) cs) s = Some t'
    \<and> same_view a s' t'"
  using accounts.unwinding [OF assms assms accounts.alike_refl] .

end
