(* ===== verification/Datalog_History.thy ===== *)
theory Datalog_History
  imports Datalog_Isolation
begin

text \<open>
  What storage holds of an account that has not erased its datalog, in terms of its records in
  order: the \<open>k\<close>-th record went to slot \<open>k\<close> modulo the number of slots, so storage holds the
  newest records, one per slot, and the live slots are those of the newest but one slot.
\<close>

section \<open>The slots of a history\<close>

definition history_inv ::
  "('a, 'm, 'r, 'o, 'e) datalog_trait \<Rightarrow> 'a \<Rightarrow> ('m, 'r) ring_item list \<Rightarrow> ('a, 'm, 'r) datalog_state \<Rightarrow> bool" where
  "history_inv T a h s \<longleftrightarrow>
     idx_end (datalogidx_get a s) = ring_slot (window_size T) (length h)
     \<and> live_slots T s a = map (ring_slot (window_size T)) [length h - log_cap T..<length h]
     \<and> (\<forall>u item. st_item s (a, u) = Some item \<longleftrightarrow>
          (\<exists>k<length h. length h \<le> k + ring_mod (window_size T)
             \<and> u = ring_slot (window_size T) k \<and> item = h ! k))"

lemma history_start: "history_inv T a [] (datalog_start old t)"
proof -
  have "idx_end ring_default = ring_slot (window_size T) 0"
    by (simp add: ring_default_def ring_slot_def)
  then show ?thesis
    by (simp add: history_inv_def live_slots_def ring_slots_default)
qed

lemma history_clock: "history_inv T a h (s\<lparr>st_clock := t\<rparr>) = history_inv T a h s"
  by (simp add: history_inv_def live_slots_clock, simp add: datalogidx_get_def)

lemma history_other:
  assumes "a \<noteq> b"
  shows "history_inv T a h (after_record T b rec s) = history_inv T a h s"
    "history_inv T a h (after_erase us b s) = history_inv T a h s"
  using assms by (simp_all add: history_inv_def live_slots_def datalogidx_get_def after_record_def after_erase_def)

text \<open>Slots of records less than a turn of the ring apart differ.\<close>

lemma ring_slot_eq:
  assumes "k < n" "n < k + ring_mod win"
  shows "ring_slot win k \<noteq> ring_slot win n"
proof
  assume "ring_slot win k = ring_slot win n"
  then have "ring_slot win (k + 0) = ring_slot win (k + (n - k))"
    using assms(1) by simp
  then have "0 = n - k"
    by (rule ring_slot_inj) (use assms in auto)
  with assms(1) show False by simp
qed

lemma last_n_slots: "last_n c (map f [n - c..<n] @ [f n]) = map f [Suc n - c..<Suc n]"
proof -
  have "map f [n - c..<n] @ [f n] = map f [n - c..<Suc n]"
    by simp
  moreover have "n - c + (Suc n - (n - c) - c) = Suc n - c"
    by simp
  ultimately show ?thesis
    by (simp add: last_n_def drop_map drop_upt del: upt_Suc)
qed

lemma history_record:
  assumes wf: "datalog_wf T s" and inv: "history_inv T a h s"
  shows "history_inv T a (h @ [RingBufferItem (st_clock s) rec]) (after_record T a rec s)"
proof -
  let ?win = "window_size T" and ?n = "length h" and ?item = "RingBufferItem (st_clock s) rec"
  let ?s = "after_record T a rec s"
  note invs = inv [unfolded history_inv_def]
  have "idx_end (datalogidx_get a ?s) = ring_slot ?win (Suc ?n)"
    using invs by (simp add: idx_end_after_record ring_next_slot)
  moreover have "live_slots T ?s a = map (ring_slot ?win) [Suc ?n - log_cap T..<Suc ?n]"
    using invs last_n_slots [of "log_cap T" "ring_slot ?win" ?n] by (simp add: live_slots_after_record [OF wf])
  moreover have "st_item ?s (a, u) = Some item \<longleftrightarrow>
      (\<exists>k<Suc ?n. Suc ?n \<le> k + ring_mod ?win \<and> u = ring_slot ?win k \<and> item = (h @ [?item]) ! k)" for u item
  proof (cases "u = ring_slot ?win ?n")
    case True
    have "ring_slot ?win ?n \<noteq> ring_slot ?win k" if "k < ?n" "Suc ?n \<le> k + ring_mod ?win" for k
      using that ring_slot_eq [of k ?n ?win] by simp
    then have "(\<exists>k<Suc ?n. Suc ?n \<le> k + ring_mod ?win \<and> u = ring_slot ?win k \<and> item = (h @ [?item]) ! k)
        \<longleftrightarrow> item = ?item"
      using True ring_mod_pos [of ?win] by (auto simp: less_Suc_eq)
    moreover have "st_item ?s (a, u) = Some ?item"
      using True invs by (simp add: after_record_def)
    ultimately show ?thesis
      by auto
  next
    case False
    have "st_item ?s (a, u) = st_item s (a, u)"
      using False invs by (simp add: after_record_def)
    also have "(st_item s (a, u) = Some item) \<longleftrightarrow>
        (\<exists>k<?n. ?n \<le> k + ring_mod ?win \<and> u = ring_slot ?win k \<and> item = h ! k)"
      using invs by simp
    also have "\<dots> \<longleftrightarrow> (\<exists>k<Suc ?n. Suc ?n \<le> k + ring_mod ?win \<and> u = ring_slot ?win k \<and> item = (h @ [?item]) ! k)"
    proof
      assume "\<exists>k<?n. ?n \<le> k + ring_mod ?win \<and> u = ring_slot ?win k \<and> item = h ! k"
      then obtain k where k: "k < ?n" "?n \<le> k + ring_mod ?win" "u = ring_slot ?win k" "item = h ! k"
        by blast
      have "?n \<noteq> k + ring_mod ?win"
        using False k(3) by (auto simp: ring_slot_def)
      with k show "\<exists>k<Suc ?n. Suc ?n \<le> k + ring_mod ?win \<and> u = ring_slot ?win k \<and> item = (h @ [?item]) ! k"
        by (intro exI [of _ k]) (simp add: nth_append)
    next
      assume "\<exists>k<Suc ?n. Suc ?n \<le> k + ring_mod ?win \<and> u = ring_slot ?win k \<and> item = (h @ [?item]) ! k"
      with False show "\<exists>k<?n. ?n \<le> k + ring_mod ?win \<and> u = ring_slot ?win k \<and> item = h ! k"
        by (auto simp: less_Suc_eq nth_append split: if_splits)
    qed
    finally show ?thesis .
  qed
  ultimately show ?thesis
    by (simp add: history_inv_def)
qed

section \<open>Runs without an erasure\<close>

lemma history_call:
  assumes wf: "datalog_wf T s" and inv: "history_inv T a h s" and run: "run_call T c s = Some s'"
    and kept: "Clear a \<notin> set (calls_ops T (st_clock s) [c])"
  shows "history_inv T a (h @ since_clear a (calls_ops T (st_clock s) [c])) s'"
proof (cases c)
  case (Set_time t)
  with run inv show ?thesis
    by (auto simp: history_clock)
next
  case (Call_record origin rec)
  show ?thesis
  proof (cases "size_hint T rec \<le> maximum_message_size T")
    case False
    with Call_record run inv show ?thesis
      by (auto simp: record_call_too_big split: result.split)
  next
    case True
    with Call_record run inv history_record [OF wf inv, of rec] show ?thesis
      by (cases "ensure_signed T origin") (auto simp: record_call_ok record_call_bad_origin history_other)
  qed
next
  case (Call_erase origin)
  with wf run inv kept show ?thesis
    by (cases "ensure_signed T origin") (auto simp: erase_call_ok erase_call_bad_origin datalog_wf_def history_other)
qed

lemma since_clear_append:
  "Clear a \<notin> set ops' \<Longrightarrow> since_clear a (ops @ ops') = since_clear a ops @ since_clear a ops'"
  by (induction a ops rule: since_clear.induct) auto

text \<open>Any calls, of which none erases the account's datalog, extend its history by its records.\<close>

lemma run_history:
  assumes "datalog_wf T s" "history_inv T a h s" "Clear a \<notin> set (calls_ops T (st_clock s) cs)"
  shows "\<exists>s'. run_calls T cs s = Some s' \<and> datalog_wf T s'
    \<and> history_inv T a (h @ since_clear a (calls_ops T (st_clock s) cs)) s'"
  using assms
proof (induction cs arbitrary: s h)
  case Nil
  then show ?case by simp
next
  case (Cons c cs)
  obtain s' where s': "run_call T c s = Some s'" "datalog_wf T s'"
    "calls_ops T (st_clock s) (c # cs) = calls_ops T (st_clock s) [c] @ calls_ops T (st_clock s') cs"
    using run_call_refines [OF Cons.prems(1), of c] by metis
  then have later: "Clear a \<notin> set (calls_ops T (st_clock s') cs)" "Clear a \<notin> set (calls_ops T (st_clock s) [c])"
    using Cons.prems(3) by auto
  have "history_inv T a (h @ since_clear a (calls_ops T (st_clock s) [c])) s'"
    using history_call [OF Cons.prems(1,2) s'(1) later(2)] .
  moreover have "since_clear a (calls_ops T (st_clock s) [c] @ calls_ops T (st_clock s') cs)
      = since_clear a (calls_ops T (st_clock s) [c]) @ since_clear a (calls_ops T (st_clock s') cs)"
    using later(1) by (rule since_clear_append)
  ultimately show ?case
    using Cons.IH [OF s'(2) _ later(1)] s' by fastforce
qed

text \<open>From a first state, the history is that of the account's records.\<close>

lemma run_history_start:
  assumes "Clear a \<notin> set (calls_ops T t cs)"
  obtains s where "run_calls T cs (datalog_start old t) = Some s" "datalog_wf T s"
    "history_inv T a (since_clear a (calls_ops T t cs)) s"
  using run_history [OF datalog_wf_start history_start, of a T old t cs] assms by auto

text \<open>
  An erasure leaves the item of the slot that is not live, if the ring has been filled: the
  oldest of the records whose slots have not been written again.
\<close>

lemma history_dead_slot:
  assumes inv: "history_inv T a h s"
  shows "stored_slots s a - set (live_slots T s a) =
    (if ring_mod (window_size T) \<le> length h then {ring_slot (window_size T) (length h)} else {})"
    (is "?L = ?R")
proof -
  let ?win = "window_size T" and ?n = "length h"
  have cap: "ring_mod ?win = Suc (log_cap T)"
    using ring_mod_pos [of ?win] by (simp add: log_cap_def ring_cap_def)
  have stored: "stored_slots s a = {ring_slot ?win k | k. k < ?n \<and> ?n \<le> k + ring_mod ?win}"
    using inv by (auto simp: history_inv_def stored_slots_def)
  have "set [?n - log_cap T..<?n] = {k. k < ?n \<and> ?n \<le> k + log_cap T}"
    by auto
  then have live: "set (live_slots T s a) = {ring_slot ?win k | k. k < ?n \<and> ?n \<le> k + log_cap T}"
    using inv by (auto simp: history_inv_def)
  have wrap: "ring_slot ?win ?n = ring_slot ?win (?n - ring_mod ?win)" if "ring_mod ?win \<le> ?n"
    using that by (simp add: ring_slot_def le_mod_geq)
  show ?thesis
  proof
    show "?L \<subseteq> ?R"
    proof
      fix u assume "u \<in> ?L"
      then obtain k where k: "u = ring_slot ?win k" "k < ?n" "?n \<le> k + ring_mod ?win" "\<not> ?n \<le> k + log_cap T"
        by (auto simp: stored live)
      then have "ring_mod ?win \<le> ?n" "k = ?n - ring_mod ?win"
        by (simp_all add: cap)
      with k(1) wrap show "u \<in> ?R" by simp
    qed
    show "?R \<subseteq> ?L"
    proof (cases "ring_mod ?win \<le> ?n")
      case True
      then have "?n - ring_mod ?win < ?n"
        using ring_mod_pos [of ?win] by simp
      then have "ring_slot ?win ?n \<in> stored_slots s a"
        using True wrap by (auto simp: stored intro!: exI [of _ "?n - ring_mod ?win"])
      moreover have "ring_slot ?win ?n \<notin> set (live_slots T s a)"
        using ring_slot_eq [of _ ?n ?win] by (fastforce simp: live cap)
      ultimately show ?thesis
        using True by simp
    qed simp
  qed
qed

lemma history_dead_item:
  assumes "history_inv T a h s" "ring_mod (window_size T) \<le> length h"
  shows "st_item s (a, ring_slot (window_size T) (length h)) = Some (h ! (length h - ring_mod (window_size T)))"
proof -
  let ?n = "length h" and ?M = "ring_mod (window_size T)"
  have "?n - ?M < ?n" "?n \<le> ?n - ?M + ?M" "ring_slot (window_size T) ?n = ring_slot (window_size T) (?n - ?M)"
    using assms(2) ring_mod_pos [of "window_size T"] by (simp_all add: ring_slot_def le_mod_geq)
  with assms(1) show ?thesis
    unfolding history_inv_def by blast
qed

text \<open>The items an erasure leaves to an account with a history.\<close>

lemma erased_history:
  assumes "history_inv T a h s"
  shows "st_item (after_erase (live_slots T s a) a s) (a, u) = Some item \<longleftrightarrow>
    ring_mod (window_size T) \<le> length h \<and> u = ring_slot (window_size T) (length h)
    \<and> item = h ! (length h - ring_mod (window_size T))"
proof -
  have "st_item (after_erase (live_slots T s a) a s) (a, u) = Some item \<longleftrightarrow>
      u \<in> stored_slots s a - set (live_slots T s a) \<and> st_item s (a, u) = Some item"
    by (auto simp: after_erase_def stored_slots_def)
  then show ?thesis
    using history_dead_item [OF assms] by (auto simp: history_dead_slot [OF assms] split: if_splits)
qed

end
