(* ===== verification/Datalog_Theorems.thy ===== *)
theory Datalog_Theorems
  imports Datalog_Weight Datalog_Tests Datalog_History
begin

text \<open>
  The properties of the datalog pallet, over the definitions of \<open>Ring_Index\<close>,
  \<open>Datalog\<close>, \<open>Datalog_Log\<close>, \<open>Datalog_Storage\<close> and \<open>Datalog_Weight\<close>, each with its witness.
  The witnesses run on the runtime of the pallet's own tests (\<open>Datalog_Tests\<close>), whose size
  hint is fixed here.
\<close>

section \<open>The runtime of the witnesses\<close>

abbreviation demo_runtime :: "(u64, u64, u8 list, u64 option, unit) datalog_trait" where
  "demo_runtime \<equiv> test_runtime (\<lambda>r. of_nat (length r))"

abbreviation demo_genesis :: "(u64, u64, u8 list) datalog_state" where
  "demo_genesis \<equiv> datalog_genesis 7"

text \<open>A chain on which a former version of the pallet has left a value for the account 1.\<close>

abbreviation demo_upgraded :: "(u64, u64, u8 list) datalog_state" where
  "demo_upgraded \<equiv> datalog_start [1 \<mapsto> [(3, [42])]] 7"

lemma demo_reachable_genesis: "datalog_reachable demo_runtime (\<le>) demo_genesis"
  by (rule reach_genesis)

lemma demo_reachable_record:
  "datalog_reachable demo_runtime (\<le>) (snd (record_call demo_runtime (Some 1) [100] demo_genesis))"
  by (rule reach_step [OF demo_reachable_genesis], rule step_record, rule surjective_pairing)

section \<open>Refinement of the bounded log\<close>

text \<open>
  C1: From genesis, any sequence of calls to the pallet returns, and afterwards \<open>data\<close>
  returns for every account exactly the newest \<open>window - 1\<close> records the account made since
  its last \<open>erase\<close>, oldest first, each with the moment at which it was made; refused calls
  leave no trace in it.
\<close>

theorem datalog_history_refines:
  "\<exists>s'. run_calls T cs (datalog_genesis t) = Some s' \<and>
    (\<forall>a. datalog_data T a s' = Some (last_n (log_cap T) (since_clear a (calls_ops T t cs))))"
proof -
  obtain s' where s': "run_calls T cs (datalog_genesis t) = Some s'" "datalog_wf T s'"
    "account_log T s' = spec_run (log_cap T) (calls_ops T t cs) (\<lambda>_. [])"
    using run_calls_refines [OF datalog_wf_genesis [of T t], of cs]
    by (auto simp: account_log_genesis)
  then have "datalog_data T a s' = Some (last_n (log_cap T) (since_clear a (calls_ops T t cs)))" for a
    using spec_run_since_clear [of "\<lambda>_. []" a "log_cap T"]
    by (simp add: datalog_data_wf datalog_wf_def)
  with s'(1) show ?thesis by blast
qed

section \<open>The calls\<close>

text \<open>
  C2: In a reachable state, which may still hold values of the old storage format, \<open>record\<close>
  with a signed origin and a record within the size limit succeeds; \<open>data\<close> then returns the
  signer's log with the new record, stamped with the current moment, at the end, and without
  its oldest entry when the log was full. It deposits exactly the event \<open>NewRecord\<close>, and it
  removes the signer's value of the old format, whatever that was, and no other account's.
\<close>

theorem record_appends:
  assumes "datalog_reachable T tick s"
    and "size_hint T rec \<le> maximum_message_size T" and "ensure_signed T origin = Ok a"
  shows "\<exists>s' log. record_call T origin rec s = (Ok (), s')
    \<and> datalog_data T a s = Some log
    \<and> datalog_data T a s' = Some (last_n (log_cap T) (log @ [RingBufferItem (st_clock s) rec]))
    \<and> st_events s' = st_events s @ [NewRecord a (st_clock s) rec]
    \<and> st_datalog s' = (st_datalog s)(a := None)"
proof -
  have wf: "datalog_wf T s"
    using assms(1) by (rule datalog_reachable_wf)
  then have "datalog_wf T (after_record T a rec s)"
    by (rule after_record_wf)
  with wf show ?thesis
    by (intro exI [of _ "after_record T a rec s"] exI [of _ "account_log T s a"])
      (simp add: record_call_ok assms(2,3) datalog_data_wf datalog_wf_def [THEN iffD1]
        account_log_after_record, simp add: after_record_def)
qed

theorem record_appends_witness:
  "st_datalog demo_upgraded 1 = Some [(3, [42])] \<and>
   (\<exists>s' log. record_call demo_runtime (Some 1) [100, 101] demo_upgraded = (Ok (), s')
    \<and> datalog_data demo_runtime 1 demo_upgraded = Some log
    \<and> datalog_data demo_runtime 1 s' = Some (last_n (log_cap demo_runtime) (log @ [RingBufferItem 7 [100, 101]]))
    \<and> st_events s' = [NewRecord 1 7 [100, 101]]
    \<and> st_datalog s' 1 = None)"
  using record_appends [OF reach_start [of demo_runtime "(\<le>)" "[1 \<mapsto> [(3, [42])]]" 7], of "[100, 101]" "Some 1" 1]
  by (force simp: test_runtime_def)

text \<open>
  C3: \<open>record\<close> fails exactly when the record is oversized, with \<open>RecordTooBig\<close> whatever
  the origin, or when the origin is not signed, with the origin's error; \<open>erase\<close> fails
  exactly for an origin that is not signed. A failing call leaves the state, the events and
  the access counts as they were.
\<close>

theorem calls_refused:
  "(record_call T origin rec s = (Err e, s') \<longleftrightarrow>
      s' = s \<and> (if maximum_message_size T < size_hint T rec then e = RecordTooBig
                 else \<exists>e'. ensure_signed T origin = Err e' \<and> e = Origin_error e'))
   \<and> (erase_call T origin s = Some (Err e, s') \<longleftrightarrow>
      s' = s \<and> (\<exists>e'. ensure_signed T origin = Err e' \<and> e = Origin_error e'))"
proof
  show "record_call T origin rec s = (Err e, s') \<longleftrightarrow>
      s' = s \<and> (if maximum_message_size T < size_hint T rec then e = RecordTooBig
                 else \<exists>e'. ensure_signed T origin = Err e' \<and> e = Origin_error e')"
    by (cases "ensure_signed T origin")
      (auto simp: record_call_too_big record_call_bad_origin record_call_ok not_less)
  show "erase_call T origin s = Some (Err e, s') \<longleftrightarrow>
      s' = s \<and> (\<exists>e'. ensure_signed T origin = Err e' \<and> e = Origin_error e')"
  proof (cases "ensure_signed T origin")
    case (Ok a)
    then show ?thesis
      by (auto simp: erase_call_def Let_def split: prod.splits option.splits)
  qed (auto simp: erase_call_bad_origin)
qed

text \<open>
  C4: In a reachable state, \<open>erase\<close> with a signed origin returns and succeeds; the signer's
  \<open>data\<close> is empty afterwards, the items of all live slots are gone from storage and the
  index is the default one. It deposits exactly the event \<open>Erased\<close>.
\<close>

theorem erase_clears:
  assumes "datalog_reachable T tick s" and "ensure_signed T origin = Ok a"
  shows "\<exists>s'. erase_call T origin s = Some (Ok (), s')
    \<and> datalog_data T a s' = Some []
    \<and> stored_slots s' a = stored_slots s a - set (live_slots T s a)
    \<and> datalogidx_get a s' = ring_default
    \<and> datalog_get a s' = []
    \<and> st_events s' = st_events s @ [Erased a]"
proof -
  have wf: "datalog_wf T s"
    using assms(1) by (rule datalog_reachable_wf)
  let ?s = "after_erase (live_slots T s a) a s"
  have "datalog_wf T ?s"
    using wf by (rule after_erase_wf)
  then have "datalog_data T a ?s = Some []"
    by (simp add: datalog_data_wf datalog_wf_def account_log_after_erase)
  moreover have "erase_call T origin s = Some (Ok (), ?s)"
    using wf assms(2) by (simp add: erase_call_ok datalog_wf_def)
  ultimately show ?thesis
    by (intro exI [of _ ?s]) (simp add: stored_slots_after_erase,
        simp add: after_erase_def datalogidx_get_def datalog_get_def)
qed

theorem erase_clears_witness:
  "\<exists>s'. erase_call demo_runtime (Some 1) (snd (record_call demo_runtime (Some 1) [100] demo_genesis)) = Some (Ok (), s')
    \<and> datalog_data demo_runtime 1 s' = Some []"
  using erase_clears [OF demo_reachable_record, of "Some 1" 1]
  by (auto simp: test_runtime_def)

text \<open>
  A call touches nothing of the accounts that did not sign it: in a reachable state,
  any call leaves the index, the items, the old-format value and the readable log of every
  other account unchanged.
\<close>

theorem calls_isolated:
  assumes "datalog_reachable T tick s" and "run_call T c s = Some s'"
    and "b \<notin> op_account ` set (calls_ops T (st_clock s) [c])"
  shows "datalogidx_get b s' = datalogidx_get b s \<and> datalog_get b s' = datalog_get b s
    \<and> (\<forall>u. st_item s' (b, u) = st_item s (b, u)) \<and> datalog_data T b s' = datalog_data T b s"
proof -
  have wf: "datalog_wf T s"
    using assms(1) by (rule datalog_reachable_wf)
  have "datalogidx_get b s' = datalogidx_get b s \<and> datalog_get b s' = datalog_get b s
    \<and> (\<forall>u. st_item s' (b, u) = st_item s (b, u))"
  proof (cases c)
    case (Set_time t)
    with assms(2) show ?thesis by (auto simp: after_simps)
  next
    case (Call_record origin rec)
    with assms(2,3) show ?thesis
      by (cases "size_hint T rec \<le> maximum_message_size T"; cases "ensure_signed T origin")
        (auto simp: record_call_too_big record_call_bad_origin record_call_ok after_simps)
  next
    case (Call_erase origin)
    with assms(2,3) wf show ?thesis
      by (cases "ensure_signed T origin")
        (auto simp: erase_call_bad_origin erase_call_ok datalog_wf_def after_simps)
  qed
  then show ?thesis
    by (simp add: datalog_data_def datalogitem_get_def)
qed

theorem calls_isolated_witness:
  "datalog_data demo_runtime 2 (snd (record_call demo_runtime (Some 1) [100] demo_genesis))
    = datalog_data demo_runtime 2 demo_genesis"
  using calls_isolated [OF demo_reachable_genesis, of "Call_record (Some 1) [100]" _ 2]
  by (simp add: test_runtime_def)

text \<open>
  C6: In every reachable state, \<open>data\<close> returns for every account, and so does \<open>erase\<close> for
  every origin: the loops over the ring end. The log returned has at most \<open>window - 1\<close>
  entries: a ring of \<open>window\<close> slots always keeps one free.
\<close>

theorem reachable_calls_return:
  assumes "datalog_reachable T tick s"
  shows "\<exists>log. datalog_data T a s = Some log \<and> length log \<le> log_cap T \<and> erase_call T origin s \<noteq> None"
proof -
  have wf: "datalog_wf T s"
    using assms by (rule datalog_reachable_wf)
  then have "erase_call T origin s \<noteq> None"
    by (cases "ensure_signed T origin")
      (simp_all add: erase_call_ok erase_call_bad_origin datalog_wf_def)
  with wf show ?thesis
    by (simp add: datalog_data_wf datalog_wf_def length_account_log_le)
qed

theorem reachable_calls_return_witness:
  "\<exists>log. datalog_data demo_runtime 1 demo_genesis = Some log \<and> length log \<le> 19"
  using reachable_calls_return [OF demo_reachable_genesis, of 1 "Some 1"]
  by (auto simp: log_cap_def ring_cap_def ring_mod_def test_runtime_def)

text \<open>
  C7: The storage of a reachable state is bounded and is what \<open>data\<close> reads: \<open>data\<close> returns
  the items stored in the live slots of the account, slot by slot (no default stands in for
  a missing item), at most one further item of the account is stored, outside its live slots,
  and an account holds at most \<open>window\<close> items in all, for a window other than 0.
\<close>

theorem storage_bounded:
  assumes "datalog_reachable T tick s"
  shows "\<exists>log. datalog_data T a s = Some log
    \<and> map (\<lambda>u. st_item s (a, u)) (live_slots T s a) = map Some log \<and> distinct (live_slots T s a)
    \<and> finite (stored_slots s a) \<and> card (stored_slots s a - set (live_slots T s a)) \<le> 1
    \<and> card (stored_slots s a) \<le> length log + 1
    \<and> (window_size T \<noteq> 0 \<longrightarrow> card (stored_slots s a) \<le> unat (window_size T))"
proof -
  have wf: "datalog_wf T s" and inv: "storage_inv T s"
    using reachable_storage_inv [OF assms] by simp_all
  from wf have "datalog_data T a s = Some (account_log T s a)"
    by (simp add: datalog_data_wf datalog_wf_def)
  moreover have "map (\<lambda>u. st_item s (a, u)) (live_slots T s a) = map Some (account_log T s a)"
    by (rule stored_account_log [OF inv])
  moreover have "card (stored_slots s a) \<le> ring_mod (window_size T)"
    by (rule card_stored_le [OF inv])
  moreover have "length (account_log T s a) = length (live_slots T s a)"
    by (simp add: account_log_def)
  ultimately show ?thesis
    using stored_slots_bounds [OF inv, of a]
    by (auto simp: live_slots_def ring_slots_distinct ring_mod_def)
qed

theorem storage_bounded_witness:
  "card (stored_slots (snd (record_call demo_runtime (Some 1) [100] demo_genesis)) 1) \<le> 20"
  using storage_bounded [OF demo_reachable_record, of 1]
  by (auto simp: test_runtime_def)

text \<open>
  C8: What \<open>erase\<close> leaves in storage: from a first state, after any calls among which the
  account made the records \<open>h\<close> and no erasure (other accounts' calls, refused calls and clock
  updates included), an \<open>erase\<close> by the account returns and \<open>data\<close> is empty; one item of the
  account remains in \<open>DatalogItem\<close> if \<open>h\<close> has at least as many records as the ring has slots,
  namely the oldest of its newest \<open>window\<close> records, in the slot after the live ones, and none
  otherwise.
\<close>

theorem erase_leftover:
  assumes "ensure_signed T origin = Ok a" and "Clear a \<notin> set (calls_ops T t cs)"
    and "since_clear a (calls_ops T t cs) = h"
  shows "\<exists>s'. run_calls T (cs @ [Call_erase origin]) (datalog_start old t) = Some s'
    \<and> datalog_data T a s' = Some []
    \<and> (\<forall>u item. st_item s' (a, u) = Some item \<longleftrightarrow>
         ring_mod (window_size T) \<le> length h \<and> u = ring_slot (window_size T) (length h)
         \<and> item = h ! (length h - ring_mod (window_size T)))"
proof -
  obtain s where s: "run_calls T cs (datalog_start old t) = Some s" "datalog_wf T s" "history_inv T a h s"
    using run_history_start [OF assms(2)] assms(3) by blast
  let ?s' = "after_erase (live_slots T s a) a s"
  have "run_calls T (cs @ [Call_erase origin]) (datalog_start old t) = Some ?s'"
    using s(1,2) assms(1) by (simp add: run_calls_append erase_call_ok datalog_wf_def)
  moreover have "datalog_data T a ?s' = Some []"
    using after_erase_wf [OF s(2)] by (simp add: datalog_data_wf datalog_wf_def account_log_after_erase)
  moreover have "st_item ?s' (a, u) = Some item \<longleftrightarrow>
      ring_mod (window_size T) \<le> length h \<and> u = ring_slot (window_size T) (length h)
      \<and> item = h ! (length h - ring_mod (window_size T))" for u item
    using erased_history [OF s(3)] .
  ultimately show ?thesis by blast
qed

theorem erase_leftover_witness:
  "\<exists>s'. run_calls demo_runtime (map (Call_record (Some 1)) (replicate 20 [100]) @ [Call_record (Some 2) [3]] @ [Call_erase (Some 1)]) demo_genesis = Some s'
    \<and> datalog_data demo_runtime 1 s' = Some [] \<and> st_item s' (1, 0) = Some (RingBufferItem 7 [100])"
proof -
  let ?cs = "\<lambda>n. map (Call_record (Some 1)) (replicate n [100]) @ [Call_record (Some 2) [3]]"
  have ops: "calls_ops demo_runtime 7 (?cs n) =
      replicate n (Append 1 (RingBufferItem 7 [100])) @ [Append 2 (RingBufferItem 7 [3])]" for n
    by (induction n) (simp_all add: test_runtime_def)
  have log: "since_clear (1 :: u64) (replicate n (Append 1 x) @ [Append 2 y]) = replicate n x" for n and x y :: "(u64, u8 list) ring_item"
    by (induction n) auto
  have kept: "Clear 1 \<notin> set (calls_ops demo_runtime 7 (?cs 20))"
    unfolding ops by simp
  have h: "since_clear 1 (calls_ops demo_runtime 7 (?cs 20)) = replicate 20 (RingBufferItem 7 [100])"
    unfolding ops log ..
  show ?thesis
    using erase_leftover [OF _ kept h, of "Some 1" Map.empty]
    by (auto simp: test_runtime_def ring_mod_def ring_slot_def datalog_start_empty)
qed

text \<open>
  C9: The events are a complete audit trail: in every reachable state, replaying the
  deposited \<open>NewRecord\<close> and \<open>Erased\<close> events gives, for every account, exactly what
  \<open>data\<close> returns; the declared event \<open>RecordSent\<close> is never deposited.
\<close>

theorem events_replay:
  assumes "datalog_reachable T tick s"
  shows "datalog_data T a s = Some (last_n (log_cap T) (since_clear a (events_ops (st_events s))))
    \<and> RecordSent a \<notin> set (st_events s)"
proof -
  have "audit_inv T s" "datalog_wf T s"
    using assms by (rule reachable_audit_inv, rule datalog_reachable_wf)
  then show ?thesis
    using spec_run_since_clear [of "\<lambda>_. []" a "log_cap T" "events_ops (st_events s)"]
    by (simp add: audit_inv_def datalog_data_wf datalog_wf_def)
qed

theorem events_replay_witness:
  "datalog_data demo_runtime 1 (snd (record_call demo_runtime (Some 1) [100] demo_genesis))
    = Some (last_n 19 [RingBufferItem 7 [100]])"
  using events_replay [OF demo_reachable_record, of 1]
  by (simp add: log_cap_def ring_cap_def ring_mod_def test_runtime_def record_call_ok
      after_record_def datalog_genesis_def)

text \<open>
  C10: In every reachable state, all the records in storage respect the size limit, those of
  slots that \<open>data\<close> no longer shows included. \<open>data\<close> returns a log for every account, and if
  the clock never moves back, the moments of the log are in ascending order and none is
  later than the clock.
\<close>

theorem reachable_logs_sized_ordered:
  assumes "datalog_reachable T tick s"
  shows "(\<forall>key item. st_item s key = Some item \<longrightarrow> size_hint T (item_record item) \<le> maximum_message_size T)
    \<and> (\<exists>log. datalog_data T a s = Some log
         \<and> (\<forall>item\<in>set log. size_hint T (item_record item) \<le> maximum_message_size T)
         \<and> ((\<forall>x y. tick x y \<longrightarrow> x \<le> y) \<longrightarrow>
              sorted (map item_moment log) \<and> (\<forall>item\<in>set log. item_moment item \<le> st_clock s)))"
proof (intro conjI exI)
  have inv: "datalog_wf T s" "storage_inv T s" "items_sized T s"
    using reachable_storage_inv [OF assms] reachable_items_sized [OF assms] by simp_all
  then show "\<forall>key item. st_item s key = Some item \<longrightarrow> size_hint T (item_record item) \<le> maximum_message_size T"
    "datalog_data T a s = Some (account_log T s a)"
    by (simp_all add: items_sized_def datalog_data_wf datalog_wf_def)
  show "\<forall>item\<in>set (account_log T s a). size_hint T (item_record item) \<le> maximum_message_size T"
    using inv(3) unfolding items_sized_def by (blast elim: account_log_stored [OF inv(2)])
  show "(\<forall>x y. tick x y \<longrightarrow> x \<le> y) \<longrightarrow>
      sorted (map item_moment (account_log T s a)) \<and> (\<forall>item\<in>set (account_log T s a). item_moment item \<le> st_clock s)"
    using reachable_moments_ordered [OF assms] by (auto simp: moments_ordered_def sorted_append)
qed

theorem reachable_logs_sized_ordered_witness:
  "\<exists>log. datalog_data demo_runtime 1 (snd (record_call demo_runtime (Some 1) [100] demo_genesis)) = Some log
    \<and> sorted (map item_moment log)"
  using reachable_logs_sized_ordered [OF demo_reachable_record, of 1] by auto

section \<open>The ring\<close>

text \<open>
  C11: On cursors inside the ring, \<open>RingBufferIndex::add\<close> returns a slot of the ring that
  is not live, keeps the cursors inside the ring, and makes that slot the newest live one,
  dropping the oldest live slot exactly when all but one of the slots were live.
\<close>

theorem ring_add_pushes:
  assumes "ring_wf win idx" and "ring_add win idx = (v, idx')"
  shows "ring_wf win idx' \<and> unat v < ring_mod win \<and> v \<notin> set (ring_slots win idx)
    \<and> distinct (ring_slots win idx')
    \<and> ring_slots win idx' = last_n (ring_cap win) (ring_slots win idx @ [v])"
proof -
  have "v = idx_end idx"
    using ring_add_slot [of win idx] assms(2) by simp
  then show ?thesis
    using assms ring_add_wf [of win idx] ring_add_slots [of win idx] ring_end_not_live [of win idx]
      ring_slots_distinct [of win idx']
    by (simp add: ring_wf_def)
qed

theorem ring_add_pushes_witness:
  "ring_wf 3 \<lparr>idx_start = 0, idx_end = 1\<rparr>
   \<and> ring_slots 3 \<lparr>idx_start = 0, idx_end = 1\<rparr> = last_n (ring_cap 3) (ring_slots 3 \<lparr>idx_start = 0, idx_end = 0\<rparr> @ [0])"
  using ring_add_pushes [of 3 "\<lparr>idx_start = 0, idx_end = 0\<rparr>" 0 "\<lparr>idx_start = 0, idx_end = 1\<rparr>"]
  by (simp add: ring_wf_def ring_mod_def ring_add_def ring_next_def)

text \<open>
  C12: A loop over the iterator of a \<open>RingBufferIndex\<close> ends if and only if the window is 0
  (the cursors then wrap at \<open>u64\<close>), or the end cursor is below the window, or both
  cursors are at or above the window with the start not past the end.
\<close>

theorem iterator_terminates_iff:
  "ring_for_each win f idx s \<noteq> None \<longleftrightarrow>
     win = 0 \<or> idx_end idx < win \<or> (win \<le> idx_start idx \<and> idx_start idx \<le> idx_end idx)"
  by (rule ring_for_each_returns_iff)

text \<open>
  Shrinking the window of a running chain can hang it: for an account whose log was
  left with its start below the new window and its end at or above it, neither \<open>data\<close> nor
  \<open>erase\<close> returns.
\<close>

theorem shrunk_window_hangs:
  assumes "window_size T \<noteq> 0" and "idx_start (datalogidx_get a s) < window_size T"
    and "window_size T \<le> idx_end (datalogidx_get a s)" and "ensure_signed T origin = Ok a"
  shows "datalog_data T a s = None \<and> erase_call T origin s = None"
proof -
  have "datalogidx_get a (datalog_remove a s) = datalogidx_get a s"
    by (simp add: datalog_remove_def datalogidx_get_def)
  then show ?thesis
    using assms(1-3)
    by (simp add: datalog_data_def erase_call_def datalogidx_take_def assms(4) Let_def ring_for_each_diverges)
qed

theorem shrunk_window_hangs_witness:
  "datalog_data (demo_runtime\<lparr>window_size := 1\<rparr>) 1 (snd (record_call demo_runtime (Some 1) [100] demo_genesis)) = None"
proof -
  let ?s = "snd (record_call demo_runtime (Some 1) [100] demo_genesis)"
  have "datalogidx_get 1 ?s = \<lparr>idx_start = 0, idx_end = 1\<rparr>"
    by (simp add: test_runtime_def record_call_ok after_record_def datalogidx_get_def datalog_genesis_def
        ring_default_def ring_add_def ring_next_def)
  then show ?thesis
    using shrunk_window_hangs [of "demo_runtime\<lparr>window_size := 1\<rparr>" 1 ?s "Some 1"]
    by (simp add: test_runtime_def)
qed

section \<open>The weights\<close>



end
