(* ===== verification/Runtime_Theorems.thy ===== *)
theory Runtime_Theorems
  imports Runtime_Fees Runtime_Tx Runtime_Api Primitives Datalog_Theorems
begin

text \<open>
  The properties of the runtime: its parameters and their units, the fee polynomial, the
  conversion between balances and votes, the signed transactions it creates, the instance
  of the datalog pallet and the composition of the pallets.
\<close>

section \<open>Instances for the witnesses\<close>

text \<open>A per-billion type with that behaviour: the parts, at the width of the code.\<close>

definition parts_api :: "u32 perbill_api" where
  "parts_api =
     \<lparr>from_percent = (\<lambda>x. if unat x \<le> 100 then x * 10000000 else 1000000000),
      from_rational_approximation = (\<lambda>p q. of_nat (unat p * 1000000000 div unat q)),
      deconstruct = (\<lambda>p. p),
      perbill_saturating_sub = saturating_sub,
      perbill_mul = (\<lambda>p w. of_nat (unat p * unat w div 1000000000))\<rparr>"

lemma parts_api_documented: "perbill_documented parts_api"
proof -
  have "unat (of_nat (unat (p :: u32) * unat w div 1000000000) :: u64) = unat p * unat w div 1000000000"
    if "unat p \<le> 1000000000" for p and w :: u64
  proof -
    have "unat p * unat w \<le> 1000000000 * 18446744073709551615"
      using that unat_lt_64 [of w] by (intro mult_le_mono) simp_all
    then have "unat p * unat w div 1000000000 \<le> 18446744073709551615"
      by (simp add: div_le_mono [THEN order_trans])
    then show ?thesis
      by (intro unat_of_nat_64) simp
  qed
  moreover have "unat (x * 10000000) = unat x * 10000000" if "unat x \<le> 100" for x :: u32
    using that by (subst unat_mult_exact) simp_all
  ultimately show ?thesis
    by (simp add: perbill_documented_def parts_api_def unat_saturating_sub)
qed

section \<open>Parameters\<close>

text \<open>
  \<open>deposit\<close> never overflows: for all \<open>u32\<close> numbers of items and bytes it is exactly
  15 percent of a MITO per item and 6 percent of a MITO per byte.
\<close>

theorem deposit_exact:
  "unat (deposit items bytes) = unat items * 150000000000 + unat bytes * 60000000000"
proof -
  have *: "unat (ucast x * y * MITO div 100) = unat x * unat y * 10000000000"
    if "unat y \<le> 15" for x :: u32 and y :: balance
  proof -
    have ux: "unat (ucast x :: balance) = unat x" "unat x < 4294967296"
      by (simp_all add: unat_ucast_wide unat_lt_32)
    have le: "unat x * unat y \<le> 4294967296 * 15"
      using ux(2) that by (intro mult_le_mono) simp_all
    then have "unat (ucast x * y) = unat x * unat y"
      by (subst unat_mult_exact) (simp_all add: ux)
    moreover have "unat x * unat y * 1000000000000 < 2 ^ 128"
      using le by (simp add: mult.commute)
    ultimately have "unat (ucast x * y * MITO) = unat x * unat y * 1000000000000"
      by (subst unat_mult_exact) (simp_all add: MITO_value)
    then show ?thesis
      by (simp add: unat_div)
  qed
  have "unat items * 150000000000 + unat bytes * 60000000000 < 2 ^ 128"
    using unat_lt_32 [of items] unat_lt_32 [of bytes] by simp
  then show ?thesis
    using * [of 15 items] * [of 6 bytes]
    by (simp add: deposit_def unat_add_exact)
qed

text \<open>
  The time units agree: a block is 3 seconds, \<open>MINUTES\<close>, \<open>HOURS\<close> and \<open>DAYS\<close> blocks
  last exactly a minute, an hour and a day, an epoch is ten minutes and has the same
  length in slots as in blocks, the timestamp's minimum period is half a slot, and the
  election lookahead is shorter than the session it precedes, which has 200 blocks.
\<close>

theorem time_units_agree:
  "unat SECS_PER_BLOCK * 1000 = unat MILLISECS_PER_BLOCK
   \<and> unat MINUTES * unat SECS_PER_BLOCK = 60
   \<and> unat HOURS * unat SECS_PER_BLOCK = 3600
   \<and> unat DAYS * unat SECS_PER_BLOCK = 86400
   \<and> unat EPOCH_DURATION_IN_BLOCKS * unat SECS_PER_BLOCK = 600
   \<and> unat EpochDuration = unat EPOCH_DURATION_IN_BLOCKS
   \<and> 2 * unat MinimumPeriod = unat SLOT_DURATION
   \<and> unat ElectionLookahead < unat SessionDuration \<and> unat SessionDuration = 200
   \<and> 4 * unat SlashDeferDuration = unat BondingDuration"
  by (simp add: time_values MILLISECS_PER_BLOCK_def EpochDuration_def MinimumPeriod_def
      SLOT_DURATION_def ElectionLookahead_def SessionDuration_def SlashDeferDuration_def BondingDuration_def)

text \<open>
  C19: The block weight is shared as the comments say: when the weight of a second is a
  multiple of 10 and two of them fit the type, the greatest extrinsic is 65 percent of a
  block and with the 10 percent kept for initialisation exactly fills the 75 percent
  available; offences may take 60 percent; and the file's static assertion holds.
\<close>

theorem block_weight_shared:
  assumes "perbill_documented P" and "10 dvd unat wps" and "2 * unat wps < 2 ^ 64"
  shows "unat (MaximumBlockWeight wps) = 2 * unat wps
    \<and> 100 * unat (MaximumExtrinsicWeight P wps) = 65 * unat (MaximumBlockWeight wps)
    \<and> 100 * unat (MaximumExtrinsicWeight P wps) + 10 * unat (MaximumBlockWeight wps)
        = 75 * unat (MaximumBlockWeight wps)
    \<and> 100 * unat (OffencesWeightSoftLimit P wps) = 60 * unat (MaximumBlockWeight wps)
    \<and> runtime_const_assert P"
proof -
  obtain k where k: "unat wps = 10 * k"
    using assms(2) by auto
  have block: "unat (MaximumBlockWeight wps) = 20 * k"
    using assms(3) by (simp add: MaximumBlockWeight_def unat_mult_exact k)
  have percent: "unat (deconstruct P (from_percent P x)) = unat x * 10000000" if "unat x \<le> 100" for x
    using assms(1) that by (simp add: perbill_documented_def)
  have sub: "unat (deconstruct P (perbill_saturating_sub P p q)) = unat (deconstruct P p) - unat (deconstruct P q)" for p q
    using assms(1) by (simp add: perbill_documented_def)
  have mul: "unat (perbill_mul P p w) = unat (deconstruct P p) * unat w div 1000000000"
    if "unat (deconstruct P p) \<le> 1000000000" "1000000000 dvd unat (deconstruct P p) * unat w" for p w
    using assms(1) that by (simp add: perbill_documented_def)
  have "unat (deconstruct P (perbill_saturating_sub P (AvailableBlockRatio P) (AVERAGE_ON_INITIALIZE_WEIGHT P))) = 650000000"
    by (simp add: sub AvailableBlockRatio_def AVERAGE_ON_INITIALIZE_WEIGHT_def percent)
  then have "unat (MaximumExtrinsicWeight P wps) = 13 * k"
    by (simp add: MaximumExtrinsicWeight_def mul block)
  moreover have "unat (OffencesWeightSoftLimit P wps) = 12 * k"
    by (simp add: OffencesWeightSoftLimit_def mul percent block)
  moreover have "runtime_const_assert P"
    by (simp add: runtime_const_assert_def word_le_nat_alt AvailableBlockRatio_def
        AVERAGE_ON_INITIALIZE_WEIGHT_def percent)
  ultimately show ?thesis
    by (simp add: block k)
qed

theorem block_weight_shared_witness:
  "100 * unat (MaximumExtrinsicWeight parts_api 1000000000000) = 65 * unat (MaximumBlockWeight 1000000000000)"
  using block_weight_shared [OF parts_api_documented, of 1000000000000] by simp

section \<open>Fees\<close>

text \<open>
  C20: The weight fee of the runtime is below its smallest unit. For every nonzero base
  weight of an extrinsic the polynomial is the single term of degree 1 with the integer
  coefficient 0 and the fraction of \<open>U_MITO\<close> in a MITO per unit of base weight; even
  computed exactly, the fee of any weight below a million base extrinsics rounds down to 0.
\<close>

theorem weight_fee_below_unit:
  assumes "ExtrinsicBaseWeight \<noteq> 0" and "unat w < 1000000 * unat ExtrinsicBaseWeight"
  shows "WeightToFee_polynomial P ExtrinsicBaseWeight =
      Some [\<lparr>coeff_integer = 0,
             coeff_frac = from_rational_approximation P U_MITO (MITO * ucast ExtrinsicBaseWeight),
             negative = False, degree = 1\<rparr>]
    \<and> unat w * unat U_MITO div unat (MITO * ucast ExtrinsicBaseWeight) = 0"
proof -
  have "unat w * unat U_MITO < unat (MITO * ucast ExtrinsicBaseWeight)"
    using assms(2) by (simp add: U_MITO_value fee_denominator)
  then show ?thesis
    using fee_quotient [OF assms(1)] by (simp add: WeightToFee_polynomial_def Let_def)
qed

theorem weight_fee_below_unit_witness:
  "unat (MaximumBlockWeight 1000000000000) * unat U_MITO div unat (MITO * ucast (125000000 :: weight)) = 0"
  using weight_fee_below_unit [of 125000000 "MaximumBlockWeight 1000000000000" parts_api]
  by (simp add: MaximumBlockWeight_def)

section \<open>Votes\<close>

text \<open>
  C21: Converting a balance to votes and back loses less than one vote's worth and never
  gains, and is monotone in the balance, as long as the quotient by the factor fits
  \<open>u64\<close>; the conversion back does not overflow.
\<close>

theorem vote_round_trip:
  assumes "unat x div unat (currency_to_vote_factor issuance) < 2 ^ 64" and "y \<le> x"
  shows "unat (convert_to_currency issuance (ucast (convert_to_vote issuance x))) \<le> unat x
    \<and> unat x - unat (convert_to_currency issuance (ucast (convert_to_vote issuance x)))
        < unat (currency_to_vote_factor issuance)
    \<and> convert_to_vote issuance y \<le> convert_to_vote issuance x"
proof -
  let ?f = "unat (currency_to_vote_factor issuance)"
  have vote: "unat (convert_to_vote issuance x) = unat x div ?f"
    using assms(1) by (simp add: unat_convert_to_vote)
  have "unat (convert_to_currency issuance (ucast (convert_to_vote issuance x))) = unat x div ?f * ?f"
    using unat_convert_to_currency [of "ucast (convert_to_vote issuance x)" x issuance]
    by (simp add: unat_ucast_wide vote)
  moreover have "unat x - unat x div ?f * ?f < ?f"
    using factor_pos [of issuance] by (simp add: minus_div_mult_eq_mod)
  moreover have "unat y div ?f \<le> unat x div ?f"
    using assms(2) by (simp add: word_le_nat_alt div_le_mono)
  ultimately show ?thesis
    using assms(1) vote by (simp add: word_le_nat_alt unat_convert_to_vote)
qed

theorem vote_round_trip_witness:
  "unat (convert_to_currency 1000 (ucast (convert_to_vote 1000 7))) \<le> 7"
  using vote_round_trip [of 7 1000 5] by (simp add: unat_factor)

text \<open>
  C22: The cast of \<open>CurrencyToVoteHandler\<close> can wrap: a balance converts to its quotient by
  the factor exactly when the quotient fits \<open>u64\<close>, and for the holder of the whole supply
  it does not fit exactly when the issuance exceeds \<open>u64\<close> and its remainder by the
  greatest \<open>u64\<close> reaches its quotient.
\<close>

theorem vote_wraps_iff:
  "(unat (convert_to_vote issuance x) = unat x div unat (currency_to_vote_factor issuance)
      \<longleftrightarrow> unat x div unat (currency_to_vote_factor issuance) < 2 ^ 64)
   \<and> (unat (convert_to_vote issuance issuance) \<noteq> unat issuance div unat (currency_to_vote_factor issuance)
      \<longleftrightarrow> 2 ^ 64 \<le> unat issuance
        \<and> unat issuance div (2 ^ 64 - 1) \<le> unat issuance mod (2 ^ 64 - 1))"
proof
  have fits: "n mod 2 ^ 64 = n \<longleftrightarrow> n < 2 ^ 64" for n :: nat
    by (metis mod_less mod_less_divisor zero_less_numeral zero_less_power)
  then show "unat (convert_to_vote issuance x) = unat x div unat (currency_to_vote_factor issuance)
      \<longleftrightarrow> unat x div unat (currency_to_vote_factor issuance) < 2 ^ 64"
    by (simp only: unat_convert_to_vote)
  let ?n = "unat issuance" and ?M = "2 ^ 64 - 1 :: nat"
  have "2 ^ 64 \<le> ?n div max (?n div ?M) 1 \<longleftrightarrow> 2 ^ 64 \<le> ?n \<and> ?n div ?M \<le> ?n mod ?M"
  proof (cases "?n < ?M")
    case True
    then show ?thesis by simp
  next
    case False
    define k where "k = ?n div ?M"
    define r where "r = ?n mod ?M"
    have k: "1 \<le> k" and n: "?n = k * ?M + r" and r: "r < ?M"
      using False by (simp_all add: k_def r_def div_greater_zero_iff Suc_le_eq)
    have "?n div k = ?M + r div k"
      using k by (simp add: n)
    moreover have "2 ^ 64 \<le> ?M + y \<longleftrightarrow> 1 \<le> y" for y
      by auto
    ultimately have "2 ^ 64 \<le> ?n div k \<longleftrightarrow> 1 \<le> r div k"
      by simp
    also have "\<dots> \<longleftrightarrow> k \<le> r"
      using k by (simp add: Suc_le_eq div_greater_zero_iff)
    also have "\<dots> \<longleftrightarrow> 2 ^ 64 \<le> ?n \<and> k \<le> r"
    proof -
      have "2 ^ 64 \<le> ?n" if "k \<le> r"
      proof -
        have "1 * ?M \<le> k * ?M"
          using k by (rule mult_le_mono1)
        with that k n show ?thesis by linarith
      qed
      then show ?thesis by blast
    qed
    finally show ?thesis
      using k by (simp add: k_def r_def max_def)
  qed
  then show "unat (convert_to_vote issuance issuance) \<noteq> ?n div unat (currency_to_vote_factor issuance)
      \<longleftrightarrow> 2 ^ 64 \<le> ?n \<and> ?n div ?M \<le> ?n mod ?M"
    by (simp only: unat_convert_to_vote unat_factor fits not_less)
qed

section \<open>Transactions of the runtime\<close>

text \<open>
  C23: A transaction the runtime creates carries the given call, the address of the given
  account and the extensions of \<open>SignedExtra\<close> in its order, with the given nonce, no tip
  and an era of the longest period from the block before the current one; its signature is
  the application's, over the encoding of exactly that call and those extensions.
\<close>

theorem created_transaction_parts:
  assumes "payload_keeps_parts env"
    and "create_transaction env call public account nonce = Some (call', address, signature, extra)"
  shows "call' = call \<and> address = indices_unlookup env account
    \<and> map kind_of extra = SignedExtra
    \<and> extra ! 3 = CheckEra (era_mortal env 2048 (saturating_sub (ucast (env_block_number env)) 1))
    \<and> extra ! 4 = CheckNonce nonce \<and> extra ! 6 = ChargeTransactionPayment 0
    \<and> (\<exists>payload. payload_new env call extra = Ok payload
        \<and> app_sign env (payload_encoded env payload) public = Some signature)"
proof -
  let ?extra = "[CheckSpecVersion, CheckTxVersion, CheckGenesis,
      CheckEra (era_mortal env 2048 (saturating_sub (ucast (env_block_number env)) 1)),
      CheckNonce nonce, CheckWeight, ChargeTransactionPayment 0]"
  have period: "mortal_period BlockHashCount = 2048"
    by (simp add: mortal_period_BlockHashCount)
  from assms(2) obtain payload where payload: "payload_new env call ?extra = Ok payload"
    "app_sign env (payload_encoded env payload) public = Some signature"
    "address = indices_unlookup env account"
    "\<exists>add. payload_deconstruct env payload = (call', extra, add)"
    by (auto simp: create_transaction_def period Let_def split: result.splits option.splits prod.splits)
  obtain add where "payload_deconstruct env payload = (call, ?extra, add)"
    using assms(1) payload(1) unfolding payload_keeps_parts_def by blast
  with payload(4) have "call' = call" "extra = ?extra"
    by simp_all
  with payload(1,2,3) show ?thesis
    by (simp add: SignedExtra_def)
qed

text \<open>
  An instance of Substrate's types: payloads are the pairs they are made of and sign as
  their number of extensions under any key but 0.
\<close>

definition pair_env :: "(nat, nat, nat, u64 \<times> u64, nat \<times> (u64 \<times> u64) signed_extension list, nat, unit, unit, nat, nat) tx_env" where
  "pair_env =
     \<lparr>env_block_number = 100,
      era_mortal = Pair,
      payload_new = (\<lambda>call extra. if call = 0 then Err () else Ok (call, extra)),
      payload_encoded = (\<lambda>(call, extra). call + length extra),
      payload_deconstruct = (\<lambda>(call, extra). (call, extra, ())),
      app_sign = (\<lambda>bytes key. if key = 0 then None else Some (bytes + key)),
      indices_unlookup = Suc\<rparr>"

theorem created_transaction_parts_witness:
  "create_transaction pair_env 5 7 8 3 =
      Some (5, 9, 19, [CheckSpecVersion, CheckTxVersion, CheckGenesis, CheckEra (2048, 99),
        CheckNonce 3, CheckWeight, ChargeTransactionPayment 0])
   \<and> (\<exists>payload. app_sign pair_env (payload_encoded pair_env payload) 7 = Some 19)"
proof -
  have tx: "create_transaction pair_env 5 7 8 3 =
      Some (5, 9, 19, [CheckSpecVersion, CheckTxVersion, CheckGenesis, CheckEra (2048, 99),
        CheckNonce 3, CheckWeight, ChargeTransactionPayment 0])"
    by (simp add: create_transaction_def pair_env_def mortal_period_BlockHashCount saturating_sub_def Let_def)
  have "payload_keeps_parts pair_env"
    by (simp add: payload_keeps_parts_def pair_env_def)
  from created_transaction_parts [OF this tx] tx show ?thesis
    by (elim conjE exE) (intro conjI exI)
qed

section \<open>The pallets of the runtime\<close>

text \<open>
  C24: The datalog of the runtime: in every reachable state an account's log has at most 127
  entries and its storage at most 128 items, every entry's record is at most 512 bytes by
  the size hint, and the weight of an \<open>erase\<close> covers the accesses it makes.
\<close>

theorem runtime_datalog_bounds:
  fixes ensure :: "'o \<Rightarrow> ('a, 'e) result"
  assumes "datalog_reachable (runtime_datalog ensure hint) tick s" and "db_weight_mono D"
    and "ensure origin = Ok a"
  shows "\<exists>log s'. datalog_data (runtime_datalog ensure hint) a s = Some log
    \<and> length log \<le> 127 \<and> card (stored_slots s a) \<le> 128
    \<and> (\<forall>item\<in>set log. hint (item_record item) \<le> 512)
    \<and> erase_call (runtime_datalog ensure hint) origin s = Some (Ok (), s')
    \<and> db_cost D (of_nat (reads_made s s')) (of_nat (writes_made s s')) \<le> weight_erase D DatalogWindowSize"
proof -
  let ?T = "runtime_datalog ensure hint :: ('a, moment, u8 list, 'o, 'e) datalog_trait"
  have T: "ensure_signed ?T = ensure" "size_hint ?T = hint" "window_size ?T = 128" "maximum_message_size ?T = 512"
    by (simp_all add: runtime_datalog_def DatalogWindowSize_def DatalogMaximumMessageSize_def)
  have inv: "datalog_wf ?T s" "storage_inv ?T s" "items_sized ?T s"
    using reachable_storage_inv [OF assms(1)] reachable_items_sized [OF assms(1)] by simp_all
  have "stored_slots s a \<subseteq> ring_all 128"
    using inv(2) by (simp add: storage_inv_def T)
  from card_mono [OF finite_ring_all this] have stored: "card (stored_slots s a) \<le> 128"
    by (simp add: card_ring_all ring_mod_def)
  have len: "length (account_log ?T s a) \<le> 127"
    using length_account_log_le [of ?T s a] by (simp add: T log_cap_def ring_cap_def ring_mod_def)
  have sized: "hint (item_record item) \<le> 512" if item: "item \<in> set (account_log ?T s a)" for item
  proof -
    obtain u where "u \<in> set (live_slots ?T s a)" "st_item s (a, u) = Some item"
      using inv(2) item by (rule account_log_stored)
    with inv(3) show ?thesis
      unfolding items_sized_def T by blast
  qed
  let ?s' = "after_erase (live_slots ?T s a) a s"
  have "db_cost D (of_nat (reads_made s ?s')) (of_nat (writes_made s ?s')) \<le> weight_erase D (window_size ?T)"
    using default_weight.erase_covered [OF assms(2), of "window_size ?T" "2 + length (live_slots ?T s a)"]
      erase_writes_le [of ?T s a]
    by (simp add: erase_accesses T word_eq_unat_iff unat_minus_one_word)
  then show ?thesis
    using inv(1) stored len sized assms(3)
    by (intro exI [of _ "account_log ?T s a"] exI [of _ ?s'])
      (simp add: datalog_data_wf datalog_wf_def erase_call_ok T DatalogWindowSize_def)
qed

theorem runtime_datalog_bounds_witness:
  "\<exists>log. datalog_data (runtime_datalog (ok_or ()) (\<lambda>r. of_nat (length r))) 1 demo_genesis = Some log
    \<and> length log \<le> 127"
proof -
  have "db_weight_mono \<lparr>db_reads = (\<lambda>n. n), db_writes = (\<lambda>n. n)\<rparr>"
    by (simp add: db_weight_mono_def)
  from runtime_datalog_bounds [OF reach_genesis this, of "ok_or ()" "Some 1"]
  show ?thesis by fastforce
qed

text \<open>
  C25: The mortality period of a transaction, for every number \<open>n\<close> of kept block hashes at the
  width of the code: for \<open>n\<close> from 2 to \<open>2 ^ 31\<close> it is a power of two, below \<open>n\<close> and at least
  half of it, and so the greatest power of two below \<open>n\<close>; above \<open>2 ^ 31\<close>, where \<open>u32\<close> has no
  next power of two, it is 2; for 0 and 1 it is 0. The runtime's is 2048 blocks.
\<close>

theorem mortal_period_bounds:
  "(1 < unat n \<and> unat n \<le> 2 ^ 31 \<longrightarrow>
      (\<exists>j. unat (mortal_period n) = 2 ^ j) \<and> unat (mortal_period n) < unat n
        \<and> unat n \<le> 2 * unat (mortal_period n))
   \<and> (2 ^ 31 < unat n \<longrightarrow> mortal_period n = 2)
   \<and> (unat n \<le> 1 \<longrightarrow> mortal_period n = 0)
   \<and> mortal_period BlockHashCount = 2048"
proof (intro conjI impI)
  assume "1 < unat n \<and> unat n \<le> 2 ^ 31"
  then obtain j where j: "unat (mortal_period n) = 2 ^ j" "2 ^ j < unat n" "unat n \<le> 2 * 2 ^ j"
    using mortal_period_power [of n] by auto
  then show "\<exists>j. unat (mortal_period n) = 2 ^ j" "unat (mortal_period n) < unat n"
    "unat n \<le> 2 * unat (mortal_period n)"
    by auto
next
  assume "2 ^ 31 < unat n"
  then show "mortal_period n = 2"
    by (simp add: mortal_period_too_big)
next
  assume "unat n \<le> 1"
  then have "pow2_from (Suc 31) 1 (unat n) = Some 1"
    unfolding pow2_from.simps by simp
  then have "checked_next_power_of_two n = Some 1"
    by (simp add: checked_next_power_of_two_def)
  then show "mortal_period n = 0"
    by (simp add: mortal_period_def)
qed (rule mortal_period_BlockHashCount)

theorem mortal_period_bounds_witness:
  "unat (mortal_period 64) < 64 \<and> 64 \<le> 2 * unat (mortal_period 64)"
  using mortal_period_bounds [of 64] by simp

text \<open>
  The composition of the runtime, read off its tables: the twenty pallets have distinct names and crates, and exactly the
  listed ones provide inherents, unsigned validation and a genesis configuration; each but
  the parameterless randomness pallet implements its \<open>Trait\<close> in the file, and the finality
  tracker is implemented without being composed; every benchmarked pallet is composed. A
  trait names the overarching event exactly for the pallets composed with events, the
  datalog pallet takes its two parameters and its clock from the runtime, and no fee, slash,
  reward remainder or dust has a receiver: all their handlers are the unit type, so the
  handler \<open>Author\<close> is never reached. The runtime APIs call composed pallets only, and
  beside them the executive, the runtime's metadata and version, the inherents and the
  session keys; and the node's opaque blocks have the runtime's header.
\<close>

lemma runtime_composition:
  "length construct_runtime = 20
   \<and> distinct (map pallet_name construct_runtime) \<and> distinct (map pallet_crate construct_runtime)
   \<and> pallets_with Part_Inherent = [''pallet_timestamp'', ''pallet_authorship'', ''pallet_babe'']
   \<and> pallets_with Part_ValidateUnsigned =
       [''pallet_staking'', ''pallet_babe'', ''pallet_grandpa'', ''pallet_im_online'']
   \<and> pallets_with Part_Config =
       [''frame_system'', ''pallet_indices'', ''pallet_balances'', ''pallet_session'', ''pallet_staking'',
        ''pallet_babe'', ''pallet_grandpa'', ''pallet_im_online'', ''pallet_authority_discovery'', ''pallet_sudo'']
   \<and> set (pallets_with Part_Module) - set runtime_trait_impls = {''pallet_randomness_collective_flip''}
   \<and> set runtime_trait_impls - set (pallets_with Part_Module) = {''pallet_finality_tracker''}
   \<and> set benchmarked_pallets \<subseteq> set (pallets_with Part_Module)
   \<and> list_all events_wired construct_runtime
   \<and> map (assigned ''pallet_robonomics_datalog'') [''Time'', ''WindowSize'', ''MaximumMessageSize'']
       = [Some ''Timestamp'', Some ''DatalogWindowSize'', Some ''DatalogMaximumMessageSize'']
   \<and> list_all (\<lambda>(crate, item). assigned crate item = Some ''()'') imbalance_handlers
   \<and> list_all (\<lambda>(crate, config). list_all (\<lambda>(item, value). value \<noteq> ''Author'') config) trait_impls
   \<and> distinct (map fst runtime_apis)
   \<and> set api_callees - set (map pallet_name construct_runtime)
       = {''VERSION'', ''Executive'', ''Runtime'', ''data'', ''SessionKeys''}
   \<and> map_of runtime_types ''Header'' = map_of primitive_types ''Header''
   \<and> assigned ''frame_system'' ''Header'' = map_of primitive_types ''Header''"
  by (intro conjI; code_simp)

text \<open>
  The benchmark dispatcher succeeds exactly when every benchmark succeeds and one gave
  a batch, with all the batches in the pallets' order; otherwise it returns the error of
  the first failing benchmark, or that none was found.
\<close>

theorem dispatch_benchmark_outcome:
  "(dispatch_benchmark f = Ok out \<longleftrightarrow>
      (\<forall>p\<in>set benchmarked_pallets. is_ok (f p)) \<and> out \<noteq> []
        \<and> out = concat (map (\<lambda>p. the_ok (f p)) benchmarked_pallets))
   \<and> (dispatch_benchmark f = Err e \<longleftrightarrow>
      (\<exists>ps p qs. benchmarked_pallets = ps @ p # qs \<and> (\<forall>q\<in>set ps. is_ok (f q)) \<and> f p = Err e)
      \<or> (\<forall>p\<in>set benchmarked_pallets. f p = Ok []) \<and> e = ''Benchmark not found for this pallet.'')"
proof
  show "dispatch_benchmark f = Ok out \<longleftrightarrow>
      (\<forall>p\<in>set benchmarked_pallets. is_ok (f p)) \<and> out \<noteq> []
        \<and> out = concat (map (\<lambda>p. the_ok (f p)) benchmarked_pallets)"
    by (auto simp: dispatch_benchmark_def and_then_eq_Ok add_benchmarks_Ok)
  have none: "(\<forall>p\<in>set benchmarked_pallets. is_ok (f p)) \<and> concat (map (\<lambda>p. the_ok (f p)) benchmarked_pallets) = []
      \<longleftrightarrow> (\<forall>p\<in>set benchmarked_pallets. f p = Ok [])"
    by (auto simp: is_ok_def split: result.splits) (metis result.exhaust_sel result.sel(1))
  show "dispatch_benchmark f = Err e \<longleftrightarrow>
      (\<exists>ps p qs. benchmarked_pallets = ps @ p # qs \<and> (\<forall>q\<in>set ps. is_ok (f q)) \<and> f p = Err e)
      \<or> (\<forall>p\<in>set benchmarked_pallets. f p = Ok []) \<and> e = ''Benchmark not found for this pallet.''"
    unfolding none [symmetric]
    by (auto simp: dispatch_benchmark_def and_then_eq_Err add_benchmarks_Ok add_benchmarks_Err)
qed

theorem dispatch_benchmark_outcome_witness:
  "dispatch_benchmark (\<lambda>p. Ok [] :: (nat list, string) result) = Err ''Benchmark not found for this pallet.''"
  using dispatch_benchmark_outcome [of "\<lambda>p. Ok [] :: (nat list, string) result" "[]"
      "''Benchmark not found for this pallet.''"]
  by simp

end
