(* ===== verification/Runtime_Api_Theorems.thy ===== *)
theory Runtime_Api_Theorems
  imports Runtime_Api Runtime_Theorems
begin

text \<open>
  The properties of the runtime APIs with logic of their own: the configuration BABE starts
  from, in the units of the runtime's constants, and the way of a key ownership proof from
  the runtime to a reporter and back.
\<close>

text \<open>
  C26: The configuration BABE starts from fits the runtime's constants, when the pallet's slot
  duration is twice the minimum period of the timestamp pallet: a slot lasts as long as a
  block, an epoch ten minutes, as many slots as blocks and as the session the heartbeats
  expect, longer than the election lookahead; \<open>MINUTES\<close>, \<open>HOURS\<close> and \<open>DAYS\<close> slots last what
  their names say; a slot is primary with probability one quarter; and the authorities and
  the randomness are those of the state.
\<close>

theorem babe_configuration_units:
  assumes "babe_documented B" and "config = babe_configuration B st"
  shows "unat (slot_duration config) = unat MILLISECS_PER_BLOCK
    \<and> unat (epoch_length config) * unat (slot_duration config) = 10 * 60 * 1000
    \<and> unat (epoch_length config) = unat EPOCH_DURATION_IN_BLOCKS
    \<and> unat (epoch_length config) = unat SessionDuration
    \<and> unat ElectionLookahead < unat (epoch_length config)
    \<and> unat MINUTES * unat (slot_duration config) = 60 * 1000
    \<and> unat HOURS * unat (slot_duration config) = 60 * 60 * 1000
    \<and> unat DAYS * unat (slot_duration config) = 24 * 60 * 60 * 1000
    \<and> 4 * fst (config_c config) = snd (config_c config)
    \<and> allowed_slots config = PrimaryAndSecondaryPlainSlots
    \<and> genesis_authorities config = babe_authorities B st \<and> randomness config = babe_randomness B st"
proof -
  have "unat (slot_duration config) = 3000"
    using assms by (simp add: babe_documented_def babe_configuration_def MinimumPeriod_def SLOT_DURATION_def
        MILLISECS_PER_BLOCK_def)
  then show ?thesis
    using time_units_agree assms(2)
    by (simp add: babe_configuration_def time_values MILLISECS_PER_BLOCK_def PRIMARY_PROBABILITY_def)
qed

definition plain_babe :: "(nat, nat list, nat) babe_module" where
  "plain_babe =
     \<lparr>babe_slot_duration = (\<lambda>st. MinimumPeriod * 2), babe_authorities = (\<lambda>st. [st]), babe_randomness = (\<lambda>st. st)\<rparr>"

theorem babe_configuration_units_witness:
  "unat (epoch_length (babe_configuration plain_babe 5)) * unat (slot_duration (babe_configuration plain_babe 5))
     = 600000"
proof -
  have "babe_documented plain_babe"
    by (simp add: babe_documented_def plain_babe_def MinimumPeriod_def SLOT_DURATION_def MILLISECS_PER_BLOCK_def)
  from babe_configuration_units [OF this refl, of 5] show ?thesis
    by (elim conjE) simp
qed

text \<open>
  C27: A key ownership proof survives the way to a reporter and back, for GRANDPA and for
  BABE: what is generated is the proof for the key under that protocol's key type, whatever
  the set or the slot, and submitting it with an equivocation makes the pallet's report with
  that very proof; nothing is generated without a proof, and a proof that does not decode is
  refused with the state untouched.
\<close>

theorem key_ownership_round_trip:
  assumes "opaque_documented H grandpa" and "opaque_documented H babe"
  shows "(\<forall>proof. historical_prove H (KEY_TYPE grandpa, key) st = Some proof \<longrightarrow>
      (\<exists>sealed. grandpa_generate_key_ownership_proof H grandpa set_id key st = Some sealed
        \<and> grandpa_submit_report_equivocation grandpa equivocation sealed st'
            = submit_unsigned_equivocation_report grandpa equivocation proof st'))
    \<and> (\<forall>proof. historical_prove H (KEY_TYPE babe, key) st = Some proof \<longrightarrow>
      (\<exists>sealed. babe_generate_key_ownership_proof H babe slot key st = Some sealed
        \<and> babe_submit_report_equivocation babe equivocation' sealed st'
            = submit_unsigned_equivocation_report babe equivocation' proof st'))
    \<and> (historical_prove H (KEY_TYPE grandpa, key) st = None
        \<longleftrightarrow> grandpa_generate_key_ownership_proof H grandpa set_id key st = None)
    \<and> (historical_prove H (KEY_TYPE babe, key) st = None
        \<longleftrightarrow> babe_generate_key_ownership_proof H babe slot key st = None)
    \<and> (opaque_decode grandpa bad = None \<longrightarrow> grandpa_submit_report_equivocation grandpa equivocation bad st' = (None, st'))
    \<and> (opaque_decode babe bad' = None \<longrightarrow> babe_submit_report_equivocation babe equivocation' bad' st' = (None, st'))"
  using grandpa_evidence.round_trip [OF opaque_documentedD [OF assms(1)]]
    babe_evidence.round_trip [OF opaque_documentedD [OF assms(2)]]
  by (auto simp: grandpa_evidence.generate_None babe_evidence.generate_None
      grandpa_evidence.submit_refused babe_evidence.submit_refused)

text \<open>
  An instance: a proof is the key with whether it is one of GRANDPA, encoded with a byte for
  that in front, and a report is noted in the state with its proof.
\<close>

definition plain_historical :: "((nat \<times> bool \<times> u8 list) list, bool \<times> u8 list) historical" where
  "plain_historical =
     \<lparr>historical_prove = (\<lambda>(kind, key) st. if key = [] then None else Some (kind = ''gran'', key)),
      proof_encode = (\<lambda>(finality, key). (if finality then 1 else 0) # key)\<rparr>"

definition plain_evidence ::
  "string \<Rightarrow> ((nat \<times> bool \<times> u8 list) list, bool \<times> u8 list, u8 list, nat) evidence_pallet" where
  "plain_evidence kind =
     \<lparr>KEY_TYPE = kind, opaque_new = (\<lambda>bytes. bytes),
      opaque_decode = (\<lambda>bytes. case bytes of [] \<Rightarrow> None | b # key \<Rightarrow> Some (b = 1, key)),
      submit_unsigned_equivocation_report = (\<lambda>equivocation proof st. (Some (), (equivocation, proof) # st))\<rparr>"

lemma plain_evidence_documented: "opaque_documented plain_historical (plain_evidence kind)"
  by (auto simp: opaque_documented_def plain_historical_def plain_evidence_def)

theorem key_ownership_round_trip_witness:
  "\<exists>sealed. grandpa_generate_key_ownership_proof plain_historical (plain_evidence ''gran'') 3 [7] [] = Some sealed
    \<and> grandpa_submit_report_equivocation (plain_evidence ''gran'') 9 sealed [] = (Some (), [(9, True, [7])])"
  using key_ownership_round_trip [OF plain_evidence_documented plain_evidence_documented,
      of "''gran''" "[7]" "[]" 3 9 "[]"]
  by (simp add: plain_historical_def plain_evidence_def)

end
