(* ===== verification/Datalog_Codec.thy ===== *)
theory Datalog_Codec
  imports Datalog
begin

text \<open>
  The encodings of the pallet's stored values, \<open>#[derive(Encode, Decode)]\<close> on
  \<open>RingBufferItem\<close> and \<open>RingBufferIndex\<close> in \<open>pallets/datalog/src/lib.rs\<close>: the fields in the
  order of their declaration, those marked \<open>#[codec(compact)]\<close> with the compact codec. The
  codecs of the fields are those of \<open>parity-scale-codec\<close>, arguments here; what a codec
  promises is the predicate \<open>codec_law\<close>.
\<close>

section \<open>Codecs\<close>

text \<open>A decoder reads a prefix of its input and returns the value and the rest.\<close>

record 'v codec =
  encode :: "'v \<Rightarrow> u8 list"
  decode :: "u8 list \<Rightarrow> ('v \<times> u8 list) option"

definition codec_law :: "'v codec \<Rightarrow> bool" where
  "codec_law C \<longleftrightarrow> (\<forall>v rest. decode C (encode C v @ rest) = Some (v, rest))"

lemma codec_lawD: "codec_law C \<Longrightarrow> decode C (encode C v @ rest) = Some (v, rest)"
  by (simp add: codec_law_def)

lemma codec_inj:
  assumes "codec_law C" "encode C v = encode C w"
  shows "v = w"
  using assms codec_lawD [of C v "[]"] codec_lawD [of C w "[]"] by simp

text \<open>What a lawful codec encodes can be followed by anything and still be told apart.\<close>

lemma codec_append_inj:
  assumes "codec_law C"
  shows "encode C v @ xs = encode C w @ ys \<longleftrightarrow> v = w \<and> xs = ys"
proof
  assume "encode C v @ xs = encode C w @ ys"
  then have "decode C (encode C v @ xs) = decode C (encode C w @ ys)"
    by (rule arg_cong)
  then show "v = w \<and> xs = ys"
    by (simp add: codec_lawD [OF assms])
qed simp

lemma codec_inj_iff: "codec_law C \<Longrightarrow> encode C v = encode C w \<longleftrightarrow> v = w"
  using codec_append_inj [of C v "[]" w "[]"] by simp

section \<open>The derived codecs\<close>

definition index_codec :: "u64 codec \<Rightarrow> ring_index codec" where
  "index_codec compact_u64 =
     \<lparr>encode = (\<lambda>idx. encode compact_u64 (idx_start idx) @ encode compact_u64 (idx_end idx)),
      decode = (\<lambda>input.
        Option.bind (decode compact_u64 input) (\<lambda>(start_pos, input).
        Option.bind (decode compact_u64 input) (\<lambda>(end_pos, input).
        Some (\<lparr>idx_start = start_pos, idx_end = end_pos\<rparr>, input))))\<rparr>"

definition item_codec :: "'m codec \<Rightarrow> 'r codec \<Rightarrow> ('m, 'r) ring_item codec" where
  "item_codec compact_moment record_codec =
     \<lparr>encode = (\<lambda>item. encode compact_moment (item_moment item) @ encode record_codec (item_record item)),
      decode = (\<lambda>input.
        Option.bind (decode compact_moment input) (\<lambda>(now, input).
        Option.bind (decode record_codec input) (\<lambda>(rec, input).
        Some (RingBufferItem now rec, input))))\<rparr>"

lemma index_codec_law: "codec_law compact_u64 \<Longrightarrow> codec_law (index_codec compact_u64)"
  by (simp add: codec_law_def index_codec_def)

lemma item_codec_law:
  "codec_law compact_moment \<Longrightarrow> codec_law record_codec \<Longrightarrow> codec_law (item_codec compact_moment record_codec)"
  by (simp add: codec_law_def item_codec_def)

section \<open>The storage as bytes\<close>

text \<open>
  The raw values of the maps \<open>DatalogIndex\<close> and \<open>DatalogItem\<close>, and the getters over them:
  an absent value reads as the default, and so does one that does not decode, as the
  generated accessors do.
\<close>

record 'a raw_storage =
  raw_index :: "'a \<rightharpoonup> u8 list"
  raw_item :: "'a \<times> u64 \<rightharpoonup> u8 list"

definition raw_storage_of ::
  "u64 codec \<Rightarrow> 'm codec \<Rightarrow> 'r codec \<Rightarrow> ('a, 'm, 'r) datalog_state \<Rightarrow> 'a raw_storage" where
  "raw_storage_of cu cm cr s =
     \<lparr>raw_index = (\<lambda>a. map_option (encode (index_codec cu)) (st_index s a)),
      raw_item = (\<lambda>k. map_option (encode (item_codec cm cr)) (st_item s k))\<rparr>"

definition raw_get :: "'v codec \<Rightarrow> 'v \<Rightarrow> u8 list option \<Rightarrow> 'v" where
  "raw_get C def raw = (case Option.bind raw (decode C) of Some (v, _) \<Rightarrow> v | None \<Rightarrow> def)"

lemma raw_get_encode: "codec_law C \<Longrightarrow> raw_get C def (map_option (encode C) x) = (case x of Some v \<Rightarrow> v | None \<Rightarrow> def)"
  using codec_lawD [of C _ "[]"] by (cases x) (simp_all add: raw_get_def)

text \<open>\<open>data\<close> over the raw storage.\<close>

definition raw_data ::
  "('a, 'm, 'r, 'o, 'e) datalog_trait \<Rightarrow> u64 codec \<Rightarrow> 'm codec \<Rightarrow> 'r codec \<Rightarrow> 'a \<Rightarrow> 'a raw_storage
   \<Rightarrow> ('m, 'r) ring_item list option" where
  "raw_data T cu cm cr account raw =
     (let idx = raw_get (index_codec cu) ring_default (raw_index raw account)
      in ring_for_each (window_size T)
           (\<lambda>i out. out @ [raw_get (item_codec cm cr) (item_default T) (raw_item raw (account, i))]) idx [])"

lemma raw_data_eq:
  assumes "codec_law cu" "codec_law cm" "codec_law cr"
  shows "raw_data T cu cm cr a (raw_storage_of cu cm cr s) = datalog_data T a s"
  using assms
  by (simp add: raw_data_def datalog_data_def raw_storage_of_def raw_get_encode index_codec_law item_codec_law
      datalogidx_get_def datalogitem_get_def)

end
