(* ===== verification/Datalog_Use_Theorems.thy ===== *)
theory Datalog_Use_Theorems
  imports Datalog_Theorems Datalog_Codec
begin

text \<open>
  What a user of the datalog pallet relies on over time: how long a record stays readable,
  that the pallet's own tests pass, and that the stored bytes decode to what was written.
\<close>

section \<open>How long a record stays\<close>

text \<open>
  C15: A record stays readable until its author has made \<open>window - 1\<close> further records: after
  an accepted record in a reachable state and any further calls, none of which erases the
  author's datalog, \<open>data\<close> returns the record followed by exactly the author's later ones
  while these are fewer than the capacity, and the newest of the later ones after that.
\<close>

theorem record_retained:
  assumes "datalog_reachable T tick s"
    and "size_hint T rec \<le> maximum_message_size T" and "ensure_signed T origin = Ok a"
    and "Clear a \<notin> set (calls_ops T (st_clock s) cs)"
  shows "\<exists>s' log. run_calls T (Call_record origin rec # cs) s = Some s' \<and> datalog_data T a s' = Some log
    \<and> (if length (since_clear a (calls_ops T (st_clock s) cs)) < log_cap T
       then \<exists>older. log = older @ RingBufferItem (st_clock s) rec # since_clear a (calls_ops T (st_clock s) cs)
       else log = last_n (log_cap T) (since_clear a (calls_ops T (st_clock s) cs)))"
proof -
  let ?later = "since_clear a (calls_ops T (st_clock s) cs)" and ?item = "RingBufferItem (st_clock s) rec"
  have wf: "datalog_wf T s"
    using assms(1) by (rule datalog_reachable_wf)
  obtain s' where s': "run_calls T (Call_record origin rec # cs) s = Some s'" "datalog_wf T s'"
    "account_log T s' = spec_run (log_cap T) (calls_ops T (st_clock s) (Call_record origin rec # cs)) (account_log T s)"
    using run_calls_refines [OF wf] by blast
  have "account_log T s' a = last_n (log_cap T) (account_log T s a @ ?item # ?later)"
    using spec_run_since_clear [of "account_log T s" a "log_cap T" "Append a ?item # calls_ops T (st_clock s) cs"]
      assms(2-4) by (simp add: s'(3) length_account_log_le)
  also have "\<dots> = last_n (log_cap T - length ?later) (account_log T s a @ [?item]) @ last_n (log_cap T) ?later"
    using last_n_append [of "log_cap T" "account_log T s a @ [?item]" ?later] by simp
  finally have log: "account_log T s' a = \<dots>" .
  have "if length ?later < log_cap T then \<exists>older. account_log T s' a = older @ ?item # ?later
      else account_log T s' a = last_n (log_cap T) ?later"
    by (auto simp: log last_n_snoc last_n_short)
  with s'(1,2) show ?thesis
    by (simp add: datalog_data_wf datalog_wf_def)
qed

theorem record_retained_witness:
  "\<exists>s' log older. run_calls demo_runtime [Call_record (Some 1) [100], Call_record (Some 2) [5], Call_record (Some 1) [101]]
      demo_genesis = Some s' \<and> datalog_data demo_runtime 1 s' = Some log
    \<and> log = older @ [RingBufferItem 7 [100], RingBufferItem 7 [101]]"
  using record_retained [OF demo_reachable_genesis, of "[100]" "Some 1" 1 "[Call_record (Some 2) [5], Call_record (Some 1) [101]]"]
  by (simp add: test_runtime_def [THEN arg_cong, of maximum_message_size] datalog_genesis_def [THEN arg_cong, of st_clock])

section \<open>The tests of the pallet\<close>

lemma datalogidx_after_records:
  "datalogidx_get a (fold (after_record T a) recs s) =
    fold (\<lambda>_ idx. snd (ring_add (window_size T) idx)) recs (datalogidx_get a s)"
  by (induction recs arbitrary: s) (simp_all add: after_record_def datalogidx_get_def)

lemma st_clock_genesis: "st_clock (datalog_genesis t) = t"
  by (simp add: datalog_genesis_def)

lemma datalogidx_genesis: "datalogidx_get a (datalog_genesis t) = ring_default"
  by (simp add: datalog_genesis_def datalogidx_get_def)

lemma test_data_from_genesis:
  "datalog_data (test_runtime hint) a (fold (after_record (test_runtime hint) a) recs (datalog_genesis t))
    = Some (last_n 19 (map (RingBufferItem t) recs))"
proof -
  let ?s = "fold (after_record (test_runtime hint) a) recs (datalog_genesis t)"
  have "datalog_wf (test_runtime hint) ?s"
    by (simp add: fold_after_record_wf datalog_wf_genesis)
  then show ?thesis
    using account_log_records [OF datalog_wf_genesis, of "test_runtime hint" a recs t]
    by (simp add: datalog_data_wf datalog_wf_def account_log_genesis st_clock_genesis)
qed

lemma test_ring_passes: test_ringbuffer_index
  by (simp add: test_ringbuffer_index_def ring_default_def ring_add_def ring_next_def)

lemma test_store_passes:
  assumes "hint_documented hint"
  shows "test_store_data hint"
  using test_record [OF assms, of "bytes_of ''datalog''" 1 new_test_ext]
    test_data_from_genesis [of hint 1 "[bytes_of ''datalog'']" 0]
  by (simp add: test_store_data_def new_test_ext_def bytes_of_def last_n_short)

lemma ring_add_20:
  "snd (ring_add 20 \<lparr>idx_start = x, idx_end = y\<rparr>) =
    (let z = if y + 1 = 20 then 0 else y + 1
     in \<lparr>idx_start = if x = z then (if x + 1 = 20 then 0 else x + 1) else x, idx_end = z\<rparr>)"
  by (simp add: ring_add_def ring_next_def Let_def)

lemma ring_after_30: "fold (\<lambda>_ idx. snd (ring_add 20 idx)) [0..<30] ring_default = \<lparr>idx_start = 11, idx_end = 10\<rparr>"
  by (simp add: ring_default_def ring_add_20 upt_rec [of 0] upt_rec [of "Suc 0"] numeral_2_eq_2 [symmetric])

lemma test_recycle_passes:
  assumes "hint_documented hint"
  shows "test_recycle_data hint"
proof -
  let ?T = "test_runtime hint" and ?recs = "map (\<lambda>i. to_be_bytes (of_nat i)) [0..<30]"
  let ?s = "fold (after_record ?T 1) ?recs new_test_ext"
  have "assert_records ?T 1 ?recs new_test_ext = Some ?s"
    using assms by (intro assert_records_ok) (auto simp: to_be_bytes_def)
  moreover have "datalog_data ?T 1 ?s = Some (map (\<lambda>i. RingBufferItem 0 (to_be_bytes (of_nat i))) [11..<30])"
    by (simp add: new_test_ext_def test_data_from_genesis last_n_map last_n_def drop_map drop_upt comp_def del: upt_rec_numeral)
  moreover have "datalogidx_get 1 ?s = fold (\<lambda>_ idx. snd (ring_add 20 idx)) ?recs ring_default"
    by (simp only: datalogidx_after_records test_runtime_simps new_test_ext_def datalogidx_genesis)
  then have "datalogidx_get 1 ?s = \<lparr>idx_start = 11, idx_end = 10\<rparr>"
    using ring_after_30 by (simp add: fold_map comp_def)
  ultimately show ?thesis
    by (simp add: test_recycle_data_def del: upt_rec_numeral fold_simps)
qed

lemma test_erase_passes:
  assumes "hint_documented hint"
  shows "test_erase_data hint"
proof -
  let ?T = "test_runtime hint" and ?r = "bytes_of ''datalog''"
  let ?s = "after_record ?T 1 ?r new_test_ext"
  have wf: "datalog_wf ?T ?s"
    by (simp add: new_test_ext_def after_record_wf datalog_wf_genesis)
  then have erase: "erase_call ?T (Some 1) ?s = Some (Ok (), after_erase (live_slots ?T ?s 1) 1 ?s)"
    by (simp add: erase_call_ok datalog_wf_def)
  have "datalog_data ?T 1 (after_erase (live_slots ?T ?s 1) 1 ?s) = Some []"
    using after_erase_wf [OF wf] by (simp add: datalog_data_wf datalog_wf_def account_log_after_erase)
  moreover have "datalog_data ?T 1 ?s = Some [RingBufferItem 0 ?r]"
    using test_data_from_genesis [of hint 1 "[?r]" 0] by (simp add: new_test_ext_def last_n_short)
  moreover have "record_call ?T (Some 1) ?r new_test_ext = (Ok (), ?s)"
    using assms by (intro test_record) (simp_all add: bytes_of_def)
  moreover have "datalogidx_get 1 ?s = \<lparr>idx_start = 0, idx_end = 1\<rparr>" "datalog_get 1 ?s = []"
    "datalogidx_get 1 (after_erase us 1 ?s) = \<lparr>idx_start = 0, idx_end = 0\<rparr>" for us
    by (simp_all add: after_simps new_test_ext_def datalog_genesis_def ring_default_def ring_add_def ring_next_def)
  ultimately show ?thesis
    by (simp add: test_erase_data_def erase)
qed

lemma test_refused_pass:
  assumes "hint_documented hint"
  shows "test_bad_origin hint" "test_big_record hint"
proof -
  show "test_bad_origin hint"
    using hint_small [OF assms, of "[]"] by (simp add: test_bad_origin_def record_call_bad_origin)
  have "600 \<le> unat (hint (replicate 600 0))"
    using assms [unfolded hint_documented_def, rule_format, of "replicate 600 0"] by simp
  then show "test_big_record hint"
    by (simp add: test_big_record_def record_call_too_big test_runtime_def word_le_nat_alt)
qed

lemma test_ipfs_passes:
  assumes "hint_documented hint" "base58_documented from_base58"
  shows "test_store_ipfs_hashes hint from_base58"
proof -
  let ?T = "test_runtime hint"
  obtain r1 r2 r3 where r: "from_base58 ''QmWboFP8XeBtFMbNYK3Ne8Z3gKFBSR5iQzkKgeNgQz3dz4'' = Some r1"
    "from_base58 ''zdj7WWYAEceQ6ncfPZeRFjozov4dC7FaxU7SuMwzW4VuYBDta'' = Some r2"
    "from_base58 ''QmWboFP8XeBtFMbNYK3Ne8Z3gKFBSR5iQzkKgeNgQz3dz2'' = Some r3"
    "length r1 \<le> 100" "length r2 \<le> 100" "length r3 \<le> 100"
    using assms(2) by (auto simp: base58_documented_def)
  let ?s1 = "after_record ?T 1 r1 new_test_ext"
  let ?s2 = "after_record ?T 1 r2 (?s1\<lparr>st_clock := 100\<rparr>)"
  have wf: "datalog_wf ?T new_test_ext" "datalog_wf ?T ?s1" "datalog_wf ?T ?s2"
    by (simp_all add: new_test_ext_def after_record_wf datalog_wf_genesis datalog_wf_clock)
  have log1: "account_log ?T ?s1 1 = [RingBufferItem 0 r1]"
    using account_log_after_record [OF wf(1), of 1 r1]
    by (simp add: new_test_ext_def account_log_genesis st_clock_genesis last_n_short)
  have log2: "account_log ?T ?s2 1 = [RingBufferItem 0 r1, RingBufferItem 100 r2]"
    using wf(2) by (simp add: account_log_after_record datalog_wf_clock account_log_clock log1 last_n_short)
  have log3: "account_log ?T (after_record ?T 1 r3 (?s2\<lparr>st_clock := 200\<rparr>)) 1
      = [RingBufferItem 0 r1, RingBufferItem 100 r2, RingBufferItem 200 r3]"
    using wf(3) by (simp add: account_log_after_record datalog_wf_clock account_log_clock log2 last_n_short)
  have "datalog_wf ?T (after_record ?T 1 r3 (?s2\<lparr>st_clock := 200\<rparr>))"
    using wf(3) by (simp add: after_record_wf datalog_wf_clock)
  with wf show ?thesis
    using log1 log2 log3
    by (simp add: test_store_ipfs_hashes_def r test_record [OF assms(1)] datalog_data_wf datalog_wf_def)
qed

text \<open>A size hint as documented, with the four bytes of the longest length the tests use.\<close>

definition long_hint :: "u8 list \<Rightarrow> usize" where
  "long_hint r = of_nat (length r) + 4"

lemma long_hint_documented: "hint_documented long_hint"
proof -
  have "unat (long_hint r) = length r + 4" if "length r < 2 ^ 32" for r
    using that by (simp add: long_hint_def unat_word_ariths unat_of_nat_64)
  then show ?thesis
    by (simp add: hint_documented_def)
qed

section \<open>The stored bytes\<close>

text \<open>
  Codecs that keep their law, for the witness: a number as that many ones and a zero, a byte
  vector with its length in front.
\<close>

definition unary_codec :: "u64 codec" where
  "unary_codec =
     \<lparr>encode = (\<lambda>v. replicate (unat v) 1 @ [0]),
      decode = (\<lambda>input.
        let n = length (takeWhile ((=) 1) input)
        in if n < length input then Some (of_nat n, drop (n + 1) input) else None)\<rparr>"

definition vec_codec :: "u8 list codec" where
  "vec_codec =
     \<lparr>encode = (\<lambda>r. replicate (length r) 1 @ [0] @ r),
      decode = (\<lambda>input.
        let n = length (takeWhile ((=) 1) input); rest = drop (n + 1) input
        in if n \<le> length rest then Some (take n rest, drop n rest) else None)\<rparr>"

lemma takeWhile_ones: "takeWhile ((=) (1 :: u8)) (replicate n 1 @ 0 # rest) = replicate n 1"
  by (induction n) simp_all

lemma unary_codec_law: "codec_law unary_codec"
  by (simp add: codec_law_def unary_codec_def takeWhile_ones)

lemma vec_codec_law: "codec_law vec_codec"
  by (simp add: codec_law_def vec_codec_def takeWhile_ones)

text \<open>
  C16: The storage is well typed at the level of bytes, when the codecs of the fields decode
  what they encode: in a reachable state every stored index decodes, with nothing left over,
  to cursors inside the ring, every stored item lies in a slot of the ring and decodes to an
  item within the size limit, and \<open>data\<close> read off the bytes is \<open>data\<close>.
\<close>

theorem stored_bytes_decode:
  assumes "datalog_reachable T tick s" and "codec_law cu" and "codec_law cm" and "codec_law cr"
  shows "(\<forall>bytes. raw_index (raw_storage_of cu cm cr s) a = Some bytes \<longrightarrow>
        (\<exists>idx. decode (index_codec cu) bytes = Some (idx, []) \<and> ring_wf (window_size T) idx))
    \<and> (\<forall>u bytes. raw_item (raw_storage_of cu cm cr s) (a, u) = Some bytes \<longrightarrow>
        unat u < ring_mod (window_size T)
        \<and> (\<exists>now rec. decode (item_codec cm cr) bytes = Some (RingBufferItem now rec, [])
            \<and> size_hint T rec \<le> maximum_message_size T))
    \<and> raw_data T cu cm cr a (raw_storage_of cu cm cr s) = datalog_data T a s"
proof (intro conjI allI impI)
  note laws = codec_lawD [OF index_codec_law [OF assms(2)], of _ "[]"]
    codec_lawD [OF item_codec_law [OF assms(3,4)], of _ "[]"]
  have inv: "datalog_wf T s" "storage_inv T s" "items_sized T s"
    using reachable_storage_inv [OF assms(1)] reachable_items_sized [OF assms(1)] by simp_all
  show "\<exists>idx. decode (index_codec cu) bytes = Some (idx, []) \<and> ring_wf (window_size T) idx"
    if "raw_index (raw_storage_of cu cm cr s) a = Some bytes" for bytes
    using that laws(1) inv(1) [unfolded datalog_wf_def, rule_format, of a]
    by (auto simp: raw_storage_of_def datalogidx_get_def)
  show "unat u < ring_mod (window_size T)" if "raw_item (raw_storage_of cu cm cr s) (a, u) = Some bytes" for u bytes
  proof -
    have "u \<in> stored_slots s a"
      using that by (auto simp: raw_storage_of_def stored_slots_def)
    then have "u \<in> ring_all (window_size T)"
      using inv(2) unfolding storage_inv_def by blast
    then show ?thesis
      by (simp add: ring_all_iff)
  qed
  show "\<exists>now rec. decode (item_codec cm cr) bytes = Some (RingBufferItem now rec, [])
      \<and> size_hint T rec \<le> maximum_message_size T"
    if raw: "raw_item (raw_storage_of cu cm cr s) (a, u) = Some bytes" for u bytes
  proof -
    obtain item where item: "st_item s (a, u) = Some item" "bytes = encode (item_codec cm cr) item"
      using raw by (auto simp: raw_storage_of_def)
    then have "size_hint T (item_record item) \<le> maximum_message_size T"
      using inv(3) by (auto simp: items_sized_def)
    with item(2) laws(2) show ?thesis
      by (cases item) simp
  qed
  show "raw_data T cu cm cr a (raw_storage_of cu cm cr s) = datalog_data T a s"
    using assms(2-4) by (rule raw_data_eq)
qed

theorem stored_bytes_decode_witness:
  "raw_data demo_runtime unary_codec unary_codec vec_codec 1
      (raw_storage_of unary_codec unary_codec vec_codec (snd (record_call demo_runtime (Some 1) [100] demo_genesis)))
    = datalog_data demo_runtime 1 (snd (record_call demo_runtime (Some 1) [100] demo_genesis))"
  using stored_bytes_decode [OF demo_reachable_record unary_codec_law unary_codec_law vec_codec_law, of 1] by simp

end
