(* ===== verification/Datalog_Upgrade.thy ===== *)
theory Datalog_Upgrade
  imports Datalog_Storage
begin

text \<open>
  A runtime upgrade that changes the window size leaves the stored cursors and items as they
  are. This theory says what the loops over the ring then do: a log whose live slots do not
  wrap is read as before as long as its end is inside the new window, a wrapped log is read
  with the new slots in its middle, and otherwise the loop does not return.
\<close>

section \<open>Slots in order\<close>

text \<open>A ring whose cursors have not wrapped is walked straight, whatever the window.\<close>

lemma ring_for_each_straight:
  assumes "idx_start self \<le> idx_end self" "idx_end self < win \<or> win \<le> idx_start self"
  shows "ring_for_each win f self s
    = Some (fold f (map of_nat [unat (idx_start self)..<unat (idx_end self)]) s)"
  using assms
proof (induction "unat (idx_end self) - unat (idx_start self)" arbitrary: self s)
  case 0
  then have "unat (idx_start self) = unat (idx_end self)"
    by (simp add: word_le_nat_alt)
  then show ?case
    by (subst ring_for_each_step) (simp add: word_eq_unat_iff)
next
  case (Suc n)
  let ?v = "idx_start self"
  let ?self = "self\<lparr>idx_start := ring_next ?v win\<rparr>"
  have less: "unat ?v < unat (idx_end self)"
    using Suc.hyps(2) by simp
  then have v: "unat (?v + 1) = unat ?v + 1"
    using unat_lt_64 [of "idx_end self"] by (intro unat_plus_one_less) simp
  with Suc.prems(2) less have "?v + 1 \<noteq> win"
    by (auto simp: word_less_nat_alt word_le_nat_alt)
  then have step: "ring_next ?v win = ?v + 1"
    by (simp add: ring_next_def)
  have "ring_for_each win f ?self (f ?v s)
      = Some (fold f (map of_nat [unat ?v + 1..<unat (idx_end self)]) (f ?v s))"
  proof (subst Suc.hyps(1))
    show "n = unat (idx_end ?self) - unat (idx_start ?self)"
      using Suc.hyps(2) by (simp add: step v)
    show "idx_start ?self \<le> idx_end ?self"
      using less by (simp add: step v word_le_nat_alt)
    show "idx_end ?self < win \<or> win \<le> idx_start ?self"
      using Suc.prems(2) by (auto simp: step v word_le_nat_alt)
  qed (simp add: step v)
  moreover have "[unat ?v..<unat (idx_end self)] = unat ?v # [unat ?v + 1..<unat (idx_end self)]"
    using less by (simp add: upt_conv_Cons)
  moreover have "?v \<noteq> idx_end self"
    using less by auto
  ultimately show ?case
    by (subst ring_for_each_step) simp
qed

lemma ring_slots_wrapped:
  assumes wf: "ring_wf win self" and wrapped: "idx_end self < idx_start self"
  shows "ring_slots win self
    = map of_nat ([unat (idx_start self)..<ring_mod win] @ [0..<unat (idx_end self)])"
proof (rule nth_equalityI)
  let ?s = "unat (idx_start self)" and ?e = "unat (idx_end self)" and ?M = "ring_mod win"
  have bounds: "?s < ?M" "?e < ?s"
    using wf wrapped by (simp_all add: ring_wf_def word_less_nat_alt)
  have len: "ring_len win self = ?e + ?M - ?s"
    using bounds by (simp add: ring_len_cases [OF wf])
  show "length (ring_slots win self) = length (map of_nat ([?s..<?M] @ [0..<?e]) :: u64 list)"
    using bounds by (simp add: len)
  fix i
  assume "i < length (ring_slots win self)"
  then have i: "i < ?e + ?M - ?s"
    by (simp add: len)
  then have "ring_slots win self ! i = ring_slot win (?s + i)"
    by (simp add: ring_slots_def len)
  also have "\<dots> = of_nat (if ?s + i < ?M then ?s + i else ?s + i - ?M)"
    using bounds i by (auto simp: ring_slot_def mod_if)
  also have "\<dots> = map of_nat ([?s..<?M] @ [0..<?e]) ! i"
    using bounds i by (auto simp: nth_append)
  finally show "ring_slots win self ! i = map of_nat ([?s..<?M] @ [0..<?e]) ! i" .
qed

text \<open>A start cursor above the window climbs to the end of \<open>u64\<close> before it is inside.\<close>

lemma ring_for_each_climb:
  assumes "win \<le> idx_start self" "idx_end self < win"
  shows "ring_for_each win f self s
    = ring_for_each win f (self\<lparr>idx_start := 0\<rparr>) (fold f (map of_nat [unat (idx_start self)..<2 ^ 64]) s)"
  using assms
proof (induction "2 ^ 64 - 1 - unat (idx_start self)" arbitrary: self s)
  case 0
  let ?v = "idx_start self"
  have last: "unat ?v = 2 ^ 64 - 1"
    using 0(1) unat_lt_64 [of ?v] by simp
  then have "unat (?v + 1) = 0"
    using unat_plus_one [of ?v] by simp
  then have "ring_next ?v win = 0"
    by (simp add: ring_next_def unat_eq_zero)
  moreover have "[unat ?v..<2 ^ 64] = [unat ?v]"
    by (subst upt_conv_Cons) (simp_all add: last)
  ultimately show ?case
    using 0(2,3) by (subst ring_for_each_step) auto
next
  case (Suc n)
  let ?v = "idx_start self"
  let ?self = "self\<lparr>idx_start := ring_next ?v win\<rparr>"
  have v: "unat (?v + 1) = unat ?v + 1"
    using Suc.hyps(2) by (intro unat_plus_one_less) simp
  with Suc.prems(1) have "?v + 1 \<noteq> win"
    by (auto simp: word_le_nat_alt)
  then have step: "ring_next ?v win = ?v + 1"
    by (simp add: ring_next_def)
  have "ring_for_each win f ?self (f ?v s)
      = ring_for_each win f (?self\<lparr>idx_start := 0\<rparr>)
          (fold f (map of_nat [unat (idx_start ?self)..<2 ^ 64]) (f ?v s))"
  proof (rule Suc.hyps(1))
    show "n = 2 ^ 64 - 1 - unat (idx_start ?self)"
      using Suc.hyps(2) by (simp add: step v)
    show "win \<le> idx_start ?self"
      using Suc.prems(1) by (simp add: step v word_le_nat_alt)
    show "idx_end ?self < win"
      using Suc.prems(2) by simp
  qed
  moreover have "[unat ?v..<2 ^ 64] = unat ?v # [unat ?v + 1..<2 ^ 64]"
    using unat_lt_64 [of ?v] by (simp add: upt_conv_Cons)
  moreover have "?v \<noteq> idx_end self"
    using Suc.prems by auto
  ultimately show ?case
    by (subst ring_for_each_step) (simp add: step v)
qed

lemma ring_for_each_climb_wrapped:
  assumes "win \<le> idx_start self" "idx_end self < win"
  shows "ring_for_each win f self s
    = Some (fold f (map of_nat ([unat (idx_start self)..<2 ^ 64] @ [0..<unat (idx_end self)])) s)"
  by (subst ring_for_each_climb [OF assms]) (use assms in \<open>simp add: ring_for_each_straight\<close>)

lemma ring_for_each_None_iff:
  "ring_for_each win f self s = None \<longleftrightarrow>
     win \<noteq> 0 \<and> win \<le> idx_end self \<and> (idx_start self < win \<or> idx_end self < idx_start self)"
  using ring_for_each_returns_iff [of win f self s] by auto

section \<open>Reading after an upgrade\<close>

text \<open>The items of a range of slots.\<close>

definition slot_items ::
  "('a, 'm, 'r, 'o, 'e) datalog_trait \<Rightarrow> 'a \<Rightarrow> ('a, 'm, 'r) datalog_state \<Rightarrow> nat \<Rightarrow> nat \<Rightarrow> ('m, 'r) ring_item list" where
  "slot_items T a s i j = map (\<lambda>k. datalogitem_get T (a, of_nat k) s) [i..<j]"

lemma length_slot_items [simp]: "length (slot_items T a s i j) = j - i"
  by (simp add: slot_items_def)

lemma slot_items_split: "i \<le> j \<Longrightarrow> j \<le> k \<Longrightarrow> slot_items T a s i k = slot_items T a s i j @ slot_items T a s j k"
  using upt_add_eq_append [of i j "k - j"] by (simp add: slot_items_def)

lemma datalogitem_get_window [simp]:
  "datalogitem_get (T\<lparr>window_size := w\<rparr>) key s = datalogitem_get T key s"
  by (simp add: datalogitem_get_def item_default_def split: option.split)

lemma item_default_window [simp]: "item_default (T\<lparr>window_size := w\<rparr>) = item_default T"
  by (simp add: item_default_def)

lemma data_straight:
  assumes "idx_start (datalogidx_get a s) \<le> idx_end (datalogidx_get a s)"
    and "idx_end (datalogidx_get a s) < window_size T \<or> window_size T \<le> idx_start (datalogidx_get a s)"
  shows "datalog_data T a s
    = Some (slot_items T a s (unat (idx_start (datalogidx_get a s))) (unat (idx_end (datalogidx_get a s))))"
  by (simp add: datalog_data_def ring_for_each_straight [OF assms] fold_collect slot_items_def comp_def del: fold_map)

lemma data_wrapped:
  assumes "ring_wf (window_size T) (datalogidx_get a s)"
    and "idx_end (datalogidx_get a s) < idx_start (datalogidx_get a s)"
  shows "datalog_data T a s
    = Some (slot_items T a s (unat (idx_start (datalogidx_get a s))) (ring_mod (window_size T))
        @ slot_items T a s 0 (unat (idx_end (datalogidx_get a s))))"
  by (simp add: datalog_data_wf [OF assms(1)] account_log_def live_slots_def ring_slots_wrapped [OF assms]
      slot_items_def comp_def)

text \<open>Slots outside the ring hold nothing, so they read as the default item.\<close>

lemma slots_outside:
  assumes "storage_inv T s" "ring_mod (window_size T) \<le> i" "j \<le> 2 ^ 64"
  shows "slot_items T a s i j = replicate (j - i) (item_default T)"
proof -
  have "datalogitem_get T (a, of_nat k) s = item_default T" if "k \<in> set [i..<j]" for k
  proof -
    have "unat (of_nat k :: u64) = k"
      using that assms(3) by (intro unat_of_nat_64) auto
    with that assms(2) have "(of_nat k :: u64) \<notin> ring_all (window_size T)"
      by (auto simp: ring_all_iff)
    with assms(1) have "of_nat k \<notin> stored_slots s a"
      unfolding storage_inv_def by blast
    then show ?thesis
      by (simp add: stored_slots_def datalogitem_get_def)
  qed
  then have "slot_items T a s i j = map (\<lambda>_. item_default T) [i..<j]"
    by (simp add: slot_items_def)
  then show ?thesis
    by (simp add: map_replicate_const)
qed

lemma slot_items_window [simp]: "slot_items (T\<lparr>window_size := w\<rparr>) = slot_items T"
  by (simp add: slot_items_def fun_eq_iff)

text \<open>A range of slots, cut at \<open>j\<close> or continued past the ring's end \<open>m\<close> with default items.\<close>

lemma slot_items_resized:
  assumes inv: "storage_inv T s" and m: "ring_mod (window_size T) = m" and "i \<le> m" "i \<le> j" "j \<le> 2 ^ 64"
  shows "slot_items T a s i j
    = take (min (m - i) (j - i)) (slot_items T a s i m) @ replicate (j - m) (item_default T)"
proof (cases "m \<le> j")
  case True
  have "slot_items T a s i j = slot_items T a s i m @ slot_items T a s m j"
    using \<open>i \<le> m\<close> True by (rule slot_items_split)
  also have "slot_items T a s m j = replicate (j - m) (item_default T)"
    using inv m \<open>j \<le> 2 ^ 64\<close> by (intro slots_outside) simp_all
  finally show ?thesis
    using True by (simp add: min_def)
next
  case False
  then have "slot_items T a s i m = slot_items T a s i j @ slot_items T a s j m"
    using \<open>i \<le> j\<close> by (intro slot_items_split) simp_all
  with False show ?thesis
    by (simp add: min_def)
qed

text \<open>The slot at which a wrapped log turns back to slot 0 under the window size \<open>w\<close>.\<close>

definition turning_slot :: "u64 \<Rightarrow> ring_index \<Rightarrow> nat" where
  "turning_slot w idx = (if w \<noteq> 0 \<and> w \<le> idx_start idx then 2 ^ 64 else ring_mod w)"

lemma turning_slot_bounds: "unat (idx_start idx) < turning_slot w idx" "turning_slot w idx \<le> 2 ^ 64"
  using unat_lt_64 [of "idx_start idx"] ring_mod_le [of w]
  by (auto simp: turning_slot_def ring_mod_def word_le_nat_alt)

lemma data_wrapped_upgraded:
  assumes "idx_end (datalogidx_get a s) < idx_start (datalogidx_get a s)"
    and "w = 0 \<or> idx_end (datalogidx_get a s) < w"
  shows "datalog_data (T\<lparr>window_size := w\<rparr>) a s
    = Some (slot_items T a s (unat (idx_start (datalogidx_get a s))) (turning_slot w (datalogidx_get a s))
        @ slot_items T a s 0 (unat (idx_end (datalogidx_get a s))))"
proof (cases "w \<noteq> 0 \<and> w \<le> idx_start (datalogidx_get a s)")
  case True
  then have climb: "w \<le> idx_start (datalogidx_get a s)" "idx_end (datalogidx_get a s) < w"
    using assms(2) by simp_all
  show ?thesis
    using True by (simp add: datalog_data_def ring_for_each_climb_wrapped [OF climb] fold_collect
        turning_slot_def slot_items_def comp_def del: fold_map fold_append)
next
  case False
  then have "ring_wf w (datalogidx_get a s)"
    using assms unat_lt_64 by (auto simp: ring_wf_def ring_mod_def word_less_nat_alt word_le_nat_alt)
  with assms(1) False show ?thesis
    by (subst data_wrapped) (auto simp: turning_slot_def)
qed

text \<open>What \<open>data\<close> returns after the window size has become \<open>w\<close>.\<close>

lemma data_upgraded:
  assumes wf: "datalog_wf T s" and inv: "storage_inv T s" and log: "datalog_data T a s = Some log"
    and idx: "datalogidx_get a s = \<lparr>idx_start = b, idx_end = e\<rparr>"
    and m: "m = ring_mod (window_size T)" and n: "n = turning_slot w \<lparr>idx_start = b, idx_end = e\<rparr>"
  shows "datalog_data (T\<lparr>window_size := w\<rparr>) a s =
    (if w \<noteq> 0 \<and> w \<le> e \<and> (b < w \<or> e < b) then None
     else if b \<le> e then Some log
     else Some (take (min (m - unat b) (n - unat b)) log
       @ replicate (n - m) (item_default T) @ drop (m - unat b) log))"
proof (cases "w \<noteq> 0 \<and> w \<le> e \<and> (b < w \<or> e < b)")
  case True
  then show ?thesis
    by (simp add: datalog_data_def ring_for_each_None_iff idx)
next
  case False
  have ring: "ring_wf (window_size T) (datalogidx_get a s)"
    using wf by (simp add: datalog_wf_def)
  show ?thesis
  proof (cases "b \<le> e")
    case True
    have "e < window_size T \<or> window_size T \<le> b"
      using ring by (auto simp: ring_wf_def ring_mod_def idx word_less_nat_alt word_le_nat_alt split: if_splits)
    moreover have "e < w \<or> w \<le> b"
      using False by auto
    ultimately show ?thesis
      using True False log data_straight [of a s T] data_straight [of a s "T\<lparr>window_size := w\<rparr>"]
      by (simp add: idx)
  next
    case wrapped: False
    then have less: "idx_end (datalogidx_get a s) < idx_start (datalogidx_get a s)"
      by (simp add: idx)
    have bm: "unat b \<le> m" and bn: "unat b \<le> n" "n \<le> 2 ^ 64"
      using ring turning_slot_bounds [where idx = "datalogidx_get a s" and w = w] by (simp_all add: ring_wf_def idx m n)
    have log_eq: "log = slot_items T a s (unat b) m @ slot_items T a s 0 (unat e)"
      using log data_wrapped [OF ring less] by (simp add: idx m)
    have "datalog_data (T\<lparr>window_size := w\<rparr>) a s
        = Some (slot_items T a s (unat b) n @ slot_items T a s 0 (unat e))"
      using data_wrapped_upgraded [OF less, of w T] False wrapped by (auto simp: idx n not_le)
    then show ?thesis
      using False wrapped slot_items_resized [OF inv m [symmetric] bm bn, of a] by (simp add: log_eq)
  qed
qed

text \<open>\<open>erase\<close> returns exactly when \<open>data\<close> does: both drain the same iterator.\<close>

lemma erase_returns_iff_data:
  assumes "ensure_signed T origin = Ok a"
  shows "erase_call T origin s = None \<longleftrightarrow> datalog_data T a s = None"
proof -
  let ?idx = "datalogidx_get a s" and ?w = "window_size T"
  have "datalogidx_get a (datalog_remove a s) = ?idx"
    by (simp add: datalog_remove_def datalogidx_get_def)
  then have "erase_call T origin s = None \<longleftrightarrow>
      ring_for_each ?w (\<lambda>start. datalogitem_remove (a, start)) ?idx (snd (datalogidx_take a (datalog_remove a s))) = None"
    by (simp add: erase_call_def assms datalogidx_take_def Let_def split: option.split)
  also have "\<dots> \<longleftrightarrow> datalog_data T a s = None"
    by (simp add: datalog_data_def ring_for_each_None_iff)
  finally show ?thesis .
qed

end
