(* ===== verification/Datalog_Overflow.thy ===== *)
theory Datalog_Overflow
  imports Datalog_Storage Rust_Int
begin

text \<open>
  The datalog pallet as a build with overflow checks runs it (the \<open>dev\<close> profile, the tests
  among them): the increment \<open>*val += 1\<close> of \<open>RingBufferIndex::next\<close> panics instead of
  wrapping. The operations are those of \<open>Ring_Index\<close> and \<open>Datalog\<close>, with the panic as an
  outcome, and the theory compares the two builds.
\<close>

section \<open>The cursors\<close>

text \<open>A computation that returns a value or unwinds.\<close>

datatype 'a checked = Returned 'a | Panicked

definition ring_next_checked :: "u64 \<Rightarrow> u64 \<Rightarrow> u64 checked" where
  "ring_next_checked val win =
     (case checked_add val 1 of
        None \<Rightarrow> Panicked
      | Some val \<Rightarrow> Returned (if val = win then 0 else val))"

definition ring_add_checked :: "u64 \<Rightarrow> ring_index \<Rightarrow> (u64 \<times> ring_index) checked" where
  "ring_add_checked win self =
     (let v = idx_end self
      in (case ring_next_checked (idx_end self) win of
            Panicked \<Rightarrow> Panicked
          | Returned e \<Rightarrow>
              (let self = self\<lparr>idx_end := e\<rparr>
               in if idx_start self = idx_end self
                  then (case ring_next_checked (idx_start self) win of
                          Panicked \<Rightarrow> Panicked
                        | Returned b \<Rightarrow> Returned (v, self\<lparr>idx_start := b\<rparr>))
                  else Returned (v, self))))"

definition ring_iter_next_checked :: "u64 \<Rightarrow> ring_index \<Rightarrow> (u64 option \<times> ring_index) checked" where
  "ring_iter_next_checked win self =
     (if idx_end self = idx_start self then Returned (None, self)
      else (let u = idx_start self
            in (case ring_next_checked (idx_start self) win of
                  Panicked \<Rightarrow> Panicked
                | Returned b \<Rightarrow> Returned (Some u, self\<lparr>idx_start := b\<rparr>))))"

text \<open>A loop that drains the iterator: \<open>None\<close> when it runs forever.\<close>

partial_function (option) ring_for_each_checked ::
  "u64 \<Rightarrow> (u64 \<Rightarrow> 's \<Rightarrow> 's) \<Rightarrow> ring_index \<Rightarrow> 's \<Rightarrow> 's checked option" where
  "ring_for_each_checked win f self s =
     (case ring_iter_next_checked win self of
        Panicked \<Rightarrow> Some Panicked
      | Returned (None, self') \<Rightarrow> Some (Returned s)
      | Returned (Some u, self') \<Rightarrow> ring_for_each_checked win f self' (f u s))"

section \<open>The calls\<close>

text \<open>
  A panic in a call discards the state of the block under execution, so no state is returned
  with it.
\<close>

definition record_checked ::
  "('a, 'm, 'r, 'o, 'e) datalog_trait \<Rightarrow> 'o \<Rightarrow> 'r \<Rightarrow> ('a, 'm, 'r) datalog_state
   \<Rightarrow> ((unit, 'e dispatch_error) result \<times> ('a, 'm, 'r) datalog_state) checked" where
  "record_checked T origin rec s =
     (if \<not> size_hint T rec \<le> maximum_message_size T then Returned (Err RecordTooBig, s)
      else (case ensure_signed T origin of
        Err e \<Rightarrow> Returned (Err (Origin_error e), s)
      | Ok sender \<Rightarrow>
          (let s = datalog_remove sender s;
               (now, s) = time_now s;
               item = RingBufferItem now rec
           in (case ring_add_checked (window_size T) (datalogidx_get sender s) of
                 Panicked \<Rightarrow> Panicked
               | Returned (end_slot, idx) \<Rightarrow>
                   (let s = datalogidx_mutate sender
                          (\<lambda>_ s. (idx, datalogitem_insert (sender, end_slot) item s)) s;
                        (now, rec) = item_into item
                    in Returned (Ok (), deposit_event (NewRecord sender now rec) s))))))"

definition erase_checked ::
  "('a, 'm, 'r, 'o, 'e) datalog_trait \<Rightarrow> 'o \<Rightarrow> ('a, 'm, 'r) datalog_state
   \<Rightarrow> ((unit, 'e dispatch_error) result \<times> ('a, 'm, 'r) datalog_state) checked option" where
  "erase_checked T origin s =
     (case ensure_signed T origin of
        Err e \<Rightarrow> Some (Returned (Err (Origin_error e), s))
      | Ok sender \<Rightarrow>
          (let s = datalog_remove sender s;
               (idx, s) = datalogidx_take sender s
           in (case ring_for_each_checked (window_size T) (\<lambda>start. datalogitem_remove (sender, start)) idx s of
                 None \<Rightarrow> None
               | Some Panicked \<Rightarrow> Some Panicked
               | Some (Returned s) \<Rightarrow> Some (Returned (Ok (), deposit_event (Erased sender) s)))))"

definition data_checked ::
  "('a, 'm, 'r, 'o, 'e) datalog_trait \<Rightarrow> 'a \<Rightarrow> ('a, 'm, 'r) datalog_state
   \<Rightarrow> ('m, 'r) ring_item list checked option" where
  "data_checked T account s =
     (let idx = datalogidx_get account s
      in ring_for_each_checked (window_size T) (\<lambda>i out. out @ [datalogitem_get T (account, i) s]) idx [])"

fun run_call_checked ::
  "('a, 'm, 'r, 'o, 'e) datalog_trait \<Rightarrow> ('m, 'r, 'o) datalog_call \<Rightarrow> ('a, 'm, 'r) datalog_state
   \<Rightarrow> ('a, 'm, 'r) datalog_state checked option" where
  "run_call_checked T (Set_time t) s = Some (Returned (s\<lparr>st_clock := t\<rparr>))"
| "run_call_checked T (Call_record origin rec) s = Some (map_checked snd (record_checked T origin rec s))"
| "run_call_checked T (Call_erase origin) s = map_option (map_checked snd) (erase_checked T origin s)"

fun run_calls_checked ::
  "('a, 'm, 'r, 'o, 'e) datalog_trait \<Rightarrow> ('m, 'r, 'o) datalog_call list \<Rightarrow> ('a, 'm, 'r) datalog_state
   \<Rightarrow> ('a, 'm, 'r) datalog_state checked option" where
  "run_calls_checked T [] s = Some (Returned s)"
| "run_calls_checked T (c # cs) s =
     (case run_call_checked T c s of
        None \<Rightarrow> None
      | Some Panicked \<Rightarrow> Some Panicked
      | Some (Returned s) \<Rightarrow> run_calls_checked T cs s)"

section \<open>Where the increment overflows\<close>

lemma ring_next_checked_if: "ring_next_checked v win = (if v = - 1 then Panicked else Returned (ring_next v win))"
proof -
  have "unat v + unat (1 :: u64) < 2 ^ LENGTH(64) \<longleftrightarrow> v \<noteq> - 1"
    using unat_lt_64 [of v] unat_minus_one_word [where 'w = 64] by (auto simp: word_eq_unat_iff)
  then show ?thesis
    by (simp add: ring_next_checked_def checked_add_def ring_next_def)
qed

lemma ring_add_checked_if:
  "ring_add_checked win self =
     (if idx_end self = - 1
        \<or> ring_next (idx_end self) win = idx_start self \<and> idx_start self = - 1 then Panicked
      else Returned (ring_add win self))"
  by (auto simp: ring_add_checked_def ring_add_def ring_next_checked_if Let_def)

text \<open>Cursors inside a ring with a bound are below the greatest \<open>u64\<close>.\<close>

lemma ring_wf_below:
  assumes "ring_wf win self" "win \<noteq> 0"
  shows "idx_start self \<noteq> - 1" "idx_end self \<noteq> - 1"
  using assms unat_lt_64 [of win] by (auto simp: ring_wf_def ring_mod_def unat_minus_one_word)

lemma ring_add_checked_wf:
  "ring_wf win self \<Longrightarrow> win \<noteq> 0 \<Longrightarrow> ring_add_checked win self = Returned (ring_add win self)"
  by (simp add: ring_add_checked_if ring_wf_below)

lemma ring_for_each_checked_step:
  "idx_start self \<noteq> - 1 \<Longrightarrow> ring_for_each_checked win f self s =
     (if idx_start self = idx_end self then Some (Returned s)
      else ring_for_each_checked win f (self\<lparr>idx_start := ring_next (idx_start self) win\<rparr>) (f (idx_start self) s))"
  by (subst ring_for_each_checked.simps) (simp add: ring_iter_next_checked_def ring_next_checked_if)

lemma ring_for_each_checked_wf:
  assumes "ring_wf win self" "win \<noteq> 0"
  shows "ring_for_each_checked win f self s = map_option Returned (ring_for_each win f self s)"
  using assms
proof (induction "ring_len win self" arbitrary: self s)
  case 0
  then have "idx_start self = idx_end self"
    using ring_len_0_iff by metis
  then show ?case
    using ring_wf_below [OF 0(2,3)] by (simp add: ring_for_each_checked_step ring_for_each_step [of win f self])
next
  case (Suc n)
  let ?self = "self\<lparr>idx_start := ring_next (idx_start self) win\<rparr>"
  have ne: "idx_start self \<noteq> idx_end self"
    using Suc.hyps(2) ring_len_0_iff [OF Suc.prems(1)] by auto
  have "n = ring_len win ?self"
    using Suc.hyps(2) ring_len_advance_start [OF Suc.prems(1) ne] by simp
  moreover have "ring_wf win ?self"
    using Suc.prems by (simp add: ring_wf_def ring_next_less)
  ultimately have "ring_for_each_checked win f ?self (f (idx_start self) s)
      = map_option Returned (ring_for_each win f ?self (f (idx_start self) s))"
    using Suc.prems(2) by (rule Suc.hyps(1))
  with ne show ?case
    using ring_wf_below [OF Suc.prems]
    by (simp add: ring_for_each_checked_step ring_for_each_step [of win f self])
qed

section \<open>The two builds\<close>

lemma datalogidx_get_remove:
  "datalogidx_get a (datalog_remove b s) = datalogidx_get a s"
  "datalogidx_get a (snd (time_now s)) = datalogidx_get a s"
  by (simp_all add: datalog_remove_def time_now_def datalogidx_get_def)

text \<open>\<open>record\<close> with overflow checks: as without, except for the panics of \<open>add\<close>.\<close>

lemma record_checked_eq:
  "record_checked T origin rec s =
     (case (size_hint T rec \<le> maximum_message_size T, ensure_signed T origin) of
        (True, Ok a) \<Rightarrow>
          (case ring_add_checked (window_size T) (datalogidx_get a s) of
             Panicked \<Rightarrow> Panicked
           | Returned _ \<Rightarrow> Returned (record_call T origin rec s))
      | _ \<Rightarrow> Returned (record_call T origin rec s))"
proof (cases "size_hint T rec \<le> maximum_message_size T \<and> is_ok (ensure_signed T origin)")
  case False
  then show ?thesis
    by (cases "ensure_signed T origin") (auto simp: record_checked_def record_call_def)
next
  case True
  then obtain a where a: "ensure_signed T origin = Ok a"
    by (cases "ensure_signed T origin") auto
  show ?thesis
    using True by (simp add: record_checked_def record_call_def a datalogidx_get_remove ring_add_checked_if
        datalogidx_mutate_def Let_def case_prod_beta)
qed

lemma record_checked_wf:
  assumes "datalog_wf T s" "window_size T \<noteq> 0"
  shows "record_checked T origin rec s = Returned (record_call T origin rec s)"
  using assms by (simp add: record_checked_eq ring_add_checked_wf datalog_wf_def split: bool.split result.split)

lemma erase_checked_wf:
  assumes "datalog_wf T s" "window_size T \<noteq> 0"
  shows "erase_checked T origin s = map_option Returned (erase_call T origin s)"
  using assms
  by (simp add: erase_checked_def erase_call_def datalogidx_take_def datalogidx_get_remove Let_def
      ring_for_each_checked_wf datalog_wf_def option.map_comp split: result.split option.split)

lemma data_checked_wf:
  assumes "datalog_wf T s" "window_size T \<noteq> 0"
  shows "data_checked T a s = map_option Returned (datalog_data T a s)"
  using assms by (simp add: data_checked_def datalog_data_def ring_for_each_checked_wf datalog_wf_def)

lemma run_calls_checked_wf:
  assumes "datalog_wf T s" "window_size T \<noteq> 0"
  shows "run_calls_checked T cs s = map_option Returned (run_calls T cs s)"
  using assms(1)
proof (induction cs arbitrary: s)
  case Nil
  then show ?case by simp
next
  case (Cons c cs)
  have "run_call_checked T c s = map_option Returned (run_call T c s)"
    by (cases c) (simp_all add: record_checked_wf erase_checked_wf Cons.prems assms(2) option.map_comp comp_def)
  moreover obtain s' where "run_call T c s = Some s'" "datalog_wf T s'"
    using run_call_refines [OF Cons.prems] by blast
  ultimately show ?case
    using Cons.IH by simp
qed

text \<open>Without a bound the checked build stops at the last \<open>u64\<close>.\<close>

lemma record_checked_panics_iff:
  assumes "datalog_wf T s"
  shows "record_checked T origin rec s = Panicked \<longleftrightarrow>
    size_hint T rec \<le> maximum_message_size T \<and> window_size T = 0
    \<and> (\<exists>a. ensure_signed T origin = Ok a
         \<and> (idx_end (datalogidx_get a s) = - 1
            \<or> idx_end (datalogidx_get a s) = - 2 \<and> idx_start (datalogidx_get a s) = - 1))"
proof -
  have "ring_next v 0 = - 1 \<longleftrightarrow> v = - 2" for v :: u64
  proof -
    have "ring_next v 0 = v + 1"
      by (simp add: ring_next_def)
    then show ?thesis
      by (auto simp: eq_diff_eq [symmetric])
  qed
  then show ?thesis
    using ring_wf_below [of "window_size T"] assms
    by (cases "ensure_signed T origin"; cases "window_size T = 0")
      (auto simp: record_checked_eq ring_add_checked_if datalog_wf_def split: bool.split)
qed

end
