(* ===== verification/Datalog_Bytes.thy ===== *)
theory Datalog_Bytes
  imports Datalog_Storage Datalog_Codec
begin

text \<open>
  The datalog pallet over the storage a node keeps: one map from byte strings to byte strings,
  which all pallets share. \<open>decl_storage!\<close> gives each of the pallet's maps a prefix, made of
  the hashed names of the module and the map, and appends the hashed and the plain encoding of
  the entry's key. The theory translates \<open>record\<close>, \<open>erase\<close> and \<open>data\<close> to that store and shows
  that they refine the operations of \<open>Datalog\<close> on typed maps. The events and the clock are in
  the same store, under keys of the modules \<open>System\<close> and \<open>Timestamp\<close>: the calls reach them
  through \<open>frame_system\<close> and the timestamp pallet, whose code is not in the repository and is
  an argument of the definitions, as are the hash functions and the codecs of the field types.
\<close>

section \<open>Keys\<close>

record hashers =
  blake2_128 :: "u8 list \<Rightarrow> u8 list"
  twox_64 :: "u8 list \<Rightarrow> u8 list"
  twox_128 :: "u8 list \<Rightarrow> u8 list"

record ('a, 'm, 'r) field_codecs =
  account_codec :: "'a codec"
  u64_codec :: "u64 codec"
  compact_u64 :: "u64 codec"
  compact_moment :: "'m codec"
  record_codec :: "'r codec"
  old_codec :: "('m \<times> 'r) list codec"

text \<open>
  What is documented of them: the hashes have fixed lengths, the hashed names of the three
  maps differ, and so do those of the modules; the codecs of keys and fields decode what they
  encode.
\<close>

definition hashers_documented :: "hashers \<Rightarrow> bool" where
  "hashers_documented H \<longleftrightarrow>
     (\<forall>x. length (blake2_128 H x) = 16 \<and> length (twox_64 H x) = 8 \<and> length (twox_128 H x) = 16)
     \<and> distinct (map (\<lambda>name. twox_128 H (bytes_of name)) [''Datalog'', ''DatalogIndex'', ''DatalogItem''])
     \<and> distinct (map (\<lambda>name. twox_128 H (bytes_of name)) [''Datalog'', ''System'', ''Timestamp''])"

definition codecs_documented :: "('a, 'm, 'r) field_codecs \<Rightarrow> bool" where
  "codecs_documented E \<longleftrightarrow>
     codec_law (account_codec E) \<and> codec_law (u64_codec E) \<and> codec_law (compact_u64 E)
     \<and> codec_law (compact_moment E) \<and> codec_law (record_codec E)"

text \<open>
  The key of a storage value, the prefix of a map of the module \<open>Datalog\<close>, and the hashers
  that keep the key in clear.
\<close>

definition value_key :: "hashers \<Rightarrow> string \<Rightarrow> string \<Rightarrow> u8 list" where
  "value_key H module name = twox_128 H (bytes_of module) @ twox_128 H (bytes_of name)"

definition map_prefix :: "hashers \<Rightarrow> string \<Rightarrow> u8 list" where
  "map_prefix H name = value_key H ''Datalog'' name"

definition blake2_128_concat :: "hashers \<Rightarrow> u8 list \<Rightarrow> u8 list" where
  "blake2_128_concat H x = blake2_128 H x @ x"

definition twox_64_concat :: "hashers \<Rightarrow> u8 list \<Rightarrow> u8 list" where
  "twox_64_concat H x = twox_64 H x @ x"

definition old_key :: "('a, 'm, 'r) field_codecs \<Rightarrow> hashers \<Rightarrow> 'a \<Rightarrow> u8 list" where
  "old_key E H account = map_prefix H ''Datalog'' @ blake2_128_concat H (encode (account_codec E) account)"

definition index_key :: "('a, 'm, 'r) field_codecs \<Rightarrow> hashers \<Rightarrow> 'a \<Rightarrow> u8 list" where
  "index_key E H account = map_prefix H ''DatalogIndex'' @ twox_64_concat H (encode (account_codec E) account)"

definition item_key :: "('a, 'm, 'r) field_codecs \<Rightarrow> hashers \<Rightarrow> 'a \<times> u64 \<Rightarrow> u8 list" where
  "item_key E H key =
     map_prefix H ''DatalogItem''
     @ twox_64_concat H (encode (account_codec E) (fst key) @ encode (u64_codec E) (snd key))"

text \<open>
  The keys under the prefix of a module, and those two of \<open>System\<close> that depositing an event
  writes: both are in the whitelist of the runtime's benchmarks.
\<close>

definition module_key :: "hashers \<Rightarrow> string \<Rightarrow> u8 list \<Rightarrow> bool" where
  "module_key H name key \<longleftrightarrow> take 16 key = twox_128 H (bytes_of name)"

definition event_key :: "hashers \<Rightarrow> u8 list \<Rightarrow> bool" where
  "event_key H key \<longleftrightarrow> key = value_key H ''System'' ''Events'' \<or> key = value_key H ''System'' ''EventCount''"

lemmas key_defs = old_key_def index_key_def item_key_def map_prefix_def value_key_def blake2_128_concat_def twox_64_concat_def

lemma keys_in_module [simp]:
  assumes "hashers_documented H"
  shows "module_key H ''Datalog'' (old_key E H a)" "module_key H ''Datalog'' (index_key E H a)"
    "module_key H ''Datalog'' (item_key E H k)"
  using assms by (simp_all add: module_key_def key_defs hashers_documented_def)

lemma event_key_module: "hashers_documented H \<Longrightarrow> event_key H key \<Longrightarrow> module_key H ''System'' key"
  by (auto simp: event_key_def module_key_def value_key_def hashers_documented_def)

lemma modules_disjoint:
  assumes "hashers_documented H"
  shows "module_key H ''Datalog'' key \<Longrightarrow> \<not> module_key H ''System'' key \<and> \<not> module_key H ''Timestamp'' key"
    "module_key H ''System'' key \<Longrightarrow> \<not> module_key H ''Timestamp'' key"
  using assms by (auto simp: module_key_def hashers_documented_def)

text \<open>No two entries share a key, within a map or across the maps.\<close>

lemma keys_disjoint:
  assumes "hashers_documented H"
  shows "index_key E H a \<noteq> item_key E H k" "old_key E H a \<noteq> index_key E H b" "old_key E H a \<noteq> item_key E H k"
  using assms by (simp_all add: key_defs hashers_documented_def)

lemma keys_injective:
  assumes "hashers_documented H" "codecs_documented E"
  shows "old_key E H a = old_key E H b \<longleftrightarrow> a = b" "index_key E H a = index_key E H b \<longleftrightarrow> a = b"
    "item_key E H k = item_key E H k' \<longleftrightarrow> k = k'"
  using assms
  by (auto simp: key_defs hashers_documented_def codecs_documented_def codec_inj_iff codec_append_inj prod_eq_iff)

section \<open>The store\<close>

type_synonym byte_store = "u8 list \<rightharpoonup> u8 list"

definition byte_get :: "'v codec \<Rightarrow> 'v \<Rightarrow> u8 list \<Rightarrow> byte_store \<Rightarrow> 'v" where
  "byte_get C def key b = raw_get C def (b key)"

definition byte_put :: "'v codec \<Rightarrow> u8 list \<Rightarrow> 'v \<Rightarrow> byte_store \<Rightarrow> byte_store" where
  "byte_put C key v b = b(key \<mapsto> encode C v)"

definition byte_kill :: "u8 list \<Rightarrow> byte_store \<Rightarrow> byte_store" where
  "byte_kill key b = b(key := None)"

text \<open>
  What the other pallets do to the store for this one: \<open>frame_system\<close> starts a block and
  deposits an event (as the runtime's own event), the timestamp pallet keeps the clock. The
  pallet's events of the current block and the number of events the block still takes are
  read off the store.
\<close>

record ('a, 'm, 'r) host_pallets =
  start_block :: "byte_store \<Rightarrow> byte_store"
  deposit :: "('a, 'm, 'r) datalog_event \<Rightarrow> byte_store \<Rightarrow> byte_store"
  block_events :: "byte_store \<Rightarrow> ('a, 'm, 'r) datalog_event list"
  events_left :: "byte_store \<Rightarrow> nat"
  now_get :: "byte_store \<Rightarrow> 'm"
  now_put :: "'m \<Rightarrow> byte_store \<Rightarrow> byte_store"

text \<open>
  What is documented of them: a block starts with no events, and neither its start nor an
  event changes another module's entries; an event is appended to those of the block as long
  as the block's count of events, a \<open>u32\<close>, takes it, and writes the events and their count
  alone; the clock reads what was last set, under keys of its own module.
\<close>

definition host_documented :: "hashers \<Rightarrow> ('a, 'm, 'r) host_pallets \<Rightarrow> bool" where
  "host_documented H X \<longleftrightarrow>
     (\<forall>b. block_events X (start_block X b) = [] \<and> events_left X (start_block X b) = 2 ^ 32 - 1)
     \<and> (\<forall>b key. module_key H ''Datalog'' key \<or> module_key H ''Timestamp'' key \<longrightarrow> start_block X b key = b key)
     \<and> (\<forall>e b. 0 < events_left X b \<longrightarrow>
          block_events X (deposit X e b) = block_events X b @ [e] \<and> events_left X (deposit X e b) = events_left X b - 1)
     \<and> (\<forall>e b key. \<not> event_key H key \<longrightarrow> deposit X e b key = b key)
     \<and> (\<forall>b b'. (\<forall>key. module_key H ''System'' key \<longrightarrow> b key = b' key)
          \<longrightarrow> block_events X b = block_events X b' \<and> events_left X b = events_left X b')
     \<and> (\<forall>t b. now_get X (now_put X t b) = t)
     \<and> (\<forall>t b key. \<not> module_key H ''Timestamp'' key \<longrightarrow> now_put X t b key = b key)
     \<and> (\<forall>b b'. (\<forall>key. module_key H ''Timestamp'' key \<longrightarrow> b key = b' key) \<longrightarrow> now_get X b = now_get X b')"

lemma host_events:
  assumes "host_documented H X"
  shows "block_events X (start_block X b) = []" "events_left X (start_block X b) = 2 ^ 32 - 1"
    "0 < events_left X b \<Longrightarrow> block_events X (deposit X e b) = block_events X b @ [e]"
    "0 < events_left X b \<Longrightarrow> events_left X (deposit X e b) = events_left X b - 1"
    "now_get X (now_put X t b) = t"
  using assms unfolding host_documented_def by blast+

lemma host_frames:
  assumes "host_documented H X"
  shows "module_key H ''Datalog'' key \<Longrightarrow> start_block X b key = b key"
    "module_key H ''Timestamp'' key \<Longrightarrow> start_block X b key = b key"
    "\<not> event_key H key \<Longrightarrow> deposit X e b key = b key"
    "\<not> module_key H ''Timestamp'' key \<Longrightarrow> now_put X t b key = b key"
  using assms unfolding host_documented_def by blast+

lemma host_reads:
  assumes "host_documented H X"
  shows "(\<And>key. module_key H ''System'' key \<Longrightarrow> b key = b' key) \<Longrightarrow> block_events X b = block_events X b'"
    "(\<And>key. module_key H ''System'' key \<Longrightarrow> b key = b' key) \<Longrightarrow> events_left X b = events_left X b'"
    "(\<And>key. module_key H ''Timestamp'' key \<Longrightarrow> b key = b' key) \<Longrightarrow> now_get X b = now_get X b'"
  using assms unfolding host_documented_def by blast+

text \<open>Accesses to the pallet's own entries leave the events and the clock.\<close>

lemma host_own_keys [simp]:
  assumes "hashers_documented H" "host_documented H X" "module_key H ''Datalog'' key"
  shows "block_events X (byte_put C key v b) = block_events X b" "events_left X (byte_put C key v b) = events_left X b"
    "now_get X (byte_put C key v b) = now_get X b"
    "block_events X (byte_kill key b) = block_events X b" "events_left X (byte_kill key b) = events_left X b"
    "now_get X (byte_kill key b) = now_get X b"
  using modules_disjoint(1) [OF assms(1,3)]
  by (auto simp: byte_put_def byte_kill_def intro!: host_reads [OF assms(2)])

lemma host_other_modules:
  assumes "hashers_documented H" "host_documented H X"
  shows "block_events X (now_put X t b) = block_events X b" "events_left X (now_put X t b) = events_left X b"
    "now_get X (deposit X e b) = now_get X b" "now_get X (start_block X b) = now_get X b"
  using modules_disjoint(2) [OF assms(1)] event_key_module [OF assms(1)]
  by (auto intro!: host_reads [OF assms(2)] host_frames [OF assms(2)])

section \<open>The calls\<close>

definition byte_index :: "('a, 'm, 'r) field_codecs \<Rightarrow> hashers \<Rightarrow> 'a \<Rightarrow> byte_store \<Rightarrow> ring_index" where
  "byte_index E H account b = byte_get (index_codec (compact_u64 E)) ring_default (index_key E H account) b"

definition record_bytes ::
  "('a, 'm, 'r, 'o, 'e) datalog_trait \<Rightarrow> ('a, 'm, 'r) field_codecs \<Rightarrow> hashers \<Rightarrow> ('a, 'm, 'r) host_pallets \<Rightarrow> 'o \<Rightarrow> 'r
   \<Rightarrow> byte_store \<Rightarrow> (unit, 'e dispatch_error) result \<times> byte_store" where
  "record_bytes T E H X origin rec b =
     (if \<not> size_hint T rec \<le> maximum_message_size T then (Err RecordTooBig, b)
      else (case ensure_signed T origin of
        Err e \<Rightarrow> (Err (Origin_error e), b)
      | Ok sender \<Rightarrow>
          (let b = byte_kill (old_key E H sender) b;
               now = now_get X b;
               item = RingBufferItem now rec;
               idx = byte_index E H sender b;
               (end_slot, idx) = ring_add (window_size T) idx;
               b = byte_put (item_codec (compact_moment E) (record_codec E)) (item_key E H (sender, end_slot)) item b;
               b = byte_put (index_codec (compact_u64 E)) (index_key E H sender) idx b;
               (now, rec) = item_into item
           in (Ok (), deposit X (NewRecord sender now rec) b))))"

definition erase_bytes ::
  "('a, 'm, 'r, 'o, 'e) datalog_trait \<Rightarrow> ('a, 'm, 'r) field_codecs \<Rightarrow> hashers \<Rightarrow> ('a, 'm, 'r) host_pallets \<Rightarrow> 'o
   \<Rightarrow> byte_store \<Rightarrow> ((unit, 'e dispatch_error) result \<times> byte_store) option" where
  "erase_bytes T E H X origin b =
     (case ensure_signed T origin of
        Err e \<Rightarrow> Some (Err (Origin_error e), b)
      | Ok sender \<Rightarrow>
          (let b = byte_kill (old_key E H sender) b;
               idx = byte_index E H sender b;
               b = byte_kill (index_key E H sender) b
           in (case ring_for_each (window_size T) (\<lambda>start. byte_kill (item_key E H (sender, start))) idx b of
                 None \<Rightarrow> None
               | Some b \<Rightarrow> Some (Ok (), deposit X (Erased sender) b))))"

definition data_bytes ::
  "('a, 'm, 'r, 'o, 'e) datalog_trait \<Rightarrow> ('a, 'm, 'r) field_codecs \<Rightarrow> hashers \<Rightarrow> 'a
   \<Rightarrow> byte_store \<Rightarrow> ('m, 'r) ring_item list option" where
  "data_bytes T E H account b =
     (let idx = byte_index E H account b
      in ring_for_each (window_size T)
           (\<lambda>i out. out @ [byte_get (item_codec (compact_moment E) (record_codec E)) (item_default T)
                             (item_key E H (account, i)) b]) idx [])"

text \<open>A call of a block, a block (started by \<open>frame_system\<close>, then its calls), and a chain of blocks.\<close>

fun run_call_bytes ::
  "('a, 'm, 'r, 'o, 'e) datalog_trait \<Rightarrow> ('a, 'm, 'r) field_codecs \<Rightarrow> hashers \<Rightarrow> ('a, 'm, 'r) host_pallets
   \<Rightarrow> ('m, 'r, 'o) datalog_call \<Rightarrow> byte_store \<Rightarrow> byte_store option" where
  "run_call_bytes T E H X (Set_time t) b = Some (now_put X t b)"
| "run_call_bytes T E H X (Call_record origin rec) b = Some (snd (record_bytes T E H X origin rec b))"
| "run_call_bytes T E H X (Call_erase origin) b = map_option snd (erase_bytes T E H X origin b)"

fun run_calls_bytes ::
  "('a, 'm, 'r, 'o, 'e) datalog_trait \<Rightarrow> ('a, 'm, 'r) field_codecs \<Rightarrow> hashers \<Rightarrow> ('a, 'm, 'r) host_pallets
   \<Rightarrow> ('m, 'r, 'o) datalog_call list \<Rightarrow> byte_store \<Rightarrow> byte_store option" where
  "run_calls_bytes T E H X [] b = Some b"
| "run_calls_bytes T E H X (c # cs) b = Option.bind (run_call_bytes T E H X c b) (run_calls_bytes T E H X cs)"

fun run_blocks_bytes ::
  "('a, 'm, 'r, 'o, 'e) datalog_trait \<Rightarrow> ('a, 'm, 'r) field_codecs \<Rightarrow> hashers \<Rightarrow> ('a, 'm, 'r) host_pallets
   \<Rightarrow> ('m, 'r, 'o) datalog_call list list \<Rightarrow> byte_store \<Rightarrow> byte_store option" where
  "run_blocks_bytes T E H X [] b = Some b"
| "run_blocks_bytes T E H X (cs # blocks) b =
     Option.bind (run_calls_bytes T E H X cs (start_block X b)) (run_blocks_bytes T E H X blocks)"

section \<open>What a store represents\<close>

text \<open>
  The store holds the encoding of every entry under its key, and nothing for an absent one;
  its clock is the state's, and its events are the last of the state's: those of the current
  block, after the events \<open>before\<close> of earlier blocks.
\<close>

definition represents ::
  "('a, 'm, 'r) field_codecs \<Rightarrow> hashers \<Rightarrow> ('a, 'm, 'r) host_pallets \<Rightarrow> ('a, 'm, 'r) datalog_event list
   \<Rightarrow> byte_store \<Rightarrow> ('a, 'm, 'r) datalog_state \<Rightarrow> bool" where
  "represents E H X before b s \<longleftrightarrow>
     (\<forall>a. b (old_key E H a) = map_option (encode (old_codec E)) (st_datalog s a))
     \<and> (\<forall>a. b (index_key E H a) = map_option (encode (index_codec (compact_u64 E))) (st_index s a))
     \<and> (\<forall>k. b (item_key E H k) = map_option (encode (item_codec (compact_moment E) (record_codec E))) (st_item s k))
     \<and> st_events s = before @ block_events X b \<and> st_clock s = now_get X b"

text \<open>A store without an entry of the module represents the first state of a chain.\<close>

lemma represents_genesis:
  assumes "hashers_documented H" "\<forall>key. module_key H ''Datalog'' key \<longrightarrow> b key = None" "block_events X b = []"
  shows "represents E H X [] b (datalog_genesis (now_get X b))"
  using assms by (simp add: represents_def datalog_genesis_def)

lemma byte_index_eq:
  assumes "codecs_documented E" "represents E H X before b s"
  shows "byte_index E H a b = datalogidx_get a s"
  using assms
  by (simp add: byte_index_def byte_get_def represents_def raw_get_encode index_codec_law codecs_documented_def
      datalogidx_get_def)

lemma byte_item_eq:
  assumes "codecs_documented E" "represents E H X before b s"
  shows "byte_get (item_codec (compact_moment E) (record_codec E)) (item_default T) (item_key E H k) b
    = datalogitem_get T k s"
  using assms
  by (simp add: byte_get_def represents_def raw_get_encode item_codec_law codecs_documented_def datalogitem_get_def
      del: split_paired_All)

text \<open>The hypotheses on the parameters, together.\<close>

definition documented :: "('a, 'm, 'r) field_codecs \<Rightarrow> hashers \<Rightarrow> ('a, 'm, 'r) host_pallets \<Rightarrow> bool" where
  "documented E H X \<longleftrightarrow> hashers_documented H \<and> codecs_documented E \<and> host_documented H X"

lemma documentedD:
  assumes "documented E H X"
  shows "hashers_documented H" "codecs_documented E" "host_documented H X"
  using assms by (simp_all add: documented_def)

text \<open>What the host's accesses leave of the pallet's entries.\<close>

lemma host_keeps_entries:
  assumes "documented E H X"
  shows "deposit X e b (old_key E H a) = b (old_key E H a)" "deposit X e b (index_key E H a) = b (index_key E H a)"
    "deposit X e b (item_key E H k) = b (item_key E H k)"
    "now_put X t b (old_key E H a) = b (old_key E H a)" "now_put X t b (index_key E H a) = b (index_key E H a)"
    "now_put X t b (item_key E H k) = b (item_key E H k)"
    "start_block X b (old_key E H a) = b (old_key E H a)" "start_block X b (index_key E H a) = b (index_key E H a)"
    "start_block X b (item_key E H k) = b (item_key E H k)"
proof -
  note doc = documentedD [OF assms]
  have "\<not> event_key H key \<and> \<not> module_key H ''Timestamp'' key" if "module_key H ''Datalog'' key" for key
    using modules_disjoint(1) [OF doc(1) that] event_key_module [OF doc(1)] by blast
  then show "deposit X e b (old_key E H a) = b (old_key E H a)" "deposit X e b (index_key E H a) = b (index_key E H a)"
    "deposit X e b (item_key E H k) = b (item_key E H k)"
    "now_put X t b (old_key E H a) = b (old_key E H a)" "now_put X t b (index_key E H a) = b (index_key E H a)"
    "now_put X t b (item_key E H k) = b (item_key E H k)"
    "start_block X b (old_key E H a) = b (old_key E H a)" "start_block X b (index_key E H a) = b (index_key E H a)"
    "start_block X b (item_key E H k) = b (item_key E H k)"
    using doc(1) by (simp_all add: host_frames [OF doc(3)])
qed

text \<open>Each access to the store does what the access to the typed map does.\<close>

lemmas access_defs = byte_kill_def byte_put_def datalog_remove_def
  datalogitem_insert_def datalogitem_remove_def deposit_event_def

lemma represents_accesses:
  assumes doc: "documented E H X" and rep: "represents E H X before b s"
  shows "represents E H X before (byte_kill (old_key E H a) b) (datalog_remove a s)"
    and "represents E H X before (byte_put (item_codec (compact_moment E) (record_codec E)) (item_key E H k) item b)
      (datalogitem_insert k item s)"
    and "represents E H X before (byte_kill (item_key E H k) b) (datalogitem_remove k s)"
    and "represents E H X before (byte_put (index_codec (compact_u64 E)) (index_key E H a) idx b)
      (s\<lparr>st_index := (st_index s)(a := Some idx), st_writes := w\<rparr>)"
    and "represents E H X before (byte_kill (index_key E H a) b)
      (s\<lparr>st_index := (st_index s)(a := None), st_reads := n, st_writes := w\<rparr>)"
    and "represents E H X before b (s\<lparr>st_reads := n\<rparr>)"
proof -
  note docs = documentedD [OF doc]
  note host = host_own_keys [OF docs(1,3)]
  show "represents E H X before (byte_kill (old_key E H a) b) (datalog_remove a s)"
    "represents E H X before (byte_put (item_codec (compact_moment E) (record_codec E)) (item_key E H k) item b)
      (datalogitem_insert k item s)"
    "represents E H X before (byte_kill (item_key E H k) b) (datalogitem_remove k s)"
    "represents E H X before (byte_put (index_codec (compact_u64 E)) (index_key E H a) idx b)
      (s\<lparr>st_index := (st_index s)(a := Some idx), st_writes := w\<rparr>)"
    "represents E H X before (byte_kill (index_key E H a) b)
      (s\<lparr>st_index := (st_index s)(a := None), st_reads := n, st_writes := w\<rparr>)"
    "represents E H X before b (s\<lparr>st_reads := n\<rparr>)"
    using rep docs(1) unfolding represents_def
    by (simp_all add: host del: split_paired_All)
      (simp_all add: access_defs keys_disjoint [OF docs(1)] keys_disjoint [OF docs(1), symmetric]
        keys_injective [OF docs(1,2)] del: split_paired_All)
qed

lemma represents_host:
  assumes doc: "documented E H X" and rep: "represents E H X before b s"
  shows "0 < events_left X b \<Longrightarrow> represents E H X before (deposit X e b) (deposit_event e s)"
    and "represents E H X before (now_put X t b) (s\<lparr>st_clock := t\<rparr>)"
    and "represents E H X (st_events s) (start_block X b) s"
  using rep documentedD [OF doc]
  by (simp_all add: represents_def host_keeps_entries [OF doc] host_events host_other_modules deposit_event_def
      del: split_paired_All)

section \<open>The calls refine those on typed maps\<close>

text \<open>The results agree in any state; the stores do as long as the block takes another event.\<close>

lemma record_bytes_refines:
  assumes doc: "documented E H X" and rep: "represents E H X before b s"
  shows "fst (record_bytes T E H X origin rec b) = fst (record_call T origin rec s)"
    and "0 < events_left X b \<Longrightarrow>
      represents E H X before (snd (record_bytes T E H X origin rec b)) (snd (record_call T origin rec s))"
    and "events_left X b \<le> Suc (events_left X (snd (record_bytes T E H X origin rec b))) \<or> events_left X b = 0"
proof -
  have "fst (record_bytes T E H X origin rec b) = fst (record_call T origin rec s)
    \<and> (0 < events_left X b \<longrightarrow>
      represents E H X before (snd (record_bytes T E H X origin rec b)) (snd (record_call T origin rec s))
      \<and> events_left X b \<le> Suc (events_left X (snd (record_bytes T E H X origin rec b))))"
  proof (cases "size_hint T rec \<le> maximum_message_size T \<and> is_ok (ensure_signed T origin)")
    case False
    with rep show ?thesis
      by (cases "ensure_signed T origin") (auto simp: record_bytes_def record_call_def)
  next
    case True
    then obtain a where a: "ensure_signed T origin = Ok a"
      by (cases "ensure_signed T origin") auto
    note acc = represents_accesses [OF doc] and docs = documentedD [OF doc]
    let ?b1 = "byte_kill (old_key E H a) b" and ?s1 = "datalog_remove a s"
    obtain v idx where add: "ring_add (window_size T) (datalogidx_get a ?s1) = (v, idx)"
      by fastforce
    let ?item = "RingBufferItem (st_clock s) rec" and ?event = "NewRecord a (st_clock s) rec"
    let ?b2 = "byte_put (item_codec (compact_moment E) (record_codec E)) (item_key E H (a, v)) ?item ?b1"
    let ?s2 = "datalogitem_insert (a, v) ?item (?s1\<lparr>st_reads := st_reads ?s1 + 1, st_reads := st_reads ?s1 + 2\<rparr>)"
    let ?b3 = "byte_put (index_codec (compact_u64 E)) (index_key E H a) idx ?b2"
    let ?s3 = "?s2\<lparr>st_index := (st_index ?s2)(a := Some idx), st_writes := st_writes ?s2 + 1\<rparr>"
    have rep1: "represents E H X before ?b1 ?s1"
      using rep by (rule acc)
    then have rep3: "represents E H X before ?b3 ?s3"
      by (intro acc(2,4,6))
    have left: "events_left X ?b3 = events_left X b"
      by (simp add: host_own_keys [OF docs(1,3)] docs(1))
    have "now_get X ?b1 = st_clock s" "st_clock ?s1 = st_clock s"
      using rep docs(1) by (simp_all add: host_own_keys [OF docs(1,3)] represents_def datalog_remove_def)
    moreover have "byte_index E H a ?b1 = datalogidx_get a ?s1"
      using docs(2) rep1 by (rule byte_index_eq)
    ultimately have run: "record_bytes T E H X origin rec b = (Ok (), deposit X ?event ?b3)"
      and "record_call T origin rec s = (Ok (), deposit_event ?event ?s3)"
      using True add
      by (simp_all add: record_bytes_def record_call_def a time_now_def datalogidx_mutate_def datalogidx_get_def Let_def)
    moreover have "represents E H X before (deposit X ?event ?b3) (deposit_event ?event ?s3)
        \<and> events_left X b \<le> Suc (events_left X (deposit X ?event ?b3))" if "0 < events_left X b"
      using represents_host(1) [OF doc rep3] host_events(4) [OF docs(3), of ?b3 ?event] that by (simp add: left)
    ultimately show ?thesis by simp
  qed
  then show "fst (record_bytes T E H X origin rec b) = fst (record_call T origin rec s)"
    "0 < events_left X b \<Longrightarrow>
      represents E H X before (snd (record_bytes T E H X origin rec b)) (snd (record_call T origin rec s))"
    "events_left X b \<le> Suc (events_left X (snd (record_bytes T E H X origin rec b))) \<or> events_left X b = 0"
    by auto
qed

lemma represents_fold_kill:
  assumes "documented E H X" "represents E H X before b s"
  shows "represents E H X before (fold (\<lambda>u. byte_kill (item_key E H (a, u))) us b)
      (fold (\<lambda>u. datalogitem_remove (a, u)) us s)
    \<and> events_left X (fold (\<lambda>u. byte_kill (item_key E H (a, u))) us b) = events_left X b"
  using assms(2)
proof (induction us arbitrary: b s)
  case Nil
  then show ?case by simp
next
  case (Cons u us)
  note docs = documentedD [OF assms(1)]
  have "represents E H X before (byte_kill (item_key E H (a, u)) b) (datalogitem_remove (a, u) s)"
    using represents_accesses(3) [OF assms(1) Cons.prems] .
  from Cons.IH [OF this] show ?case
    using docs(1) by (simp add: host_own_keys [OF docs(1,3)])
qed

lemma erase_bytes_refines:
  assumes doc: "documented E H X" and rep: "represents E H X before b s" and wf: "datalog_wf T s"
  shows "\<exists>res b' s'. erase_bytes T E H X origin b = Some (res, b') \<and> erase_call T origin s = Some (res, s')
    \<and> (0 < events_left X b \<longrightarrow> represents E H X before b' s' \<and> events_left X b \<le> Suc (events_left X b'))"
proof (cases "ensure_signed T origin")
  case (Err e)
  with rep show ?thesis
    by (simp add: erase_bytes_def erase_call_def)
next
  case (Ok a)
  note acc = represents_accesses [OF doc] and docs = documentedD [OF doc]
  let ?b1 = "byte_kill (old_key E H a) b" and ?s1 = "datalog_remove a s"
  let ?s2 = "snd (datalogidx_take a ?s1)" and ?b2 = "byte_kill (index_key E H a) ?b1"
  have rep1: "represents E H X before ?b1 ?s1"
    using rep by (rule acc)
  then have rep2: "represents E H X before ?b2 ?s2"
    unfolding datalogidx_take_def snd_conv by (rule acc)
  have idx: "byte_index E H a ?b1 = datalogidx_get a s" "fst (datalogidx_take a ?s1) = datalogidx_get a s"
    using byte_index_eq [OF docs(2) rep1, of a]
    by (simp_all add: datalogidx_take_def datalog_remove_def datalogidx_get_def)
  have "ring_wf (window_size T) (datalogidx_get a s)"
    using wf by (simp add: datalog_wf_def)
  note loop = ring_for_each_wf [OF this]
  let ?us = "ring_slots (window_size T) (datalogidx_get a s)"
  let ?b3 = "fold (\<lambda>u. byte_kill (item_key E H (a, u))) ?us ?b2"
  let ?s3 = "fold (\<lambda>u. datalogitem_remove (a, u)) ?us ?s2"
  have "erase_bytes T E H X origin b = Some (Ok (), deposit X (Erased a) ?b3)"
    by (simp add: erase_bytes_def Ok idx(1) loop Let_def)
  moreover have "erase_call T origin s = Some (Ok (), deposit_event (Erased a) ?s3)"
    using idx(2) by (simp add: erase_call_def Ok loop Let_def case_prod_beta)
  moreover have rep3: "represents E H X before ?b3 ?s3 \<and> events_left X ?b3 = events_left X b"
    using represents_fold_kill [OF doc rep2, of a ?us] docs(1) by (simp add: host_own_keys [OF docs(1,3)])
  moreover have "0 < events_left X b \<longrightarrow>
      represents E H X before (deposit X (Erased a) ?b3) (deposit_event (Erased a) ?s3)
      \<and> events_left X b \<le> Suc (events_left X (deposit X (Erased a) ?b3))"
    using represents_host(1) [OF doc conjunct1 [OF rep3]] host_events(4) [OF docs(3), of ?b3 "Erased a"] rep3 by auto
  ultimately show ?thesis
    by (intro exI [of _ "Ok ()"] exI [of _ "deposit X (Erased a) ?b3"] exI [of _ "deposit_event (Erased a) ?s3"] conjI)
qed

lemma data_bytes_refines:
  assumes "codecs_documented E" "represents E H X before b s"
  shows "data_bytes T E H a b = datalog_data T a s"
  by (simp add: data_bytes_def datalog_data_def byte_index_eq [OF assms] byte_item_eq [OF assms])

section \<open>Keys of other modules\<close>

text \<open>
  The keys a call may write: the clock's for a clock update, and the pallet's own and the two
  of the events for the calls of the pallet.
\<close>

fun call_key :: "hashers \<Rightarrow> ('m, 'r, 'o) datalog_call \<Rightarrow> u8 list \<Rightarrow> bool" where
  "call_key H (Set_time t) key \<longleftrightarrow> module_key H ''Timestamp'' key"
| "call_key H (Call_record origin rec) key \<longleftrightarrow> module_key H ''Datalog'' key \<or> event_key H key"
| "call_key H (Call_erase origin) key \<longleftrightarrow> module_key H ''Datalog'' key \<or> event_key H key"

lemma kept_accesses:
  assumes "\<not> module_key H ''Datalog'' key"
  shows "module_key H ''Datalog'' k \<Longrightarrow> byte_kill k b key = b key"
    "module_key H ''Datalog'' k \<Longrightarrow> byte_put C k v b key = b key"
  using assms by (auto simp: byte_kill_def byte_put_def)

lemma run_call_bytes_keeps:
  assumes doc: "documented E H X" and run: "run_call_bytes T E H X c b = Some b'" and other: "\<not> call_key H c key"
  shows "b' key = b key"
proof (cases c)
  case (Set_time t)
  with run other show ?thesis
    by (auto simp: host_frames [OF documentedD(3) [OF doc]])
next
  case (Call_record origin rec)
  with other have "\<not> module_key H ''Datalog'' key" "\<not> event_key H key"
    by simp_all
  with run Call_record documentedD(1) [OF doc] show ?thesis
    by (auto simp: record_bytes_def Let_def kept_accesses host_frames [OF documentedD(3) [OF doc]]
        split: result.splits if_splits prod.splits)
next
  case (Call_erase origin)
  with other have own: "\<not> module_key H ''Datalog'' key" "\<not> event_key H key"
    by simp_all
  note kept = kept_accesses [OF own(1)] and H = documentedD(1) [OF doc]
  show ?thesis
  proof (cases "ensure_signed T origin")
    case (Ok a)
    let ?idx = "byte_index E H a (byte_kill (old_key E H a) b)"
    obtain b'' where loop: "ring_for_each (window_size T) (\<lambda>u. byte_kill (item_key E H (a, u))) ?idx
        (byte_kill (index_key E H a) (byte_kill (old_key E H a) b)) = Some b''"
      and b': "b' = deposit X (Erased a) b''"
      using run Call_erase by (auto simp: erase_bytes_def Ok Let_def split: option.splits)
    have "b'' key = b key"
      using loop by (rule ring_for_each_keeps [where P = "\<lambda>b''. b'' key = b key"]) (simp_all add: kept H)
    then show ?thesis
      using own(2) by (simp add: b' host_frames [OF documentedD(3) [OF doc]])
  next
    case (Err e)
    with run Call_erase show ?thesis
      by (auto simp: erase_bytes_def)
  qed
qed

lemma run_calls_bytes_keeps:
  assumes "documented E H X" "run_calls_bytes T E H X cs b = Some b'" "\<forall>c\<in>set cs. \<not> call_key H c key"
  shows "b' key = b key"
  using assms(2,3)
proof (induction cs arbitrary: b)
  case Nil
  then show ?case by simp
next
  case (Cons c cs)
  then obtain b1 where "run_call_bytes T E H X c b = Some b1" "run_calls_bytes T E H X cs b1 = Some b'"
    by (auto simp: bind_eq_Some_conv)
  with Cons.IH Cons.prems(2) show ?case
    by (simp add: run_call_bytes_keeps [OF assms(1)])
qed

section \<open>Runs\<close>

text \<open>
  A simulation of one partial action by another, for runs over lists of actions: an action
  spends a credit, and as long as the credits last, related states stay related and both
  runs return.
\<close>

locale simulation =
  fixes related :: "nat \<Rightarrow> 'c \<Rightarrow> 'a \<Rightarrow> bool"
    and act :: "'x \<Rightarrow> 'c \<Rightarrow> 'c option"
    and spec :: "'x \<Rightarrow> 'a \<Rightarrow> 'a option"
    and run :: "'x list \<Rightarrow> 'c \<Rightarrow> 'c option"
    and spec_runs :: "'x list \<Rightarrow> 'a \<Rightarrow> 'a option"
  assumes run_eqs: "run [] c = Some c" "run (x # xs) c = Option.bind (act x c) (run xs)"
    and spec_eqs: "spec_runs [] a = Some a" "spec_runs (x # xs) a = Option.bind (spec x a) (spec_runs xs)"
    and act_simulates:
      "related (Suc n) c a \<Longrightarrow> \<exists>c' a'. act x c = Some c' \<and> spec x a = Some a' \<and> related n c' a'"
begin

lemma run_simulates:
  "related (length xs + n) c a \<Longrightarrow> \<exists>c' a'. run xs c = Some c' \<and> spec_runs xs a = Some a' \<and> related n c' a'"
proof (induction xs arbitrary: c a)
  case Nil
  then show ?case by (simp add: run_eqs spec_eqs)
next
  case (Cons x xs)
  from Cons.prems have "related (Suc (length xs + n)) c a"
    by simp
  from act_simulates [OF this] obtain c' a' where
    "act x c = Some c'" "spec x a = Some a'" "related (length xs + n) c' a'"
    by blast
  with Cons.IH show ?case
    by (simp add: run_eqs spec_eqs)
qed

end

text \<open>A store implements a state, in a block that takes \<open>n\<close> more events.\<close>

definition implements ::
  "('a, 'm, 'r, 'o, 'e) datalog_trait \<Rightarrow> ('a, 'm, 'r) field_codecs \<Rightarrow> hashers \<Rightarrow> ('a, 'm, 'r) host_pallets
   \<Rightarrow> ('a, 'm, 'r) datalog_event list \<Rightarrow> nat \<Rightarrow> byte_store \<Rightarrow> ('a, 'm, 'r) datalog_state \<Rightarrow> bool" where
  "implements T E H X before n b s \<longleftrightarrow>
     documented E H X \<and> datalog_wf T s \<and> represents E H X before b s \<and> n \<le> events_left X b"

lemma run_call_bytes_implements:
  assumes "implements T E H X before (Suc n) b s"
  shows "\<exists>b' s'. run_call_bytes T E H X c b = Some b' \<and> run_call T c s = Some s' \<and> implements T E H X before n b' s'"
proof -
  have doc: "documented E H X" and wf: "datalog_wf T s" and rep: "represents E H X before b s"
    and left: "Suc n \<le> events_left X b"
    using assms by (simp_all add: implements_def)
  have "\<exists>b' s'. run_call_bytes T E H X c b = Some b' \<and> run_call T c s = Some s' \<and> represents E H X before b' s'
    \<and> n \<le> events_left X b'"
  proof (cases c)
    case (Set_time t)
    with rep left doc show ?thesis
      by (simp add: represents_host host_other_modules [OF documentedD(1,3) [OF doc]])
  next
    case (Call_record origin rec)
    with record_bytes_refines [OF doc rep, of T origin rec] left show ?thesis
      by auto
  next
    case (Call_erase origin)
    from erase_bytes_refines [OF doc rep wf, of origin] obtain res b' s' where
      "erase_bytes T E H X origin b = Some (res, b')" "erase_call T origin s = Some (res, s')"
      "represents E H X before b' s'" "events_left X b \<le> Suc (events_left X b')"
      using left by fastforce
    with Call_erase left show ?thesis
      by simp
  qed
  moreover have "datalog_wf T s'" if "run_call T c s = Some s'" for s'
    using run_call_refines [OF wf, of c] that by (metis option.inject)
  ultimately show ?thesis
    using doc unfolding implements_def by blast
qed

interpretation byte_store: simulation "implements T E H X before" "run_call_bytes T E H X" "run_call T"
    "run_calls_bytes T E H X" "run_calls T"
  for T :: "('a, 'm, 'r, 'o, 'e) datalog_trait" and E H X before
proof unfold_locales
  show "\<exists>b' s'. run_call_bytes T E H X c b = Some b' \<and> run_call T c s = Some s' \<and> implements T E H X before n b' s'"
    if "implements T E H X before (Suc n) b s" for n b s and c :: "('m, 'r, 'o) datalog_call"
    using that by (rule run_call_bytes_implements)
qed simp_all

text \<open>A block: its start forgets the events of the block before, and gives the credits.\<close>

lemma run_block_implements:
  assumes "documented E H X" "datalog_wf T s" "represents E H X before b s" "length cs < 2 ^ 32"
  shows "\<exists>b' s'. run_calls_bytes T E H X cs (start_block X b) = Some b' \<and> run_calls T cs s = Some s'
    \<and> datalog_wf T s' \<and> represents E H X (st_events s) b' s'"
proof -
  have "implements T E H X (st_events s) (length cs + 0) (start_block X b) s"
    using assms(2,4) represents_host(3) [OF assms(1,3)] host_events(2) [OF documentedD(3) [OF assms(1)]]
    by (simp add: implements_def assms(1))
  from byte_store.run_simulates [OF this] show ?thesis
    by (auto simp: implements_def)
qed

lemma run_blocks_implements:
  assumes "documented E H X" "datalog_wf T s" "represents E H X before b s" "\<forall>cs\<in>set blocks. length cs < 2 ^ 32"
  shows "\<exists>b' s' before'. run_blocks_bytes T E H X blocks b = Some b' \<and> run_calls T (concat blocks) s = Some s'
    \<and> datalog_wf T s' \<and> represents E H X before' b' s'"
  using assms(2-4)
proof (induction blocks arbitrary: b s before)
  case Nil
  then show ?case by auto
next
  case (Cons cs blocks)
  then obtain b1 s1 where run: "run_calls_bytes T E H X cs (start_block X b) = Some b1" "run_calls T cs s = Some s1"
    and s1: "datalog_wf T s1" "represents E H X (st_events s) b1 s1"
    using run_block_implements [OF assms(1)] by (metis list.set_intros(1))
  from Cons.IH [OF s1] Cons.prems(3) show ?case
    by (simp add: run run_calls_append)
qed

lemma run_blocks_bytes_append:
  "run_blocks_bytes T E H X (blocks @ blocks') b
    = Option.bind (run_blocks_bytes T E H X blocks b) (run_blocks_bytes T E H X blocks')"
  by (induction blocks arbitrary: b) (simp_all split: bind_split)

end
