(* ===== verification/Datalog_Host.thy ===== *)
theory Datalog_Host
  imports Datalog_Use_Theorems Datalog_Bytes
begin

text \<open>
  An instance of the parameters of \<open>Datalog_Bytes\<close>, for the witnesses: hashers that repeat
  the length of their input, codecs that write numbers in unary, and a host that keeps the
  events of the block and the clock encoded in the store, as \<open>frame_system\<close> and the timestamp
  pallet do. The theory shows that it behaves as documented.
\<close>

section \<open>Hashers and codecs\<close>

definition count_hashers :: hashers where
  "count_hashers =
     \<lparr>blake2_128 = (\<lambda>x. replicate 16 (of_nat (length x))),
      twox_64 = (\<lambda>x. replicate 8 (of_nat (length x))),
      twox_128 = (\<lambda>x. replicate 16 (of_nat (length x)))\<rparr>"

lemma count_hashers_documented: "hashers_documented count_hashers"
  by (simp add: hashers_documented_def count_hashers_def bytes_of_def)

text \<open>A list in the order of its entries; the decoder is not used.\<close>

definition unary_codecs :: "(u64, u64, u8 list) field_codecs" where
  "unary_codecs =
     \<lparr>account_codec = unary_codec, u64_codec = unary_codec, compact_u64 = unary_codec,
      compact_moment = unary_codec, record_codec = vec_codec,
      old_codec = \<lparr>encode = concat \<circ> map (\<lambda>(m, r). encode unary_codec m @ encode vec_codec r),
                   decode = (\<lambda>_. None)\<rparr>\<rparr>"

lemma unary_codecs_documented: "codecs_documented unary_codecs"
  by (simp add: codecs_documented_def unary_codecs_def unary_codec_law vec_codec_law)

section \<open>A host\<close>

fun encode_event :: "(u64, u64, u8 list) datalog_event \<Rightarrow> u8 list" where
  "encode_event (NewRecord a now rec) = 0 # encode unary_codec a @ encode unary_codec now @ encode vec_codec rec"
| "encode_event (Erased a) = 1 # encode unary_codec a"
| "encode_event (RecordSent a) = 2 # encode unary_codec a"

definition decode_event :: "u8 list \<Rightarrow> ((u64, u64, u8 list) datalog_event \<times> u8 list) option" where
  "decode_event input =
     (case input of
        [] \<Rightarrow> None
      | tag # input \<Rightarrow>
          Option.bind (decode unary_codec input) (\<lambda>(a, input).
          if tag = 0 then
            Option.bind (decode unary_codec input) (\<lambda>(now, input).
            Option.bind (decode vec_codec input) (\<lambda>(rec, input).
            Some (NewRecord a now rec, input)))
          else if tag = 1 then Some (Erased a, input)
          else Some (RecordSent a, input)))"

lemma decode_encode_event: "decode_event (encode_event e @ rest) = Some (e, rest)"
  by (cases e) (simp_all add: decode_event_def codec_lawD [OF unary_codec_law] codec_lawD [OF vec_codec_law])

text \<open>The events of the block: as many as the count says, off the encoded list.\<close>

primrec decode_events :: "nat \<Rightarrow> u8 list \<Rightarrow> (u64, u64, u8 list) datalog_event list" where
  "decode_events 0 input = []"
| "decode_events (Suc n) input = (case decode_event input of None \<Rightarrow> [] | Some (e, rest) \<Rightarrow> e # decode_events n rest)"

lemma decode_encode_events: "decode_events (length es) (concat (map encode_event es)) = es"
  by (induction es) (simp_all add: decode_encode_event)

definition events_key :: "u8 list" where
  "events_key = value_key count_hashers ''System'' ''Events''"

definition event_count_key :: "u8 list" where
  "event_count_key = value_key count_hashers ''System'' ''EventCount''"

definition now_key :: "u8 list" where
  "now_key = value_key count_hashers ''Timestamp'' ''Now''"

definition raw_value :: "u8 list \<Rightarrow> byte_store \<Rightarrow> u8 list" where
  "raw_value key b = (case b key of None \<Rightarrow> [] | Some x \<Rightarrow> x)"

definition host_block_events :: "byte_store \<Rightarrow> (u64, u64, u8 list) datalog_event list" where
  "host_block_events b = decode_events (length (raw_value event_count_key b)) (raw_value events_key b)"

definition host_deposit :: "(u64, u64, u8 list) datalog_event \<Rightarrow> byte_store \<Rightarrow> byte_store" where
  "host_deposit e b =
     (let es = host_block_events b @ [e]
      in b(events_key \<mapsto> concat (map encode_event es), event_count_key \<mapsto> replicate (length es) 0))"

definition unary_host :: "(u64, u64, u8 list) host_pallets" where
  "unary_host =
     \<lparr>start_block = (\<lambda>b. b(events_key := None, event_count_key := None)),
      deposit = host_deposit, block_events = host_block_events,
      events_left = (\<lambda>b. 2 ^ 32 - 1 - length (host_block_events b)),
      now_get = (\<lambda>b. raw_get unary_codec 0 (b now_key)),
      now_put = (\<lambda>t b. b(now_key \<mapsto> encode unary_codec t))\<rparr>"

lemma host_keys:
  "events_key \<noteq> event_count_key" "module_key count_hashers ''System'' events_key"
  "module_key count_hashers ''System'' event_count_key" "module_key count_hashers ''Timestamp'' now_key"
  "event_key count_hashers key \<longleftrightarrow> key = events_key \<or> key = event_count_key"
  by (simp_all add: events_key_def event_count_key_def now_key_def value_key_def module_key_def event_key_def
      count_hashers_def bytes_of_def)

lemma host_deposit_events: "host_block_events (host_deposit e b) = host_block_events b @ [e]"
proof -
  let ?es = "host_block_events b @ [e]"
  have "raw_value event_count_key (host_deposit e b) = replicate (length ?es) 0"
    "raw_value events_key (host_deposit e b) = concat (map encode_event ?es)"
    using host_keys(1) by (simp_all add: host_deposit_def raw_value_def Let_def)
  then have "host_block_events (host_deposit e b) = decode_events (length ?es) (concat (map encode_event ?es))"
    unfolding host_block_events_def [of "host_deposit e b"] by (simp only: length_replicate)
  then show ?thesis
    unfolding decode_encode_events .
qed

lemma host_start_events: "host_block_events (b(events_key := None, event_count_key := None)) = []"
  by (simp add: host_block_events_def raw_value_def)

lemma unary_host_documented: "host_documented count_hashers unary_host"
proof -
  note docs = modules_disjoint [OF count_hashers_documented]
  have own: "key \<noteq> events_key \<and> key \<noteq> event_count_key"
    if "module_key count_hashers ''Datalog'' key \<or> module_key count_hashers ''Timestamp'' key" for key
    using that docs host_keys(2,3) by blast
  have evs: "host_block_events b = host_block_events b'"
    if "\<forall>key. module_key count_hashers ''System'' key \<longrightarrow> b key = b' key" for b b'
    using that host_keys(2,3) by (simp add: host_block_events_def raw_value_def)
  have "raw_get unary_codec 0 (b now_key) = raw_get unary_codec 0 (b' now_key)"
    if "\<forall>key. module_key count_hashers ''Timestamp'' key \<longrightarrow> b key = b' key" for b b'
    using that host_keys(4) by simp
  moreover have "raw_get unary_codec 0 (Some (encode unary_codec t)) = t" for t
    using raw_get_encode [OF unary_codec_law, of 0 "Some t"] by simp
  moreover have "\<not> module_key count_hashers ''Timestamp'' key \<Longrightarrow> key \<noteq> now_key" for key
    using host_keys(4) by blast
  moreover have "host_deposit e b key = b key" if "\<not> event_key count_hashers key" for e b key
    using that by (simp add: host_keys(5) host_deposit_def Let_def)
  ultimately show ?thesis
    using own unfolding host_documented_def unary_host_def
    by (intro conjI allI impI) (simp_all add: host_deposit_events host_start_events, metis evs, metis evs)
qed

lemma unary_documented: "documented unary_codecs count_hashers unary_host"
  by (simp add: documented_def unary_codecs_documented count_hashers_documented unary_host_documented)

text \<open>A store with a clock and one old value of the account 1.\<close>

definition first_store :: byte_store where
  "first_store =
     [now_key \<mapsto> encode unary_codec 7,
      old_key unary_codecs count_hashers 1 \<mapsto> encode (old_codec unary_codecs) [(3, [42])]]"

lemma first_store_represents:
  "represents unary_codecs count_hashers unary_host [] first_store (datalog_start [1 \<mapsto> [(3, [42])]] 7)"
proof -
  note doc = documentedD [OF unary_documented]
  have keys: "key \<noteq> now_key \<and> key \<noteq> events_key \<and> key \<noteq> event_count_key"
    if "module_key count_hashers ''Datalog'' key" for key
    using modules_disjoint(1) [OF doc(1) that] host_keys(2-4) by metis
  have distinct: "events_key \<noteq> now_key" "event_count_key \<noteq> now_key"
    using host_keys(2-4) modules_disjoint(2) [OF doc(1)] by metis+
  have "first_store now_key = Some (encode unary_codec 7)" "first_store events_key = None"
    "first_store event_count_key = None"
    using distinct keys [of "old_key unary_codecs count_hashers 1"] doc(1)
    by (auto simp: first_store_def)
  then have "now_get unary_host first_store = 7" "block_events unary_host first_store = []"
    using raw_get_encode [OF unary_codec_law, of 0 "Some 7"]
    by (simp_all add: unary_host_def host_block_events_def raw_value_def)
  then show ?thesis
    using keys doc(1)
    by (simp add: represents_def datalog_start_def datalog_genesis_def first_store_def keys_injective [OF doc(1,2)]
        keys_disjoint [OF doc(1)] keys_disjoint [OF doc(1), symmetric])
qed

end
