(* ===== verification/Datalog_Chain_Theorems.thy ===== *)
theory Datalog_Chain_Theorems
  imports Datalog_Use_Theorems Datalog_Isolation Datalog_Upgrade Datalog_Overflow Datalog_Host
begin

text \<open>
  The datalog pallet on a chain that many accounts use, that is upgraded, and that nodes of
  different builds execute over one store of bytes: accounts do not interfere, what an
  upgrade of the window size does to the logs, that a build with overflow checks agrees, and
  that the calls on the store refine those on typed maps.
\<close>

section \<open>Accounts do not interfere\<close>

text \<open>
  C5: Accounts do not interfere: from a reachable state, any sequence of calls and the
  sequence without the calls other accounts signed both return, and they leave the account
  with the same storage under its keys, the same events that name it, the same clock and the
  same \<open>data\<close>.
\<close>

theorem noninterference:
  assumes "datalog_reachable T tick s"
  shows "\<exists>s' t'. run_calls T cs s = Some s' \<and> run_calls T (filter (call_concerns T a) cs) s = Some t'
    \<and> same_view a s' t' \<and> datalog_data T a s' = datalog_data T a t'"
proof -
  obtain s' t' where "run_calls T cs s = Some s'" "run_calls T (filter (call_concerns T a) cs) s = Some t'"
    "same_view a s' t'"
    using own_calls_suffice [OF datalog_reachable_wf [OF assms], of cs a] by blast
  then show ?thesis
    by (simp add: same_view_data)
qed

theorem noninterference_witness:
  "\<exists>s' t'. run_calls demo_runtime [Call_record (Some 1) [100], Call_record (Some 2) [101], Call_erase (Some 1)] demo_genesis = Some s'
    \<and> run_calls demo_runtime [Call_record (Some 2) [101]] demo_genesis = Some t'
    \<and> same_view 2 s' t'"
  using noninterference [OF demo_reachable_genesis,
      of "[Call_record (Some 1) [100], Call_record (Some 2) [101], Call_erase (Some 1)]" 2]
  by (auto simp: test_runtime_def [THEN arg_cong, of ensure_signed])

section \<open>Upgrades of the window size\<close>

text \<open>
  C13: What an upgrade of the window size to \<open>w\<close> does to a log left in a reachable state,
  by its cursors \<open>b\<close> and \<open>e\<close>. The loops of \<open>data\<close> and \<open>erase\<close> never end exactly when \<open>e\<close> is
  not inside the new window, and \<open>b\<close> is inside it or the log wraps. A log that does not wrap
  is otherwise read as before. A log that wraps is read with its records before the turn cut
  at the slot \<open>n\<close> where the new walk turns: \<open>n\<close> is the number of slots of the new window when
  \<open>b\<close> is inside it (or the new window is 0), and \<open>2 ^ 64\<close> when \<open>b\<close> is not, since the walk then
  climbs to the end of \<open>u64\<close>. Whenever \<open>n\<close> is greater than the number \<open>m\<close> of slots of the old
  window, be it that the window has grown or that it has shrunk to \<open>b\<close> or below, the log shows
  \<open>n - m\<close> default items in its middle that nobody recorded.
\<close>

theorem window_upgrade:
  assumes "datalog_reachable T tick s" and "ensure_signed T origin = Ok a"
    and "datalogidx_get a s = \<lparr>idx_start = b, idx_end = e\<rparr>"
    and "m = ring_mod (window_size T)" and "n = turning_slot w \<lparr>idx_start = b, idx_end = e\<rparr>"
  shows "\<exists>log. datalog_data T a s = Some log
    \<and> datalog_data (T\<lparr>window_size := w\<rparr>) a s =
        (if w \<noteq> 0 \<and> w \<le> e \<and> (b < w \<or> e < b) then None
         else if b \<le> e then Some log
         else Some (take (min (m - unat b) (n - unat b)) log
           @ replicate (n - m) (item_default T) @ drop (m - unat b) log))
    \<and> (erase_call (T\<lparr>window_size := w\<rparr>) origin s = None
        \<longleftrightarrow> w \<noteq> 0 \<and> w \<le> e \<and> (b < w \<or> e < b))"
proof -
  have inv: "datalog_wf T s" "storage_inv T s"
    using reachable_storage_inv [OF assms(1)] by simp_all
  then have log: "datalog_data T a s = Some (account_log T s a)"
    by (simp add: datalog_data_wf datalog_wf_def)
  have "erase_call (T\<lparr>window_size := w\<rparr>) origin s = None \<longleftrightarrow> datalog_data (T\<lparr>window_size := w\<rparr>) a s = None"
    using assms(2) by (intro erase_returns_iff_data) simp
  with data_upgraded [OF inv log assms(3-5)] log show ?thesis
    by auto
qed

text \<open>Two accepted records under a window of 2 wrap the log; a window of 4 shows two more.\<close>

abbreviation small_runtime :: "(u64, u64, u8 list, u64 option, unit) datalog_trait" where
  "small_runtime \<equiv> demo_runtime\<lparr>window_size := 2\<rparr>"

abbreviation wrapped_state :: "(u64, u64, u8 list) datalog_state" where
  "wrapped_state \<equiv> after_record small_runtime 1 [101] (after_record small_runtime 1 [100] demo_genesis)"

lemma small_runtime_simps:
  "ensure_signed small_runtime (Some 1) = Ok 1" "size_hint small_runtime [r] \<le> maximum_message_size small_runtime"
  "window_size small_runtime = 2" "item_default small_runtime = RingBufferItem 0 []"
  by (simp_all add: test_runtime_def item_default_def)

lemma wrapped_state_reachable: "datalog_reachable small_runtime (\<le>) wrapped_state"
proof -
  have "datalog_reachable small_runtime (\<le>) (after_record small_runtime 1 [r] s)"
    if "datalog_reachable small_runtime (\<le>) s" for r s
    using that by (rule reach_step, intro step_record) (rule record_call_ok; rule small_runtime_simps)
  then show ?thesis
    by (blast intro: reach_genesis)
qed

lemma wrapped_state_log:
  "datalogidx_get 1 wrapped_state = \<lparr>idx_start = 1, idx_end = 0\<rparr>"
  "datalog_data small_runtime 1 wrapped_state = Some [RingBufferItem 7 [101]]"
proof -
  have wf: "datalog_wf small_runtime demo_genesis"
    by (rule datalog_wf_genesis)
  show "datalog_data small_runtime 1 wrapped_state = Some [RingBufferItem 7 [101]]"
    using datalog_reachable_wf [OF wrapped_state_reachable]
    by (simp add: datalog_data_wf datalog_wf_def,
        simp add: account_log_after_record after_record_wf wf account_log_genesis log_cap_def ring_cap_def
          ring_mod_def last_n_def st_clock_genesis)
  show "datalogidx_get 1 wrapped_state = \<lparr>idx_start = 1, idx_end = 0\<rparr>"
    by (simp add: after_record_def datalogidx_get_def datalog_genesis_def ring_default_def ring_add_def ring_next_def)
qed

lemma replicate_two: "replicate 2 x = [x, x]"
  by (simp add: numeral_2_eq_2)

theorem window_upgrade_witness:
  "datalog_data small_runtime 1 wrapped_state = Some [RingBufferItem 7 [101]]
   \<and> datalog_data (small_runtime\<lparr>window_size := 4\<rparr>) 1 wrapped_state
       = Some [RingBufferItem 7 [101], RingBufferItem 0 [], RingBufferItem 0 []]"
  using window_upgrade [OF wrapped_state_reachable small_runtime_simps(1) wrapped_state_log(1) refl refl, of 4]
    wrapped_state_log(2) small_runtime_simps(4) replicate_two
  by (simp add: ring_mod_def turning_slot_def word_le_nat_alt)

section \<open>Builds with overflow checks\<close>

text \<open>
  C17: The two builds of the pallet agree: in every reachable state, with a window size other
  than 0, a build whose increments panic on overflow runs any sequence of calls to the same
  state and reads the same \<open>data\<close> as the build whose increments wrap. With a window size of 0
  its \<open>record\<close> panics exactly on an accepted record at the greatest cursor of \<open>u64\<close>.
\<close>

theorem builds_agree:
  assumes "datalog_reachable T tick s"
  shows "(window_size T \<noteq> 0 \<longrightarrow> run_calls_checked T cs s = map_option Returned (run_calls T cs s)
      \<and> data_checked T a s = map_option Returned (datalog_data T a s))
    \<and> (record_checked T origin rec s = Panicked \<longleftrightarrow>
      size_hint T rec \<le> maximum_message_size T \<and> window_size T = 0
      \<and> (\<exists>a. ensure_signed T origin = Ok a
           \<and> (idx_end (datalogidx_get a s) = - 1
              \<or> idx_end (datalogidx_get a s) = - 2 \<and> idx_start (datalogidx_get a s) = - 1)))"
proof -
  have "datalog_wf T s"
    using assms by (rule datalog_reachable_wf)
  then show ?thesis
    by (simp add: run_calls_checked_wf data_checked_wf record_checked_panics_iff)
qed

theorem builds_agree_witness:
  "run_calls_checked demo_runtime [Call_record (Some 1) [100]] demo_genesis
     = Some (Returned (after_record demo_runtime 1 [100] demo_genesis))
   \<and> record_checked demo_runtime (Some 1) [100] demo_genesis \<noteq> Panicked"
  using builds_agree [OF demo_reachable_genesis, of "[Call_record (Some 1) [100]]" 1 "Some 1" "[100]"]
    record_call_ok [of demo_runtime "[100]" "Some 1" 1 demo_genesis]
  by (simp add: test_runtime_def [THEN arg_cong, of window_size] test_runtime_def [THEN arg_cong, of size_hint]
      test_runtime_def [THEN arg_cong, of ensure_signed] test_runtime_def [THEN arg_cong, of maximum_message_size])

section \<open>The store of bytes\<close>

text \<open>
  C18: The pallet on the node's store of bytes, block by block, refines the pallet on typed
  maps. The hashers have fixed lengths and tell the names of the maps and the modules apart,
  the codecs are lawful, and \<open>frame_system\<close> and the timestamp pallet keep the block's events
  and the clock in the same store as documented. Then from a store that represents a reachable
  state, any blocks of less than \<open>2 ^ 32\<close> calls each return and leave a store that represents
  the state the calls of the blocks lead to; it holds the events of the last block alone.
  \<open>data\<close> read from it is \<open>data\<close>, and the calls return the same results. Within a block nothing
  changes but the keys under the prefix of the pallet and the two \<open>System\<close> keys of the events
  (if the block has a call of the pallet), and those under the prefix of the timestamp pallet
  (if it has a clock update).
\<close>

theorem byte_store_refines:
  assumes "hashers_documented H" and "codecs_documented E" and "host_documented H X"
    and "datalog_reachable T tick s" and "represents E H X before b s"
    and "\<forall>calls\<in>set (blocks @ [cs]). length calls < 2 ^ 32"
  shows "\<exists>b1 s1 b' s'. run_blocks_bytes T E H X blocks b = Some b1 \<and> run_calls T (concat blocks) s = Some s1
    \<and> run_calls_bytes T E H X cs (start_block X b1) = Some b' \<and> run_calls T cs s1 = Some s'
    \<and> represents E H X (st_events s1) b' s'
    \<and> data_bytes T E H a b' = datalog_data T a s'
    \<and> fst (record_bytes T E H X origin rec b') = fst (record_call T origin rec s')
    \<and> map_option fst (erase_bytes T E H X origin b') = map_option fst (erase_call T origin s')
    \<and> (\<forall>key. (\<forall>c\<in>set cs. \<not> call_key H c key) \<longrightarrow> b' key = start_block X b1 key)"
proof -
  have doc: "documented E H X"
    using assms(1-3) by (simp add: documented_def)
  have short: "\<forall>calls\<in>set blocks. length calls < 2 ^ 32" "length cs < 2 ^ 32"
    using assms(6) by simp_all
  obtain b1 s1 before1 where run1: "run_blocks_bytes T E H X blocks b = Some b1" "run_calls T (concat blocks) s = Some s1"
    and s1: "datalog_wf T s1" "represents E H X before1 b1 s1"
    using run_blocks_implements [OF doc datalog_reachable_wf [OF assms(4)] assms(5) short(1)] by blast
  obtain b' s' where run: "run_calls_bytes T E H X cs (start_block X b1) = Some b'" "run_calls T cs s1 = Some s'"
    and wf: "datalog_wf T s'" and rep: "represents E H X (st_events s1) b' s'"
    using run_block_implements [OF doc s1 short(2)] by blast
  have "map_option fst (erase_bytes T E H X origin b') = map_option fst (erase_call T origin s')"
    using erase_bytes_refines [OF doc rep wf, of origin] by auto
  moreover have "\<forall>key. (\<forall>c\<in>set cs. \<not> call_key H c key) \<longrightarrow> b' key = start_block X b1 key"
    using run_calls_bytes_keeps [OF doc run(1)] by blast
  ultimately show ?thesis
    using run1 run rep data_bytes_refines [OF assms(2) rep, of T a] record_bytes_refines(1) [OF doc rep, of T origin rec]
    by blast
qed

theorem byte_store_refines_witness:
  "\<exists>b1 s1 b' s'. run_blocks_bytes demo_runtime unary_codecs count_hashers unary_host [[Call_record (Some 1) [100]]] first_store = Some b1
    \<and> run_calls demo_runtime (concat [[Call_record (Some 1) [100]]]) demo_upgraded = Some s1
    \<and> run_calls_bytes demo_runtime unary_codecs count_hashers unary_host [Set_time 8, Call_erase (Some 1)] (start_block unary_host b1) = Some b'
    \<and> run_calls demo_runtime [Set_time 8, Call_erase (Some 1)] s1 = Some s'
    \<and> data_bytes demo_runtime unary_codecs count_hashers 1 b' = datalog_data demo_runtime 1 s'"
proof -
  have "\<forall>calls\<in>set ([[Call_record (Some 1) [100]]] @ [[Set_time 8, Call_erase (Some 1)]]). length calls < 2 ^ 32"
    by simp
  from byte_store_refines [OF count_hashers_documented unary_codecs_documented unary_host_documented
      reach_start first_store_represents this, of demo_runtime 1 "Some 1" "[100]"]
  show ?thesis by blast
qed

end
