(* ===== verification/Inspect_Tests.thy ===== *)
theory Inspect_Tests
  imports Inspect_Address
begin

text \<open>
  The unit tests of \<open>node/inspect/src/lib.rs\<close> (module \<open>tests\<close>) over the model of the
  addresses: each is the conjunction of its assertions, with block numbers of type \<open>u64\<close> and
  the parsers of hashes and of hex-encoded bytes as an argument.
\<close>

section \<open>The tests\<close>

abbreviation test_hash :: string where
  "test_hash \<equiv> ''3BfC20f0B9aFcAcE800D73D2191166FF16540258''"

text \<open>A test that unwraps the parsed hash panics, so fails, when it does not parse.\<close>

definition should_parse_block_strings :: "'hash address_env \<Rightarrow> bool" where
  "should_parse_block_strings env \<longleftrightarrow>
     (let b0 = BlockAddress_from_str env test_hash :: (('hash, u64) BlockAddress, string) result;
          b1 = BlockAddress_from_str env ''1234'' :: (('hash, u64) BlockAddress, string) result;
          b2 = BlockAddress_from_str env ''0'' :: (('hash, u64) BlockAddress, string) result;
          b3 = BlockAddress_from_str env ''0x0012345f'' :: (('hash, u64) BlockAddress, string) result
      in (case hash_from_str env test_hash of None \<Rightarrow> False | Some hash \<Rightarrow> b0 = Ok (BlockAddress_Hash hash))
         \<and> b1 = Ok (BlockAddress_Number 1234)
         \<and> b2 = Ok (BlockAddress_Number 0)
         \<and> b3 = Ok (BlockAddress_Bytes [0, 0x12, 0x34, 0x5f]))"

definition should_parse_extrinsic_address :: "'hash address_env \<Rightarrow> bool" where
  "should_parse_extrinsic_address env \<longleftrightarrow>
     (let e0 = ExtrinsicAddress_from_str env ''1234'' :: (('hash, u64) ExtrinsicAddress, string) result;
          b0 = ExtrinsicAddress_from_str env (test_hash @ '':5'') :: (('hash, u64) ExtrinsicAddress, string) result;
          b1 = ExtrinsicAddress_from_str env ''1234:0'' :: (('hash, u64) ExtrinsicAddress, string) result;
          b2 = ExtrinsicAddress_from_str env ''0 0'' :: (('hash, u64) ExtrinsicAddress, string) result;
          b3 = ExtrinsicAddress_from_str env ''0x0012345f'' :: (('hash, u64) ExtrinsicAddress, string) result
      in e0 = Err ''Extrinsic index missing: example \"5:0\"''
         \<and> (case hash_from_str env test_hash of
              None \<Rightarrow> False
            | Some hash \<Rightarrow> b0 = Ok (ExtrinsicAddress_Block (BlockAddress_Hash hash) 5))
         \<and> b1 = Ok (ExtrinsicAddress_Block (BlockAddress_Number 1234) 0)
         \<and> b2 = Ok (ExtrinsicAddress_Block (BlockAddress_Number 0) 0)
         \<and> b3 = Ok (ExtrinsicAddress_Bytes [0, 0x12, 0x34, 0x5f]))"

section \<open>The tests pass\<close>

text \<open>The parsers on the constants of the tests: a hash of 40 hex digits, four bytes.\<close>

definition parsers_documented :: "'hash address_env \<Rightarrow> bool" where
  "parsers_documented env \<longleftrightarrow>
     hash_documented env \<and> hex_documented env
     \<and> hash_from_str env test_hash \<noteq> None \<and> from_hex env ''0x0012345f'' = Ok [0, 0x12, 0x34, 0x5f]"

lemma not_a_hash:
  assumes "hash_documented env" "length s \<le> 20"
  shows "hash_from_str env s = None"
proof (rule ccontr)
  assume "hash_from_str env s \<noteq> None"
  then have "20 < length s"
    using assms(1) unfolding hash_documented_def by blast
  with assms(2) show False
    by simp
qed

lemma not_hex:
  assumes "hex_documented env" "take 2 s \<noteq> ''0x''"
  obtains e where "from_hex env s = Err e"
  using assms by (cases "from_hex env s") (auto simp: hex_documented_def)

text \<open>The decimals of the tests are the texts of their numbers.\<close>

lemma test_digits:
  "digit_char 0 = CHR ''0''" "digit_char 1 = CHR ''1''" "digit_char 2 = CHR ''2''" "digit_char 3 = CHR ''3''"
  "digit_char 4 = CHR ''4''" "digit_char 5 = CHR ''5''"
  by (simp_all add: digit_char_def char_of_eq_iff)

lemma test_numbers:
  "uint_from_str ''1234'' = (Ok 1234 :: (u64, int_error_kind) result)"
  "uint_from_str ''0'' = (Ok 0 :: (u64, int_error_kind) result)"
  "uint_from_str ''5'' = (Ok 5 :: (u64, int_error_kind) result)"
  using uint_from_str_show [of "1234 :: u64"] uint_from_str_show [of "0 :: u64"] uint_from_str_show [of "5 :: u64"]
  by (simp_all add: show_word_def show_nat.simps test_digits test_digits [simplified])

lemma test_splits:
  "split_on separator ''1234'' = [''1234'']"
  "split_on separator (test_hash @ '':5'') = [test_hash, ''5'']"
  "split_on separator ''1234:0'' = [''1234'', ''0'']"
  "split_on separator ''0 0'' = [''0'', ''0'']"
proof -
  have plain: "\<forall>c\<in>set ''1234''. \<not> separator c" "\<forall>c\<in>set test_hash. \<not> separator c"
    "\<forall>c\<in>set ''0''. \<not> separator c" "\<forall>c\<in>set ''5''. \<not> separator c"
    by (simp_all add: separator_def)
  have sep: "separator CHR '':''" "separator CHR '' ''"
    by (simp_all add: separator_def)
  show "split_on separator ''1234'' = [''1234'']"
    using plain(1) by (rule split_on_plain)
  show "split_on separator (test_hash @ '':5'') = [test_hash, ''5'']"
    using split_on_sep [OF plain(2) sep(1), of "''5''"] split_on_plain [OF plain(4)]
    by (simp only: )
  show "split_on separator ''1234:0'' = [''1234'', ''0'']"
    using split_on_sep [OF plain(1) sep(1), of "''0''"] split_on_plain [OF plain(3)]
    by (simp only: append.simps)
  show "split_on separator ''0 0'' = [''0'', ''0'']"
    using split_on_sep [OF plain(3) sep(2), of "''0''"] split_on_plain [OF plain(3)]
    by (simp only: append.simps)
qed

lemma block_tests_pass:
  assumes "parsers_documented env"
  shows "should_parse_block_strings env"
proof -
  note docs = assms [unfolded parsers_documented_def]
  obtain e where "uint_from_str ''0x0012345f'' = (Err e :: (u64, int_error_kind) result)"
    using uint_from_str_no_x [of "''0x0012345f''"] by auto
  with docs show ?thesis
    by (auto simp: should_parse_block_strings_def BlockAddress_from_str_def not_a_hash test_numbers)
qed

lemma extrinsic_tests_pass:
  assumes "parsers_documented env"
  shows "should_parse_extrinsic_address env"
proof -
  note docs = assms [unfolded parsers_documented_def]
  obtain hash where hash: "hash_from_str env test_hash = Some hash"
    using docs by blast
  obtain e1 where e1: "from_hex env ''1234'' = Err e1"
    by (rule not_hex [of env "''1234''"]) (use docs in simp_all)
  obtain e2 where e2: "from_hex env (test_hash @ '':5'') = Err e2"
    by (rule not_hex [of env "test_hash @ '':5''"]) (use docs in simp_all)
  obtain e3 where e3: "from_hex env ''1234:0'' = Err e3"
    by (rule not_hex [of env "''1234:0''"]) (use docs in simp_all)
  obtain e4 where e4: "from_hex env ''0 0'' = Err e4"
    by (rule not_hex [of env "''0 0''"]) (use docs in simp_all)
  show ?thesis
    using docs hash e1 e2 e3 e4
    by (simp add: should_parse_extrinsic_address_def ExtrinsicAddress_from_str_def BlockAddress_from_str_def
        not_a_hash test_numbers test_splits del: append.simps split_on.simps)
qed

end
