(* ===== verification/Datalog_Mock.thy ===== *)
theory Datalog_Mock
  imports Datalog_Tests Runtime_Config Runtime_Constants
begin

text \<open>
  The mock runtime of the pallet's unit tests: its parameters and the tables of its
  implementations of the traits of \<open>frame_system\<close> and the timestamp pallet. Its implementation
  of the pallet's own trait is \<open>test_runtime\<close> of \<open>Datalog_Tests\<close>, as values.
\<close>

section \<open>Parameters\<close>

definition mock_BlockHashCount :: u64 where "mock_BlockHashCount = 250"

definition mock_MaximumBlockWeight :: weight where "mock_MaximumBlockWeight = 2000000000"

definition mock_AvailableBlockRatio :: "'p perbill_api \<Rightarrow> 'p" where
  "mock_AvailableBlockRatio P = from_percent P 75"

definition mock_MaximumExtrinsicWeight :: weight where "mock_MaximumExtrinsicWeight = 1000000000"

definition mock_MaximumBlockLength :: u32 where "mock_MaximumBlockLength = 1000000"

definition mock_MinimumPeriod :: moment where "mock_MinimumPeriod = 5"

section \<open>Trait implementations\<close>

definition mock_frame_system_trait :: trait_config where
  "mock_frame_system_trait =
     [(''Origin'', ''Origin''),
      (''Index'', ''u64''),
      (''BlockNumber'', ''u64''),
      (''Call'', ''()''),
      (''Hash'', ''H256''),
      (''Hashing'', ''frame_support::sp_runtime::traits::BlakeTwo256''),
      (''AccountId'', ''u64''),
      (''Lookup'', ''IdentityLookup<Self::AccountId>''),
      (''Header'', ''Header''),
      (''Event'', ''()''),
      (''BlockHashCount'', ''BlockHashCount''),
      (''Version'', ''()''),
      (''PalletInfo'', ''()''),
      (''AccountData'', ''()''),
      (''OnNewAccount'', ''()''),
      (''OnKilledAccount'', ''()''),
      (''DbWeight'', ''()''),
      (''BaseCallFilter'', ''()''),
      (''SystemWeightInfo'', ''()''),
      (''BlockExecutionWeight'', ''BlockExecutionWeight''),
      (''ExtrinsicBaseWeight'', ''ExtrinsicBaseWeight''),
      (''MaximumExtrinsicWeight'', ''MaximumExtrinsicWeight''),
      (''MaximumBlockWeight'', ''MaximumBlockWeight''),
      (''MaximumBlockLength'', ''MaximumBlockLength''),
      (''AvailableBlockRatio'', ''AvailableBlockRatio'')]"

definition mock_timestamp_trait :: trait_config where
  "mock_timestamp_trait =
     [(''Moment'', ''Moment''),
      (''OnTimestampSet'', ''()''),
      (''MinimumPeriod'', ''()''),
      (''WeightInfo'', ''()'')]"

section \<open>The mock stands in for the runtime\<close>

text \<open>
  The mock gives every associated type the chain's runtime gives the two pallets, once each:
  the tests of the pallet exercise the same interface of \<open>frame_system\<close> and of the timestamp
  pallet.
\<close>

lemma mock_same_interface:
  "set (map fst mock_frame_system_trait) = set (map fst frame_system_trait)"
  "set (map fst mock_timestamp_trait) = set (map fst timestamp_trait)"
  "distinct (map fst mock_frame_system_trait)" "distinct (map fst mock_timestamp_trait)"
  by code_simp+

text \<open>The moment of the mock is a \<open>u64\<close>, as in the chain's runtime: both name the same alias.\<close>

lemma mock_same_moment: "map_of mock_timestamp_trait ''Moment'' = map_of timestamp_trait ''Moment''"
  by code_simp

text \<open>An extrinsic of the greatest weight fits a block of the mock, with room for a second.\<close>

lemma mock_extrinsic_fits: "unat mock_MaximumExtrinsicWeight * 2 = unat mock_MaximumBlockWeight"
  by (simp add: mock_MaximumExtrinsicWeight_def mock_MaximumBlockWeight_def)

end
