(* ===== verification/Build_Script.thy ===== *)
theory Build_Script
  imports Prelude
begin

text \<open>
  The build script of the node, \<open>node/cli/build.rs\<close>: it writes shell completions three
  directories above cargo's output directory, then emits what \<open>substrate_build_script_utils\<close>
  does. An absolute path is the list of its components; \<open>Path::parent\<close> of the root is none,
  which the script unwraps: \<open>None\<close> is that panic. The effects are listed in order.
\<close>

datatype shell = Bash | Fish | Zsh | Elvish | PowerShell

text \<open>The shells of the crate \<open>clap\<close>, in the order the script names them.\<close>

instantiation shell :: enum
begin

definition enum_shell :: "shell list" where
  "enum_shell = [Bash, Fish, Zsh, Elvish, PowerShell]"

definition enum_all_shell :: "(shell \<Rightarrow> bool) \<Rightarrow> bool" where
  "enum_all_shell P \<longleftrightarrow> list_all P enum_class.enum"

definition enum_ex_shell :: "(shell \<Rightarrow> bool) \<Rightarrow> bool" where
  "enum_ex_shell P \<longleftrightarrow> list_ex P enum_class.enum"

instance
proof
  have all: "set (enum_class.enum :: shell list) = UNIV"
    using shell.exhaust by (auto simp: enum_shell_def)
  then show "(UNIV :: shell set) = set enum_class.enum"
    by simp
  show "distinct (enum_class.enum :: shell list)"
    by (simp add: enum_shell_def)
  show "enum_class.enum_all P \<longleftrightarrow> Ball UNIV P" "enum_class.enum_ex P \<longleftrightarrow> Bex UNIV P" for P :: "shell \<Rightarrow> bool"
    by (simp_all add: enum_all_shell_def enum_ex_shell_def list_all_iff list_ex_iff all)
qed

end

type_synonym path = "string list"

datatype build_effect =
    Create_dir path
  | Gen_completions string shell path
  | Generate_cargo_keys
  | Rerun_if_git_head_changed

definition path_parent :: "path \<Rightarrow> path option" where
  "path_parent p = (if p = [] then None else Some (butlast p))"

definition path_join :: "path \<Rightarrow> string \<Rightarrow> path" where
  "path_join p name = p @ [name]"

text \<open>A failure of \<open>create_dir\<close> is ignored, so it does not show.\<close>

definition build_completion :: "path option \<Rightarrow> shell \<Rightarrow> build_effect list option" where
  "build_completion OUT_DIR sh =
     (case OUT_DIR of
        None \<Rightarrow> Some []
      | Some outdir \<Rightarrow>
          Option.bind (path_parent outdir) (\<lambda>p.
          Option.bind (path_parent p) (\<lambda>p.
          Option.bind (path_parent p) (\<lambda>p.
            let path = path_join p ''completion-scripts''
            in Some [Create_dir path, Gen_completions ''substrate-node'' sh path]))))"

fun build_completions :: "path option \<Rightarrow> shell list \<Rightarrow> build_effect list option" where
  "build_completions OUT_DIR [] = Some []"
| "build_completions OUT_DIR (sh # shells) =
     Option.bind (build_completion OUT_DIR sh) (\<lambda>effects.
       map_option ((@) effects) (build_completions OUT_DIR shells))"

definition build_shell_completion :: "path option \<Rightarrow> build_effect list option" where
  "build_shell_completion OUT_DIR = build_completions OUT_DIR [Bash, Fish, Zsh, Elvish, PowerShell]"

definition build_main :: "path option \<Rightarrow> build_effect list option" where
  "build_main OUT_DIR =
     map_option (\<lambda>effects. effects @ [Generate_cargo_keys, Rerun_if_git_head_changed])
       (build_shell_completion OUT_DIR)"

lemma build_completion_deep:
  "build_completion (Some (p @ [a, b, c])) sh =
     Some [Create_dir (p @ [''completion-scripts'']), Gen_completions ''substrate-node'' sh (p @ [''completion-scripts''])]"
  by (simp add: build_completion_def path_parent_def path_join_def butlast_append Let_def)

lemma build_completion_shallow:
  assumes "length p < 3"
  shows "build_completion (Some p) sh = None"
proof -
  have "p = [] \<or> (\<exists>a. p = [a]) \<or> (\<exists>a b. p = [a, b])"
    using assms by (cases p; cases "tl p") auto
  then show ?thesis
    by (auto simp: build_completion_def path_parent_def)
qed

lemma three_last:
  assumes "3 \<le> length p"
  obtains q a b c where "p = q @ [a, b, c]"
proof -
  have "length xs = 3 \<Longrightarrow> \<exists>a b c. xs = [a, b, c]" for xs :: "'a list"
    by (cases xs; cases "tl xs"; cases "tl (tl xs)") auto
  from this [of "drop (length p - 3) p"] assms
  obtain a b c where "drop (length p - 3) p = [a, b, c]"
    by auto
  then have "p = take (length p - 3) p @ [a, b, c]"
    by (metis append_take_drop_id)
  with that show ?thesis .
qed

text \<open>
  The script panics exactly when the output directory has fewer than three components;
  otherwise it ends with the two steps that do not depend on it.
\<close>

lemma build_main_panics_iff: "build_main OUT_DIR = None \<longleftrightarrow> (\<exists>p. OUT_DIR = Some p \<and> length p < 3)"
proof (cases OUT_DIR)
  case None
  then show ?thesis
    by (simp add: build_main_def build_shell_completion_def build_completion_def)
next
  case (Some p)
  show ?thesis
  proof (cases "length p < 3")
    case True
    then show ?thesis
      by (simp add: Some build_main_def build_shell_completion_def build_completion_shallow)
  next
    case False
    then have "3 \<le> length p"
      by simp
    then obtain q a b c where "p = q @ [a, b, c]"
      by (rule three_last)
    with False show ?thesis
      by (simp add: Some build_main_def build_shell_completion_def build_completion_deep)
  qed
qed

lemma build_main_without_out_dir: "build_main None = Some [Generate_cargo_keys, Rerun_if_git_head_changed]"
  by (simp add: build_main_def build_shell_completion_def build_completion_def)

text \<open>Every shell there is gets its completions.\<close>

lemma build_completions_effects:
  assumes "build_completions OUT_DIR shells = Some effects" "sh \<in> set shells"
    "build_completion OUT_DIR sh = Some es"
  shows "set es \<subseteq> set effects"
  using assms by (induction shells arbitrary: effects) (auto simp: bind_eq_Some_conv)

lemma build_all_shells:
  assumes "build_main (Some (p @ [a, b, c])) = Some effects"
  shows "Gen_completions ''substrate-node'' sh (p @ [''completion-scripts'']) \<in> set effects"
proof -
  obtain es where es: "build_completions (Some (p @ [a, b, c])) (enum_class.enum :: shell list) = Some es"
    "effects = es @ [Generate_cargo_keys, Rerun_if_git_head_changed]"
    using assms by (auto simp: build_main_def build_shell_completion_def enum_shell_def simp del: build_completions.simps)
  have "sh \<in> set enum_class.enum"
    by (simp flip: UNIV_enum)
  from build_completions_effects [OF es(1) this build_completion_deep] es(2) show ?thesis
    by simp
qed

end
