(* ===== verification/Crate_Roots.thy ===== *)
theory Crate_Roots
  imports Build_Script
begin

text \<open>
  What is compiled: the root of the library \<open>node/cli/src/lib.rs\<close>, whose modules and exports
  depend on the features \<open>browser\<close> and \<open>cli\<close>, the entry of the node's build script, which the
  feature \<open>cli\<close> switches on, and the build script of the runtime.
\<close>

section \<open>The root of the library\<close>

record cli_features =
  feature_browser :: bool
  feature_cli :: bool

text \<open>The modules that are compiled, and those whose public items the library exports.\<close>

definition cli_modules :: "cli_features \<Rightarrow> string list" where
  "cli_modules features =
     [''chain_spec'', ''service'']
     @ (if feature_browser features then [''browser''] else [])
     @ (if feature_cli features then [''cli''] else [])
     @ (if feature_cli features then [''command''] else [])"

definition cli_reexports :: "cli_features \<Rightarrow> string list" where
  "cli_reexports features =
     (if feature_browser features then [''browser''] else [])
     @ (if feature_cli features then [''cli''] else [])
     @ (if feature_cli features then [''command''] else [])"

text \<open>
  Every module that is exported is compiled; the modules that are compiled without being
  exported are those every build has. The binary, which calls \<open>run\<close> of the module \<open>command\<close>,
  links exactly when the feature \<open>cli\<close> is on.
\<close>

lemma reexports_compiled:
  "set (cli_reexports features) \<subseteq> set (cli_modules features)"
  "set (cli_modules features) - set (cli_reexports features) = {''chain_spec'', ''service''}"
  "''command'' \<in> set (cli_reexports features) \<longleftrightarrow> feature_cli features"
  by (auto simp: cli_modules_def cli_reexports_def)

section \<open>Build scripts\<close>

definition build_script_main :: "cli_features \<Rightarrow> path option \<Rightarrow> build_effect list option" where
  "build_script_main features OUT_DIR = (if feature_cli features then build_main OUT_DIR else Some [])"

lemma build_script_panics_iff:
  "build_script_main features OUT_DIR = None \<longleftrightarrow>
     feature_cli features \<and> (\<exists>p. OUT_DIR = Some p \<and> length p < 3)"
  by (simp add: build_script_main_def build_main_panics_iff)

text \<open>
  The runtime's script gives the wasm builder of Substrate three settings and lets it build:
  the crate itself as the project, the exported heap base, and the imported memory.
\<close>

datatype wasm_setting = With_current_project | Export_heap_base | Import_memory

definition runtime_build_main :: "wasm_setting list" where
  "runtime_build_main = [With_current_project, Export_heap_base, Import_memory]"

end
