(* ===== verification/Spec2Isabelle.thy ===== *)
theory Spec2Isabelle
  imports Node_Theorems Runtime_Api_Theorems Datalog_Chain_Theorems Inspect_Tests Datalog_Mock Crate_Roots
begin

text \<open>
  A verification development for the IPCI blockchain node, a Substrate node written in Rust
  (\<open>pallets/\<close> and \<open>node/\<close>).

  The program. The chain's own logic is the datalog pallet, in which every account keeps a
  bounded log of records. The runtime composes it with Substrate's pallets, fixes their
  parameters and supplies the fee polynomial, the conversion of balances to votes and the
  signing of its own transactions. The node binary builds chain specifications, starts full
  and light services, dispatches subcommands and wires RPC handlers; the inspect crate
  prints blocks and extrinsics found by an address. Substrate itself is not in the
  repository: what the code calls of it is an argument or a record of arguments of the
  definitions (\<open>datalog_trait\<close>, \<open>db_weight\<close>, \<open>perbill_api\<close>, \<open>tx_env\<close>, \<open>key_env\<close>,
  \<open>address_env\<close>, \<open>block_type\<close>, \<open>chain_access\<close>, \<open>role_api\<close>, \<open>cli_env\<close>, \<open>codec\<close>, \<open>hashers\<close>,
  \<open>field_codecs\<close>, \<open>host_pallets\<close>, \<open>babe_module\<close>, \<open>historical\<close>, \<open>evidence_pallet\<close>, \<open>browser_env\<close>), and what a
  theorem relies on is a named hypothesis (\<open>..._documented\<close>, \<open>db_weight_mono\<close>,
  \<open>payload_keeps_parts\<close>, \<open>codec_law\<close>) with an instance in a witness.

  The theories, and the files they model.

    \<^item> \<open>Prelude\<close>, \<open>Rust_Int\<close>: the integer types as words, \<open>Result\<close> and its combinators, the
      bounded suffix of a list; saturating and checked arithmetic of the standard library.

    \<^item> \<open>Ring_Index\<close> (\<open>pallets/datalog/src/lib.rs\<close>, \<open>RingBufferIndex\<close> and its iterator): the
      cursors are a record of two \<open>u64\<close>. The locale \<open>ring_cursor\<close> states what the pallet
      needs of \<open>add\<close>; it is interpreted on \<open>ring_add\<close>. A loop over the iterator may run
      forever, so it is a partial function with \<open>None\<close> for divergence, and the theory says
      exactly on which cursors it returns.

    \<^item> \<open>Datalog\<close> (the same file: \<open>Trait\<close>, \<open>Error\<close>, \<open>Event\<close>, \<open>Store\<close>, the calls and \<open>data\<close>): the
      storage maps, the events, the clock and the counts of storage accesses are one record;
      \<open>record_call\<close>, \<open>erase_call\<close> and \<open>datalog_data\<close> are the functions \<open>record\<close>, \<open>erase\<close> and
      \<open>data\<close>. Their closed forms on well-formed states are here. A chain starts from any values
      of the old storage format (\<open>datalog_start\<close>). The read of the clock is counted; the
      accesses of an event, whitelisted in the runtime's benchmarks, are not.

    \<^item> \<open>Datalog_Log\<close>: the abstract specification, a bounded log per account under appends and
      clears, as the locale \<open>bounded_log\<close>, interpreted on the pallet: a simulation of any
      sequence of calls. \<open>Datalog_Storage\<close>: the pallet as a step relation, its reachable
      states and their invariants (stored slots, record sizes, order of moments, the events
      as an audit trail); the reachable states are those the sequences of calls lead to.
      \<open>Datalog_Weight\<close> (\<open>default_weight.rs\<close>): the declared weights, with the locale
      \<open>weight_info\<close> for \<open>WeightInfo\<close>. \<open>Datalog_Codec\<close>: the derived encodings of the stored values
      and \<open>data\<close> over the storage as bytes. \<open>Datalog_Tests\<close>: the pallet's unit tests as
      programs. \<open>Datalog_Mock\<close>: the parameters and traits of the mock runtime they run on.

    \<^item> \<open>Datalog_History\<close>: storage in terms of the records of an account that has not erased, and
      what an erasure leaves of it. \<open>Datalog_Isolation\<close>: what an account sees of a state, and the locale \<open>separation\<close>, in
      which a domain sees a run as the run of its own actions; interpreted on the pallet's
      calls with the accounts as domains. \<open>Datalog_Upgrade\<close>: the loops on cursors that another
      window size has left behind. \<open>Datalog_Overflow\<close>: the operations in a build with overflow
      checks, where the increment of a cursor may panic. \<open>Datalog_Bytes\<close>: the operations on the
      one store of bytes that all modules share, with the keys \<open>decl_storage!\<close> makes from the
      names of the module and its maps; the events of the block and the clock are in that store
      too, kept by \<open>frame_system\<close> and the timestamp pallet (\<open>host_pallets\<close>); the locale
      \<open>simulation\<close> lifts the refinement of a call to runs, a call spending one of the events the
      block takes. \<open>Datalog_Host\<close>: an instance of these parameters, for the witnesses.

    \<^item> \<open>Runtime_Constants\<close>, \<open>Runtime_Config\<close>, \<open>Runtime_Pallets\<close>, \<open>Runtime_Fees\<close>, \<open>Runtime_Tx\<close>
      (\<open>node/runtime/src/lib.rs\<close>, \<open>constants.rs\<close>, \<open>impls.rs\<close>): the parameters at their widths,
      every trait implementation as a table of its associated types, the composition of
      \<open>construct_runtime!\<close> with the benchmark dispatcher, fees and votes, and
      \<open>create_transaction\<close>. \<open>Runtime_Api\<close>: the versions, the calls each function of
      \<open>impl_runtime_apis!\<close> makes, the BABE configuration, key ownership proofs and reports of
      equivocations. \<open>Primitives\<close> (with \<open>node/primitives/src/lib.rs\<close>): the type aliases.

    \<^item> \<open>Inspect_Address\<close>, \<open>Inspector\<close> (\<open>node/inspect/src/lib.rs\<close>, \<open>command.rs\<close>, \<open>cli.rs\<close>): the
      parsers of addresses on strings of bytes, with the locale \<open>textual\<close> for a form that
      prints and parses; block lookups with their errors, the printers with the locale
      \<open>pretty_printer\<close>, and the inspect command. \<open>Inspect_Tests\<close>: the unit tests of the parsers.

    \<^item> \<open>Chain_Spec\<close> (\<open>node/cli/src/chain_spec.rs\<close>), \<open>Service\<close> (\<open>service.rs\<close>), \<open>Rpc\<close>
      (\<open>node/rpc/src/lib.rs\<close>), \<open>Cli\<close> (\<open>cli.rs\<close>, \<open>command.rs\<close>): the genesis of a test network; the
      services as sequences of calls, each of which may fail; the RPC handlers; the
      subcommands, what \<open>run\<close> does for each, the entry point, and the native executor. The
      panics of \<open>load_spec\<close> and of the genesis it names are panics of \<open>run\<close>.
      \<open>Service_Flow\<close>: the objects the calls of a service are given, return and take for good.
      \<open>Browser\<close> (\<open>browser.rs\<close>): the browser client over the light service. \<open>Build_Script\<close> (\<open>build.rs\<close>): the shell completions.
      \<open>Crate_Roots\<close> (\<open>node/cli/src/lib.rs\<close>, \<open>node/runtime/build.rs\<close>): the modules compiled by
      feature, and the settings of the wasm builder.

  The properties are in the theories named \<open>..._Theorems\<close>, and the one that spans pallet and
  inspector is below. C1 to C18 are about the pallet: the calls refine the bounded log (C1),
  what each call does on each branch (C2 to C4) and what an erasure leaves (C8), that accounts do not interfere (C5),
  that every call returns in every reachable state (C6), the invariants of storage and events
  (C7, C9, C10), the ring and its loops (C11, C12), upgrades of the window size (C13), the
  weights (C14), how long a record stays readable (C15), the stored bytes (C16), builds with
  overflow checks (C17) and the refinement by the store of bytes (C18). C19 to C27 are about
  the runtime, its last two about its APIs, C28 to C32 about the inspector, C33 to C35 about
  the genesis, C36 to C39 about services and command line, and C40 says that the repository's unit tests pass.

  Bounds. No definition uses fuel but \<open>pow2_from\<close>, whose bound is the width of the word: a
  power of two that is still too small after that many doublings has left the type. The
  reachable states are those of any number of calls by any accounts at any times. Integers
  wrap as in a release build (for the pallet, C17 compares the two builds); where the width
  matters, the theorems say when a result is exact (C21, C22) or give it modulo the width (C33). A block
  of the store of bytes has fewer than \<open>2 ^ 32\<close> calls, the number of events it takes (C18). The \<open>f64\<close> of \<open>EPOCH_DURATION_IN_SLOTS\<close> is a rational number: the
  computation is exact on these values.

  Not modelled. What the forwarded runtime APIs do inside Substrate; the codecs of the
  standard types, hash functions and signatures; asynchronous tasks once spawned and the lines the
  node logs; panics inside Substrate's calls, but for the two that \<open>run\<close> names; the executor's code, which a macro of Substrate generates; the parsing of the
  arguments, which \<open>structopt\<close> derives; and the wasm builder the runtime's build script calls.
\<close>

section \<open>The unit tests of the repository\<close>

text \<open>
  C40: All unit tests of the repository pass: the seven of the datalog pallet and the two of
  the inspector, for every size hint, base58 decoder and parsers of hashes and hex bytes that
  behave as documented.
\<close>

theorem tests_pass:
  assumes "hint_documented hint" and "base58_documented from_base58" and "parsers_documented env"
  shows "test_ringbuffer_index \<and> test_store_data hint \<and> test_recycle_data hint \<and> test_erase_data hint
    \<and> test_bad_origin hint \<and> test_big_record hint \<and> test_store_ipfs_hashes hint from_base58
    \<and> should_parse_block_strings env \<and> should_parse_extrinsic_address env"
  using assms
  by (simp add: test_ring_passes test_store_passes test_recycle_passes test_erase_passes test_refused_pass
      test_ipfs_passes block_tests_pass extrinsic_tests_pass)

text \<open>Parsers that know the constants of the tests.\<close>

definition test_env :: "string address_env" where
  "test_env =
     \<lparr>hash_from_str = (\<lambda>s. if s = test_hash then Some s else None),
      from_hex = (\<lambda>s. if s = ''0x0012345f'' then Ok [0, 0x12, 0x34, 0x5f] else Err ''not hex'')\<rparr>"

lemma test_env_documented: "parsers_documented test_env"
  by (auto simp: parsers_documented_def hash_documented_def hex_documented_def test_env_def separator_def
      split: if_splits)

theorem tests_pass_witness:
  "test_recycle_data long_hint \<and> test_store_ipfs_hashes long_hint (\<lambda>s. Some (bytes_of s))
   \<and> should_parse_extrinsic_address test_env"
  using tests_pass [OF long_hint_documented _ test_env_documented, of "\<lambda>s. Some (bytes_of s)"]
  by (simp add: base58_documented_def bytes_of_def)

end
